theory Spec2Isabelle
  imports Complex_Main
begin

section \<open>Hourly settlement, monthly aggregation and report formulas of the plant comparison tool\<close>

text \<open>
  The development follows the two Python modules of the tool: \<^verbatim>\<open>epias_client.py\<close>
  (date-range partitioning, time-key normalisation, the joins and the per-hour
  settlement columns) and \<^verbatim>\<open>streamlit_app.py\<close> (monthly summary, extended monthly
  KPIs, column letters and the formula block of the comparison sheet).

  Modelling conventions.
  \<^item> A float is a \<^typ>\<open>real\<close>; rounding is not modelled. A missing value (\<^verbatim>\<open>NaN\<close>,
    \<^verbatim>\<open>None\<close>, \<^verbatim>\<open>NaT\<close>) is \<^term>\<open>None\<close>.
  \<^item> A data frame is the list of its rows; an empty frame is the empty list.
  \<^item> An exception is a value \<^term>\<open>Inl e\<close> of a sum type.
  \<^item> Strings are byte strings; a digit is an ASCII digit.
\<close>

subsection \<open>Errors, numbers and missing values\<close>

text \<open>
  The exceptions the modelled code raises. \<^verbatim>\<open>KeyError\<close> carries the column that a
  data frame does not have.
\<close>

datatype error = ValueError string | OverflowError | KeyError string

text \<open>
  A cell of a numeric column: a float, or \<^verbatim>\<open>NaN\<close>. Arithmetic on columns is
  \<^verbatim>\<open>NaN\<close> as soon as one operand is; comparisons with \<^verbatim>\<open>NaN\<close> are false;
  \<^verbatim>\<open>sum\<close>, \<^verbatim>\<open>max\<close> and \<^verbatim>\<open>min\<close> skip \<^verbatim>\<open>NaN\<close> (pandas' default
  \<^verbatim>\<open>skipna=True\<close>), and a sum over nothing is 0.
\<close>

type_synonym num = "real option"

definition nan_add :: "num \<Rightarrow> num \<Rightarrow> num" where
  "nan_add a b = (case a of None \<Rightarrow> None | Some x \<Rightarrow> (case b of None \<Rightarrow> None | Some y \<Rightarrow> Some (x + y)))"

definition nan_sub :: "num \<Rightarrow> num \<Rightarrow> num" where
  "nan_sub a b = (case a of None \<Rightarrow> None | Some x \<Rightarrow> (case b of None \<Rightarrow> None | Some y \<Rightarrow> Some (x - y)))"

definition nan_mul :: "num \<Rightarrow> num \<Rightarrow> num" where
  "nan_mul a b = (case a of None \<Rightarrow> None | Some x \<Rightarrow> (case b of None \<Rightarrow> None | Some y \<Rightarrow> Some (x * y)))"

definition nan_div :: "num \<Rightarrow> num \<Rightarrow> num" where
  "nan_div a b = (case a of None \<Rightarrow> None | Some x \<Rightarrow> (case b of None \<Rightarrow> None | Some y \<Rightarrow> Some (x / y)))"

definition nan_abs :: "num \<Rightarrow> num" where
  "nan_abs a = map_option abs a"

definition clip_lower :: "real \<Rightarrow> num \<Rightarrow> num" where
  "clip_lower lo a = map_option (max lo) a"

definition nan_gt :: "num \<Rightarrow> real \<Rightarrow> bool" where
  "nan_gt a c = (case a of None \<Rightarrow> False | Some x \<Rightarrow> x > c)"

definition nan_lt :: "num \<Rightarrow> real \<Rightarrow> bool" where
  "nan_lt a c = (case a of None \<Rightarrow> False | Some x \<Rightarrow> x < c)"

definition known :: "num list \<Rightarrow> real list" where
  "known xs = concat (map (\<lambda>x. case x of None \<Rightarrow> [] | Some v \<Rightarrow> [v]) xs)"

definition nansum :: "num list \<Rightarrow> real" where
  "nansum xs = sum_list (known xs)"

definition nanmax :: "num list \<Rightarrow> num" where
  "nanmax xs = (case known xs of [] \<Rightarrow> None | v # vs \<Rightarrow> Some (fold max vs v))"

definition nanmin :: "num list \<Rightarrow> num" where
  "nanmin xs = (case known xs of [] \<Rightarrow> None | v # vs \<Rightarrow> Some (fold min vs v))"

text \<open>
  \<^verbatim>\<open>pd.to_numeric(..., errors="coerce")\<close> on a column that holds floats and missing
  values only: nothing changes.
\<close>

definition to_numeric :: "num \<Rightarrow> num" where
  "to_numeric a = a"

subsection \<open>Calendar and \<^verbatim>\<open>datetime\<close>\<close>

text \<open>
  A naive \<^verbatim>\<open>datetime\<close>. Python orders datetimes by their fields, year first.
\<close>

record datetime =
  year :: nat
  month :: nat
  day :: nat
  hour :: nat
  minute :: nat
  second :: nat
  microsecond :: nat

definition dt_fields :: "datetime \<Rightarrow> nat list" where
  "dt_fields d = [year d, month d, day d, hour d, minute d, second d, microsecond d]"

fun lex_less :: "nat list \<Rightarrow> nat list \<Rightarrow> bool" where
  "lex_less (x # xs) (y # ys) = (if x = y then lex_less xs ys else x < y)"
| "lex_less _ _ = False"

definition dt_less :: "datetime \<Rightarrow> datetime \<Rightarrow> bool" where
  "dt_less a b = lex_less (dt_fields a) (dt_fields b)"

definition dt_le :: "datetime \<Rightarrow> datetime \<Rightarrow> bool" where
  "dt_le a b = (if dt_less b a then False else True)"

text \<open>\<^verbatim>\<open>max(a, b)\<close> and \<^verbatim>\<open>min(a, b)\<close> keep the first argument unless the second is strictly beyond it.\<close>

definition dt_max :: "datetime \<Rightarrow> datetime \<Rightarrow> datetime" where
  "dt_max a b = (if dt_less a b then b else a)"

definition dt_min :: "datetime \<Rightarrow> datetime \<Rightarrow> datetime" where
  "dt_min a b = (if dt_less b a then b else a)"

definition is_leap :: "nat \<Rightarrow> bool" where
  "is_leap y = (if y mod 400 = 0 then True else if y mod 100 = 0 then False else y mod 4 = 0)"

definition days_in_month :: "nat \<Rightarrow> nat \<Rightarrow> nat" where
  "days_in_month y m =
     (if m = 2 then (if is_leap y then 29 else 28)
      else if m = 4 \<or> m = 6 \<or> m = 9 \<or> m = 11 then 30 else 31)"

definition valid_date :: "nat \<Rightarrow> nat \<Rightarrow> nat \<Rightarrow> bool" where
  "valid_date y m d = (1 \<le> y \<and> y \<le> 9999 \<and> 1 \<le> m \<and> m \<le> 12 \<and> 1 \<le> d \<and> d \<le> days_in_month y m)"

definition valid_datetime :: "datetime \<Rightarrow> bool" where
  "valid_datetime d = (valid_date (year d) (month d) (day d) \<and> hour d < 24 \<and> minute d < 60
     \<and> second d < 60 \<and> microsecond d < 1000000)"

text \<open>The constructor \<^verbatim>\<open>datetime(y, m, d)\<close>: midnight of that day, \<^verbatim>\<open>ValueError\<close> outside the calendar.\<close>

definition datetime_new :: "nat \<Rightarrow> nat \<Rightarrow> nat \<Rightarrow> error + datetime" where
  "datetime_new y m d =
     (if valid_date y m d
      then Inr \<lparr>year = y, month = m, day = d, hour = 0, minute = 0, second = 0, microsecond = 0\<rparr>
      else Inl (ValueError ''out of range''))"

text \<open>\<^verbatim>\<open>dt - timedelta(days=1)\<close>; before 0001-01-01 there is no date.\<close>

definition minus_one_day :: "datetime \<Rightarrow> error + datetime" where
  "minus_one_day d =
     (if 1 < day d then Inr (d\<lparr>day := day d - 1\<rparr>)
      else if 1 < month d then Inr (d\<lparr>month := month d - 1, day := days_in_month (year d) (month d - 1)\<rparr>)
      else if 1 < year d then Inr (d\<lparr>year := year d - 1, month := 12, day := 31\<rparr>)
      else Inl OverflowError)"

text \<open>
  Decimal output. \<^verbatim>\<open>%m %d %H %M %S\<close> print two digits; \<^verbatim>\<open>%Y\<close> prints the year's
  decimal digits (four of them from the year 1000 on).
\<close>

definition is_digit :: "char \<Rightarrow> bool" where
  "is_digit c = (48 \<le> (of_char c :: nat) \<and> (of_char c :: nat) \<le> 57)"

definition digit_char :: "nat \<Rightarrow> char" where
  "digit_char n = ''0123456789'' ! (n mod 10)"

fun dec :: "nat \<Rightarrow> string" where
  "dec n = (if n < 10 then [digit_char n] else dec (n div 10) @ [digit_char n])"

definition dec2 :: "nat \<Rightarrow> string" where
  "dec2 n = [digit_char (n div 10), digit_char n]"

definition strftime_iso :: "datetime \<Rightarrow> string" where
  "strftime_iso d = dec (year d) @ ''-'' @ dec2 (month d) @ ''-'' @ dec2 (day d) @ ''T''
     @ dec2 (hour d) @ '':'' @ dec2 (minute d) @ '':'' @ dec2 (second d) @ ''+03:00''"

subsection \<open>Column letters (\<^verbatim>\<open>_col_letter\<close>)\<close>

text \<open>
  The loop of \<^verbatim>\<open>_col_letter\<close>: \<^verbatim>\<open>divmod\<close> is floor division, as \<^term>\<open>(div)\<close> and
  \<^term>\<open>(mod)\<close> on \<^typ>\<open>int\<close> are. On a negative index the loop never leaves, which is
  the value \<^term>\<open>None\<close> here.
\<close>

partial_function (option) col_letter_loop :: "int \<Rightarrow> string \<Rightarrow> string option" where
  "col_letter_loop idx letters =
     (let q = idx div 26; rem = idx mod 26; letters' = char_of (65 + rem) # letters
      in if q = 0 then Some letters' else col_letter_loop (q - 1) letters')"

declare col_letter_loop.simps [code]

definition col_letter :: "int \<Rightarrow> string option" where
  "col_letter idx_zero_based = col_letter_loop idx_zero_based []"

text \<open>
  The reference numbering of spreadsheet columns: a column name is a numeral in bijective
  base 26 with the digits \<^verbatim>\<open>A\<close> = 1, ..., \<^verbatim>\<open>Z\<close> = 26, so that \<^verbatim>\<open>A\<close> is column 1,
  \<^verbatim>\<open>Z\<close> column 26 and \<^verbatim>\<open>AA\<close> column 27.
\<close>

definition is_upper :: "char \<Rightarrow> bool" where
  "is_upper c = (65 \<le> (of_char c :: int) \<and> (of_char c :: int) \<le> 90)"

definition column_number :: "string \<Rightarrow> int" where
  "column_number s = foldl (\<lambda>acc c. acc * 26 + (of_char c - 64)) 0 s"

subsection \<open>Splitting a date range by month (\<^verbatim>\<open>month_start_end_strings\<close>)\<close>

text \<open>
  The \<^verbatim>\<open>while\<close> loop: the cursor is the first day of a month; each round computes the
  first day of the next month, clips the month to the range, appends the formatted pair
  and moves the cursor on.
\<close>

function month_loop :: "datetime \<Rightarrow> datetime \<Rightarrow> datetime \<Rightarrow> (string \<times> string) list
    \<Rightarrow> error + (string \<times> string) list" where
  "month_loop start_dt end_dt cursor ranges =
     (if dt_le cursor end_dt then
        (case (if month cursor = 12 then datetime_new (year cursor + 1) 1 1
               else datetime_new (year cursor) (month cursor + 1) 1) of
           Inl e \<Rightarrow> Inl e
         | Inr next_month \<Rightarrow>
             (case minus_one_day next_month of
                Inl e \<Rightarrow> Inl e
              | Inr last_day \<Rightarrow>
                  month_loop start_dt end_dt next_month
                    (ranges @ [(strftime_iso (dt_max start_dt cursor),
                                strftime_iso (dt_min end_dt last_day))])))
      else Inr ranges)"
  by pat_completeness auto
termination
proof (relation "measure (\<lambda>(s, e, c, r). (year e + 2 - year c) * 12 - month c)", goal_cases)
  case 1
  show ?case by simp
next
  case (2 start_dt end_dt cursor ranges next_month last_day)
  from 2(1) have le: "year cursor \<le> year end_dt"
    by (auto simp: dt_le_def dt_less_def dt_fields_def split: if_splits)
  show ?case
  proof (cases "month cursor = 12")
    case True
    with 2(2) have "year next_month = year cursor + 1" "month next_month = 1"
      by (auto simp: datetime_new_def split: if_splits)
    with True le show ?thesis by simp
  next
    case False
    with 2(2) have "year next_month = year cursor" "month next_month = month cursor + 1"
      "month cursor + 1 \<le> 12"
      by (auto simp: datetime_new_def valid_date_def split: if_splits)
    with le show ?thesis by simp
  qed
qed

declare month_loop.simps [simp del]

definition month_start_end_strings :: "datetime \<Rightarrow> datetime \<Rightarrow> error + (string \<times> string) list" where
  "month_start_end_strings start_dt end_dt =
     (if dt_less end_dt start_dt then Inl (ValueError ''end_dt must be >= start_dt'')
      else (case datetime_new (year start_dt) (month start_dt) 1 of
              Inl e \<Rightarrow> Inl e
            | Inr cursor \<Rightarrow>
                (case datetime_new (year start_dt) (month start_dt) 1 of
                   Inl e \<Rightarrow> Inl e
                 | Inr first \<Rightarrow>
                     month_loop start_dt end_dt (if dt_less cursor first then first else cursor) [])))"

text \<open>
  Notions for stating what the partition does. Months are counted from year 0:
  \<open>month_index\<close> of a date in month \<open>m\<close> of year \<open>y\<close> is \<open>12 y + (m - 1)\<close>;
  \<open>first_day k\<close> and \<open>last_day k\<close> are the midnights of the first and the last day of
  the month with index \<open>k\<close>. \<open>iso_shape\<close> is the format
  \<^verbatim>\<open>YYYY-MM-DDTHH:MM:SS+03:00\<close>.
\<close>

definition month_index :: "datetime \<Rightarrow> nat" where
  "month_index d = year d * 12 + (month d - 1)"

definition first_day :: "nat \<Rightarrow> datetime" where
  "first_day k = \<lparr>year = k div 12, month = k mod 12 + 1, day = 1,
     hour = 0, minute = 0, second = 0, microsecond = 0\<rparr>"

definition last_day :: "nat \<Rightarrow> datetime" where
  "last_day k = \<lparr>year = k div 12, month = k mod 12 + 1, day = days_in_month (k div 12) (k mod 12 + 1),
     hour = 0, minute = 0, second = 0, microsecond = 0\<rparr>"

definition is_midnight :: "datetime \<Rightarrow> bool" where
  "is_midnight d = (hour d = 0 \<and> minute d = 0 \<and> second d = 0 \<and> microsecond d = 0)"

definition clipped_month :: "datetime \<Rightarrow> datetime \<Rightarrow> nat \<Rightarrow> datetime \<times> datetime" where
  "clipped_month start_dt end_dt k = (dt_max start_dt (first_day k), dt_min end_dt (last_day k))"

definition format_period :: "datetime \<times> datetime \<Rightarrow> string \<times> string" where
  "format_period p = (strftime_iso (fst p), strftime_iso (snd p))"

definition day_ord :: "datetime \<Rightarrow> nat" where
  "day_ord d = month_index d * 32 + day d"

definition iso_shape :: "string \<Rightarrow> bool" where
  "iso_shape s = (length s = 25 \<and> list_all is_digit (take 4 s) \<and> s ! 4 = CHR ''-''
     \<and> list_all is_digit (take 2 (drop 5 s)) \<and> s ! 7 = CHR ''-''
     \<and> list_all is_digit (take 2 (drop 8 s)) \<and> s ! 10 = CHR ''T''
     \<and> list_all is_digit (take 2 (drop 11 s)) \<and> s ! 13 = CHR '':''
     \<and> list_all is_digit (take 2 (drop 14 s)) \<and> s ! 16 = CHR '':''
     \<and> list_all is_digit (take 2 (drop 17 s)) \<and> drop 19 s = ''+03:00'')"

subsection \<open>Time keys (\<^verbatim>\<open>_build_datetime\<close>)\<close>

text \<open>
  One item of an API response: the \<^verbatim>\<open>date\<close> field, the \<^verbatim>\<open>hour\<close> (or \<^verbatim>\<open>time\<close>)
  field and the value; each may be \<^verbatim>\<open>null\<close>.
\<close>

record raw_item =
  item_date :: "string option"
  item_hour :: "string option"
  item_value :: num

text \<open>\<^verbatim>\<open>astype(str)\<close> turns a missing value into the text \<^verbatim>\<open>None\<close>.\<close>

definition astype_str :: "string option \<Rightarrow> string" where
  "astype_str v = (case v of None \<Rightarrow> ''None'' | Some s \<Rightarrow> s)"

text \<open>The regular expression \<^verbatim>\<open>^(\d{4}-\d{2}-\d{2})\<close>.\<close>

definition extract_day :: "string \<Rightarrow> string option" where
  "extract_day s =
     (case s of
        y1 # y2 # y3 # y4 # h1 # m1 # m2 # h2 # d1 # d2 # rest \<Rightarrow>
          (if list_all is_digit [y1, y2, y3, y4, m1, m2, d1, d2] \<and> h1 = CHR ''-'' \<and> h2 = CHR ''-''
           then Some [y1, y2, y3, y4, h1, m1, m2, h2, d1, d2] else None)
      | _ \<Rightarrow> None)"

text \<open>The regular expression \<^verbatim>\<open>^(\d{2}:\d{2})\<close>.\<close>

definition extract_hhmm :: "string \<Rightarrow> string option" where
  "extract_hhmm s =
     (case s of
        a # b # c # d # e # rest \<Rightarrow>
          (if list_all is_digit [a, b, d, e] \<and> c = CHR '':'' then Some [a, b, c, d, e] else None)
      | _ \<Rightarrow> None)"

text \<open>The regular expression \<^verbatim>\<open>T(\d{2}:\d{2})\<close>, searched from the left: the first match counts.\<close>

fun extract_T_hhmm :: "string \<Rightarrow> string option" where
  "extract_T_hhmm [] = None"
| "extract_T_hhmm (c # cs) =
     (if c = CHR ''T'' then (case extract_hhmm cs of Some h \<Rightarrow> Some h | None \<Rightarrow> extract_T_hhmm cs)
      else extract_T_hhmm cs)"

text \<open>\<^verbatim>\<open>a.fillna(b)\<close> on one cell.\<close>

definition fillna :: "'a option \<Rightarrow> 'a option \<Rightarrow> 'a option" where
  "fillna a b = (case a of None \<Rightarrow> b | Some x \<Rightarrow> Some x)"

text \<open>
  \<^verbatim>\<open>pd.to_datetime(day + " " + hour, format="%Y-%m-%d %H:%M", errors="coerce")\<close> on one
  cell. The text is missing when the day is. Otherwise it has the shape
  \<^verbatim>\<open>dddd-dd-dd dd:dd\<close>; it is a timestamp when the date is in the calendar, the time is
  on the clock and the minute lies in the range of nanosecond timestamps
  (1677-09-21 00:13 to 2262-04-11 23:47). Anything else is \<^verbatim>\<open>NaT\<close>.
\<close>

definition digit_val :: "char \<Rightarrow> nat" where
  "digit_val c = of_char c - 48"

definition read_nat :: "string \<Rightarrow> nat" where
  "read_nat s = foldl (\<lambda>acc c. acc * 10 + digit_val c) 0 s"

definition in_ns_bounds :: "datetime \<Rightarrow> bool" where
  "in_ns_bounds d =
     (dt_le \<lparr>year = 1677, month = 9, day = 21, hour = 0, minute = 13, second = 0, microsecond = 0\<rparr> d
      \<and> dt_le d \<lparr>year = 2262, month = 4, day = 11, hour = 23, minute = 47, second = 0, microsecond = 0\<rparr>)"

definition to_datetime_coerce :: "string option \<Rightarrow> string \<Rightarrow> datetime option" where
  "to_datetime_coerce day_str hhmm =
     (case day_str of
        None \<Rightarrow> None
      | Some ds \<Rightarrow>
          (let d = \<lparr>year = read_nat (take 4 ds), month = read_nat (take 2 (drop 5 ds)),
                    day = read_nat (take 2 (drop 8 ds)), hour = read_nat (take 2 hhmm),
                    minute = read_nat (take 2 (drop 3 hhmm)), second = 0, microsecond = 0\<rparr>
           in if valid_datetime d \<and> in_ns_bounds d then Some d else None))"

text \<open>The three columns \<^verbatim>\<open>_build_datetime\<close> adds to a row, beside the row's value.\<close>

record keyed_row =
  key_datetime :: "datetime option"
  key_Tarih :: "string option"
  key_Saat :: string
  key_value :: num

definition build_datetime :: "raw_item \<Rightarrow> keyed_row" where
  "build_datetime it =
     (let day = extract_day (astype_str (item_date it));
          hour_raw = astype_str (item_hour it);
          hour_norm = extract_hhmm hour_raw;
          derived_from_date = extract_T_hhmm (astype_str (item_date it));
          hour_final = (case fillna (fillna hour_norm derived_from_date) (Some ''00:00'') of
                          Some h \<Rightarrow> h | None \<Rightarrow> ''nan'');
          dt = to_datetime_coerce day hour_final
      in \<lparr>key_datetime = dt, key_Tarih = day, key_Saat = hour_final, key_value = item_value it\<rparr>)"

text \<open>
  The shapes the three regular expressions ask for, stated on their own: \<^verbatim>\<open>dddd-dd-dd\<close>
  and \<^verbatim>\<open>dd:dd\<close>.
\<close>

definition is_ymd :: "string \<Rightarrow> bool" where
  "is_ymd p = (length p = 10 \<and> list_all is_digit (take 4 p) \<and> p ! 4 = CHR ''-''
     \<and> list_all is_digit (take 2 (drop 5 p)) \<and> p ! 7 = CHR ''-'' \<and> list_all is_digit (drop 8 p))"

definition is_hhmm :: "string \<Rightarrow> bool" where
  "is_hhmm p = (length p = 5 \<and> list_all is_digit (take 2 p) \<and> p ! 2 = CHR '':''
     \<and> list_all is_digit (drop 3 p))"

subsection \<open>The per-plant hourly table (\<^verbatim>\<open>build_plant_dataframe\<close>)\<close>

text \<open>
  The four \<^verbatim>\<open>fetch_*\<close> methods, from the items the API returned for the whole range:
  no item gives the empty frame (without columns), otherwise every item gets its time
  key. \<^verbatim>\<open>fetch_kgup\<close> keeps \<^verbatim>\<open>datetime, Tarih, Saat, KGUP\<close>; the three others keep
  \<^verbatim>\<open>datetime\<close> and their value.
\<close>

definition fetch_kgup :: "raw_item list \<Rightarrow> keyed_row list" where
  "fetch_kgup items = (if items = [] then [] else map build_datetime items)"

definition fetch_value :: "raw_item list \<Rightarrow> (datetime option \<times> num) list" where
  "fetch_value items =
     (if items = [] then [] else map (\<lambda>it. let r = build_datetime it in (key_datetime r, key_value r)) items)"

text \<open>
  A row of the joined table before the derived columns. \<^verbatim>\<open>DataFrame.merge\<close> pairs
  rows with equal keys, in the order of the left frame; two missing keys are equal keys.
  A left join keeps a left row without partner, with the new column missing.
\<close>

record joined_row =
  j_datetime :: "datetime option"
  j_Tarih :: "string option"
  j_Saat :: string
  j_KGUP :: num
  j_URETIM :: num
  j_PTF :: num
  j_SMF :: num

definition partners :: "datetime option \<Rightarrow> (datetime option \<times> num) list \<Rightarrow> num list" where
  "partners k right = map snd (filter (\<lambda>b. fst b = k) right)"

definition merge_inner :: "keyed_row list \<Rightarrow> (datetime option \<times> num) list \<Rightarrow> (keyed_row \<times> num) list" where
  "merge_inner left right = concat (map (\<lambda>a. map (\<lambda>v. (a, v)) (partners (key_datetime a) right)) left)"

definition merge_left :: "('a \<Rightarrow> datetime option) \<Rightarrow> 'a list \<Rightarrow> (datetime option \<times> num) list \<Rightarrow> ('a \<times> num) list" where
  "merge_left key left right =
     concat (map (\<lambda>a. case partners (key a) right of [] \<Rightarrow> [(a, None)] | vs \<Rightarrow> map (\<lambda>v. (a, v)) vs) left)"

text \<open>A row of the result, with the fifteen columns in their order.\<close>

record hourly_row =
  Tarih :: "string option"
  Ay :: "nat option"
  Saat :: string
  PTF :: num
  SMF :: num
  Poz_DF :: num
  Neg_DF :: num
  KGUP :: num
  URETIM :: num
  Dengesizlik :: num
  GOP_Geliri :: num
  Dengesizlik_Tutari :: num
  Net_Gelir :: num
  Dengesizlik_Maliyeti :: num
  Birim_DM :: num

text \<open>The two row functions given to \<^verbatim>\<open>DataFrame.apply\<close>.\<close>

definition imbalance_amount :: "num \<Rightarrow> num \<Rightarrow> num \<Rightarrow> num" where
  "imbalance_amount dengesizlik poz_df neg_df =
     (case dengesizlik of
        None \<Rightarrow> Some 0
      | Some d \<Rightarrow> nan_mul (Some d) (if d \<ge> 0 then poz_df else neg_df))"

definition unit_cost :: "num \<Rightarrow> num \<Rightarrow> num" where
  "unit_cost uretim_val maliyet =
     (case uretim_val of
        None \<Rightarrow> Some 0
      | Some u \<Rightarrow> if u = 0 then Some 0 else nan_div maliyet (Some u))"

text \<open>The derived columns of one row, in the order of the assignments.\<close>

definition derived_columns :: "joined_row \<Rightarrow> hourly_row" where
  "derived_columns r =
     (let ay = map_option month (j_datetime r);
          poz_df = nan_mul (nanmin [j_PTF r, j_SMF r]) (Some 0.97);
          neg_df = nan_mul (nanmax [j_PTF r, j_SMF r]) (Some 1.03);
          kgup = to_numeric (j_KGUP r);
          uretim = to_numeric (j_URETIM r);
          ptf = to_numeric (j_PTF r);
          smf = to_numeric (j_SMF r);
          dengesizlik = nan_sub uretim kgup;
          gop_geliri = nan_mul kgup ptf;
          tutar = imbalance_amount dengesizlik poz_df neg_df;
          net_gelir = nan_add gop_geliri tutar;
          maliyet = clip_lower 0 (nan_sub (nan_mul uretim ptf) net_gelir);
          birim_dm = unit_cost uretim maliyet
      in \<lparr>Tarih = j_Tarih r, Ay = ay, Saat = j_Saat r, PTF = ptf, SMF = smf,
          Poz_DF = poz_df, Neg_DF = neg_df, KGUP = kgup, URETIM = uretim,
          Dengesizlik = dengesizlik, GOP_Geliri = gop_geliri, Dengesizlik_Tutari = tutar,
          Net_Gelir = net_gelir, Dengesizlik_Maliyeti = maliyet, Birim_DM = birim_dm\<rparr>)"

text \<open>
  The method, from the four streams as fetched. An empty plan or realized stream returns
  the empty frame at once. A price stream without rows is not merged, so that its column
  is not there when the first derived column reads it: \<^verbatim>\<open>df[["PTF", "SMF"]]\<close> raises
  \<^verbatim>\<open>KeyError\<close>.
\<close>

definition build_plant_dataframe ::
  "keyed_row list \<Rightarrow> (datetime option \<times> num) list \<Rightarrow> (datetime option \<times> num) list
     \<Rightarrow> (datetime option \<times> num) list \<Rightarrow> error + hourly_row list" where
  "build_plant_dataframe kgup_df uretim_df ptf_df smf_df =
     (if kgup_df = [] \<or> uretim_df = [] then Inr []
      else
        (let df = merge_inner kgup_df uretim_df
         in if ptf_df = [] then Inl (KeyError ''PTF'')
            else if smf_df = [] then Inl (KeyError ''SMF'')
            else
              (let df_ptf = merge_left (\<lambda>(a, u). key_datetime a) df ptf_df;
                   df_smf = merge_left (\<lambda>((a, u), p). key_datetime a) df_ptf smf_df
               in Inr (map (\<lambda>(((a, u), p), s).
                         derived_columns
                           \<lparr>j_datetime = key_datetime a, j_Tarih = key_Tarih a, j_Saat = key_Saat a,
                            j_KGUP = key_value a, j_URETIM = u, j_PTF = p, j_SMF = s\<rparr>) df_smf))))"

subsection \<open>Monthly summary (\<^verbatim>\<open>build_monthly_summary\<close>)\<close>

text \<open>
  \<^verbatim>\<open>groupby("Ay", dropna=False).agg(sum).reindex(range(1, 13), fill_value=0)\<close> on one
  column and one month: the sum over the month's rows where the month is a group of the
  frame, the fill value 0 where it is not.
\<close>

definition month_rows :: "hourly_row list \<Rightarrow> nat \<Rightarrow> hourly_row list" where
  "month_rows df m = filter (\<lambda>r. Ay r = Some m) df"

definition group_sum :: "hourly_row list \<Rightarrow> (hourly_row \<Rightarrow> num) \<Rightarrow> nat \<Rightarrow> real" where
  "group_sum df col m = (case month_rows df m of [] \<Rightarrow> 0 | rs \<Rightarrow> nansum (map col rs))"

datatype row_label = Month nat | Toplam

record summary_row =
  s_Ay :: row_label
  s_Uretim :: real
  s_Dengesizlik :: real
  s_GOP_Geliri :: real
  s_Dengesizlik_Tutari :: real
  s_Toplam_Gelir :: real
  s_Birim_Gelir :: real
  s_Dengesizlik_Maliyeti :: real
  s_Birim_Deng_Mal :: real

definition unit_metric :: "real \<Rightarrow> real \<Rightarrow> real" where
  "unit_metric amount uretim = (if uretim = 0 then 0 else amount / uretim)"

definition summary_month :: "hourly_row list \<Rightarrow> nat \<Rightarrow> summary_row" where
  "summary_month df m =
     (let uretim = group_sum df URETIM m;
          net = group_sum df Net_Gelir m;
          maliyet = group_sum df Dengesizlik_Maliyeti m
      in \<lparr>s_Ay = Month m, s_Uretim = uretim, s_Dengesizlik = group_sum df Dengesizlik m,
          s_GOP_Geliri = group_sum df GOP_Geliri m,
          s_Dengesizlik_Tutari = group_sum df Dengesizlik_Tutari m,
          s_Toplam_Gelir = net, s_Birim_Gelir = unit_metric net uretim,
          s_Dengesizlik_Maliyeti = maliyet, s_Birim_Deng_Mal = unit_metric maliyet uretim\<rparr>)"

definition total_row :: "summary_row list \<Rightarrow> summary_row" where
  "total_row out =
     (let uretim = sum_list (map s_Uretim out);
          net = sum_list (map s_Toplam_Gelir out);
          maliyet = sum_list (map s_Dengesizlik_Maliyeti out)
      in \<lparr>s_Ay = Toplam, s_Uretim = uretim, s_Dengesizlik = sum_list (map s_Dengesizlik out),
          s_GOP_Geliri = sum_list (map s_GOP_Geliri out),
          s_Dengesizlik_Tutari = sum_list (map s_Dengesizlik_Tutari out),
          s_Toplam_Gelir = net, s_Birim_Gelir = (if uretim = 0 then 0 else net / uretim),
          s_Dengesizlik_Maliyeti = maliyet,
          s_Birim_Deng_Mal = (if uretim = 0 then 0 else maliyet / uretim)\<rparr>)"

definition build_monthly_summary :: "hourly_row list \<Rightarrow> summary_row list" where
  "build_monthly_summary df =
     (let out = map (summary_month df) [1..<13] in out @ [total_row out])"

subsection \<open>Extended monthly KPIs (\<^verbatim>\<open>compute_monthly_extras\<close>)\<close>

text \<open>
  The frame has the columns \<^verbatim>\<open>Ay, KGUP, Dengesizlik, URETIM, Dengesizlik_Maliyeti,
  Net_Gelir, Tarih\<close>, as every frame of \<^verbatim>\<open>build_plant_dataframe\<close> has; the branches for
  a frame without \<^verbatim>\<open>Net_Gelir\<close> are not modelled.
\<close>

definition days_2024 :: "nat list" where
  "days_2024 = [31, 29, 31, 30, 31, 30, 31, 31, 30, 31, 30, 31]"

text \<open>Selections of a column under a mask on \<^verbatim>\<open>Dengesizlik\<close>.\<close>

definition pos_rows :: "hourly_row list \<Rightarrow> hourly_row list" where
  "pos_rows rs = filter (\<lambda>r. nan_gt (Dengesizlik r) 0) rs"

definition neg_rows :: "hourly_row list \<Rightarrow> hourly_row list" where
  "neg_rows rs = filter (\<lambda>r. nan_lt (Dengesizlik r) 0) rs"

definition count_producing :: "hourly_row list \<Rightarrow> nat" where
  "count_producing rs = length (filter (\<lambda>r. nan_gt (URETIM r) 0) rs)"

text \<open>
  \<^verbatim>\<open>groupby("Tarih")[col].sum().sort_values(ascending=False)\<close>: one sum per day that
  occurs, rows without day left out, largest first.
\<close>

definition daily_sums :: "hourly_row list \<Rightarrow> (hourly_row \<Rightarrow> num) \<Rightarrow> real list" where
  "daily_sums rs col =
     map (\<lambda>d. nansum (map col (filter (\<lambda>r. Tarih r = Some d) rs)))
       (remdups (concat (map (\<lambda>r. case Tarih r of None \<Rightarrow> [] | Some d \<Rightarrow> [d]) rs)))"

definition sort_desc :: "real list \<Rightarrow> real list" where
  "sort_desc xs = rev (sort xs)"

record month_kpis =
  k_accuracy :: real
  k_asym :: "real option"
  k_capacity_factor :: real
  k_top5_dm :: real
  k_top5_dm_share :: real
  k_revenue_share :: real
  k_pos_share :: real
  k_neg_share :: real
  k_prod_hours :: nat
  k_prod_hours_share :: real
  k_prod_share :: real

text \<open>One round of the loop over the months, with the yearly totals computed before it.\<close>

definition month_extras :: "hourly_row list \<Rightarrow> nat \<Rightarrow> month_kpis" where
  "month_extras df2 m =
     (let total_revenue = nansum (map Net_Gelir df2);
          total_production = nansum (map URETIM df2);
          total_prod_hours = count_producing df2;
          total_pos_vol = nansum (map Dengesizlik (pos_rows df2));
          total_neg_vol = nansum (map (\<lambda>r. nan_abs (Dengesizlik r)) (neg_rows df2));
          monthly = month_rows df2 m;
          sum_kgup = nansum (map KGUP monthly);
          sum_abs_imb = nansum (map (\<lambda>r. nan_abs (Dengesizlik r)) monthly);
          acc = (if sum_kgup > 0 then (1 - sum_abs_imb / sum_kgup) * 100 else 0);
          pos_dm = nansum (map Dengesizlik_Maliyeti (pos_rows monthly));
          neg_dm = nansum (map Dengesizlik_Maliyeti (neg_rows monthly));
          asym = (if neg_dm = 0 then None else Some (pos_dm / neg_dm));
          max_kgup = (if monthly = [] then Some 0 else nanmax (map KGUP monthly));
          potential = nan_mul (nan_mul max_kgup (Some 24)) (Some (real (days_2024 ! (m - 1))));
          month_prod = nansum (map URETIM monthly);
          cap_fac = (case potential of
                       None \<Rightarrow> 0
                     | Some p \<Rightarrow> if p > 0 then (month_prod / p) * 100 else 0);
          top5 = (if monthly = [] then 0 else sum_list (take 5 (sort_desc (daily_sums monthly Dengesizlik_Maliyeti))));
          month_dm_total = nansum (map Dengesizlik_Maliyeti monthly);
          top5_share = (if monthly = [] then 0
                        else if month_dm_total > 0 then (top5 / month_dm_total) * 100 else 0);
          month_rev = nansum (map Net_Gelir monthly);
          pos_vol_m = nansum (map Dengesizlik (pos_rows monthly));
          neg_vol_m = nansum (map (\<lambda>r. nan_abs (Dengesizlik r)) (neg_rows monthly));
          prod_h_m = count_producing monthly
      in \<lparr>k_accuracy = acc, k_asym = asym, k_capacity_factor = cap_fac,
          k_top5_dm = top5, k_top5_dm_share = top5_share,
          k_revenue_share = (if total_revenue > 0 then (month_rev / total_revenue) * 100 else 0),
          k_pos_share = (if total_pos_vol > 0 then (pos_vol_m / total_pos_vol) * 100 else 0),
          k_neg_share = (if total_neg_vol > 0 then (neg_vol_m / total_neg_vol) * 100 else 0),
          k_prod_hours = prod_h_m,
          k_prod_hours_share = (if total_prod_hours > 0 then (real prod_h_m / real total_prod_hours) * 100 else 0),
          k_prod_share = (if total_production > 0 then (month_prod / total_production) * 100 else 0)\<rparr>)"

record monthly_extras =
  accuracy_pct :: "real list"
  asym_ratio :: "real option list"
  capacity_factor_pct :: "real list"
  top5_dm_tl :: "real list"
  top5_dm_share_pct :: "real list"
  revenue_share_pct :: "real list"
  pos_share_pct :: "real list"
  neg_share_pct :: "real list"
  prod_hours :: "nat list"
  prod_hours_share_pct :: "real list"
  prod_share_pct :: "real list"

definition compute_monthly_extras :: "hourly_row list \<Rightarrow> monthly_extras" where
  "compute_monthly_extras df =
     (let months = [1..<13]; ks = map (month_extras df) months
      in \<lparr>accuracy_pct = map k_accuracy ks, asym_ratio = map k_asym ks,
          capacity_factor_pct = map k_capacity_factor ks, top5_dm_tl = map k_top5_dm ks,
          top5_dm_share_pct = map k_top5_dm_share ks, revenue_share_pct = map k_revenue_share ks,
          pos_share_pct = map k_pos_share ks, neg_share_pct = map k_neg_share ks,
          prod_hours = map k_prod_hours ks, prod_hours_share_pct = map k_prod_hours_share ks,
          prod_share_pct = map k_prod_share ks\<rparr>)"

subsection \<open>The workbook (\<^verbatim>\<open>rename_to_turkish\<close>, the detail sheets and the comparison sheet)\<close>

text \<open>
  The fifteen columns of a detail sheet, in the order \<^verbatim>\<open>rename_to_turkish\<close> gives them.
  Header texts are written here in ASCII (\<^verbatim>\<open>Gerceklesen Uretim\<close> for the Turkish
  spelling); formulas never read them.
\<close>

datatype detail_col =
  C_Tarih | C_Ay | C_Saat | C_PTF | C_SMF | C_Poz_DF | C_Neg_DF | C_KGUP | C_Uretim
  | C_Dengesizlik | C_GOP_Geliri | C_Dengesizlik_Tutari | C_Net_Gelir
  | C_Dengesizlik_Maliyeti | C_Birim_DM

definition detail_headers :: "detail_col list" where
  "detail_headers = [C_Tarih, C_Ay, C_Saat, C_PTF, C_SMF, C_Poz_DF, C_Neg_DF, C_KGUP, C_Uretim,
     C_Dengesizlik, C_GOP_Geliri, C_Dengesizlik_Tutari, C_Net_Gelir, C_Dengesizlik_Maliyeti,
     C_Birim_DM]"

fun header_text :: "detail_col \<Rightarrow> string" where
  "header_text C_Tarih = ''Tarih''"
| "header_text C_Ay = ''Ay''"
| "header_text C_Saat = ''Saat''"
| "header_text C_PTF = ''PTF''"
| "header_text C_SMF = ''SMF''"
| "header_text C_Poz_DF = ''Pozitif Dengesizlik Fiyati''"
| "header_text C_Neg_DF = ''Negatif Dengesizlik Fiyati''"
| "header_text C_KGUP = ''Gun Oncesi Uretim Tahmini (KGUP)''"
| "header_text C_Uretim = ''Gerceklesen Uretim''"
| "header_text C_Dengesizlik = ''Dengesizlik Miktari''"
| "header_text C_GOP_Geliri = ''GOP Geliri''"
| "header_text C_Dengesizlik_Tutari = ''Dengesizlik Tutari''"
| "header_text C_Net_Gelir = ''Toplam (Net) Gelir''"
| "header_text C_Dengesizlik_Maliyeti = ''Dengesizlik Maliyeti''"
| "header_text C_Birim_DM = ''Birim Dengesizlik Maliyeti''"

text \<open>\<^verbatim>\<open>headers.index(name)\<close>: the position of the first occurrence.\<close>

fun index_of :: "'a \<Rightarrow> 'a list \<Rightarrow> nat" where
  "index_of x [] = 0"
| "index_of x (y # ys) = (if x = y then 0 else Suc (index_of x ys))"

text \<open>
  What a cell holds: a formula, a number, a text, or nothing. A formula is kept as its
  syntax tree; \<open>render\<close> below gives the text that is written. A reference is column
  letters with a row number counted from 1, as in \<^verbatim>\<open>B4\<close>.
\<close>

datatype sheet_name = Santral_1 | Santral_2 | Karsilastirma

fun sheet_text :: "sheet_name \<Rightarrow> string" where
  "sheet_text Santral_1 = ''Santral_1''"
| "sheet_text Santral_2 = ''Santral_2''"
| "sheet_text Karsilastirma = ''Karsilastirma''"

datatype cell_ref = Ref string nat

datatype formula =
    F_SUMIF sheet_name string nat nat cell_ref string
  | F_IF cell_ref cell_ref cell_ref
  | F_SUM string nat nat

datatype cell = Formula formula | Number real | Text string | Blank

fun render_ref :: "cell_ref \<Rightarrow> string" where
  "render_ref (Ref letters row) = letters @ dec row"

text \<open>
  The three kinds of formula text:
  \<^verbatim>\<open>=SUMIF('S'!$M$2:$M$n,ref,'S'!$C$2:$C$n)\<close>, \<^verbatim>\<open>=IF(b=0,0,x/d)\<close> and
  \<^verbatim>\<open>=SUM(Cr:Cs)\<close>.
\<close>

fun render :: "formula \<Rightarrow> string" where
  "render (F_SUMIF sheet col_month first_row last_row month_cell_ref col) =
     ''=SUMIF('' @ [CHR 0x27] @ sheet_text sheet @ [CHR 0x27] @ ''!$'' @ col_month @ ''$'' @ dec first_row
       @ '':$'' @ col_month @ ''$'' @ dec last_row @ '','' @ render_ref month_cell_ref @ '',''
       @ [CHR 0x27] @ sheet_text sheet @ [CHR 0x27] @ ''!$'' @ col @ ''$'' @ dec first_row
       @ '':$'' @ col @ ''$'' @ dec last_row @ '')''"
| "render (F_IF b x d) =
     ''=IF('' @ render_ref b @ ''=0,0,'' @ render_ref x @ ''/'' @ render_ref d @ '')''"
| "render (F_SUM col first_row last_row) =
     ''=SUM('' @ col @ dec first_row @ '':'' @ col @ dec last_row @ '')''"

text \<open>A sheet gives the cell at a row and a column, both counted from 0; a workbook gives the sheets.\<close>

type_synonym sheet = "nat \<times> nat \<Rightarrow> cell"

type_synonym workbook = "sheet_name \<Rightarrow> sheet"

text \<open>
  \<^verbatim>\<open>DataFrame.to_excel(index=False)\<close>: the headers in row 0, the rows of the frame below
  them, a missing value as an empty cell.
\<close>

definition num_cell :: "num \<Rightarrow> cell" where
  "num_cell v = (case v of None \<Rightarrow> Blank | Some x \<Rightarrow> Number x)"

fun detail_value :: "hourly_row \<Rightarrow> detail_col \<Rightarrow> cell" where
  "detail_value r C_Tarih = (case Tarih r of None \<Rightarrow> Blank | Some s \<Rightarrow> Text s)"
| "detail_value r C_Ay = (case Ay r of None \<Rightarrow> Blank | Some m \<Rightarrow> Number (real m))"
| "detail_value r C_Saat = Text (Saat r)"
| "detail_value r C_PTF = num_cell (PTF r)"
| "detail_value r C_SMF = num_cell (SMF r)"
| "detail_value r C_Poz_DF = num_cell (Poz_DF r)"
| "detail_value r C_Neg_DF = num_cell (Neg_DF r)"
| "detail_value r C_KGUP = num_cell (KGUP r)"
| "detail_value r C_Uretim = num_cell (URETIM r)"
| "detail_value r C_Dengesizlik = num_cell (Dengesizlik r)"
| "detail_value r C_GOP_Geliri = num_cell (GOP_Geliri r)"
| "detail_value r C_Dengesizlik_Tutari = num_cell (Dengesizlik_Tutari r)"
| "detail_value r C_Net_Gelir = num_cell (Net_Gelir r)"
| "detail_value r C_Dengesizlik_Maliyeti = num_cell (Dengesizlik_Maliyeti r)"
| "detail_value r C_Birim_DM = num_cell (Birim_DM r)"

definition detail_sheet :: "hourly_row list \<Rightarrow> sheet" where
  "detail_sheet df = (\<lambda>(row, col).
     if col < length detail_headers then
       (if row = 0 then Text (header_text (detail_headers ! col))
        else if row \<le> length df then detail_value (df ! (row - 1)) (detail_headers ! col)
        else Blank)
     else Blank)"

text \<open>The letters of the first fifteen columns, the value \<open>col_map\<close> computes below.\<close>

definition detail_letters :: "string list" where
  "detail_letters = map (\<lambda>c. [c]) ''ABCDEFGHIJKLMNO''"

text \<open>
  The comparison sheet. \<open>col_map\<close> holds the letters of the detail columns, computed once
  with \<^verbatim>\<open>_col_letter\<close>; \<open>sumif\<close> is the helper of that name.
\<close>

definition col_map :: "(detail_col \<Rightarrow> string) option" where
  "col_map =
     (case those (map (\<lambda>name. col_letter (int (index_of name detail_headers))) detail_headers) of
        None \<Rightarrow> None
      | Some letters \<Rightarrow> Some (\<lambda>name. letters ! index_of name detail_headers))"

definition sumif :: "(detail_col \<Rightarrow> string) \<Rightarrow> nat \<Rightarrow> nat \<Rightarrow> sheet_name \<Rightarrow> detail_col \<Rightarrow> cell_ref \<Rightarrow> formula" where
  "sumif cm last_row1 last_row2 sheet col_name month_cell_ref =
     (let col = cm col_name; col_month = cm C_Ay;
          last_row = (if sheet = Santral_1 then last_row1 else last_row2)
      in F_SUMIF sheet col_month 2 last_row month_cell_ref col)"

definition base_headers :: "string list" where
  "base_headers = [''Ay'', ''Gerceklesen Uretim  (MWh)'', ''Dengesizlik Miktari  (MWh)'',
     ''GOP Geliri (TL)'', ''Dengesizlik Tutari (TL)'', ''Toplam Gelir (TL)'',
     ''Birim Gelir (TL/MWh)'', ''Dengesizlik Maliyeti (TL)'', ''Birim Deng Mal. (TL/MWh)'']"

definition extra_headers :: "string list" where
  "extra_headers = [''Tahmin Dogrulugu (%)'', ''Maliyet Asimetrisi (Poz/Neg)'',
     ''Kapasite Faktoru (%)'', ''En Maliyetli 5 Gun (TL)'', ''Top 5 Gun DM Payi (%)'',
     ''Gelir Payi (%)'', ''Yillik Pozitif Deng. Payi (%)'', ''Yillik Negatif Deng. Payi (%)'',
     ''Uretim Saati (saat)'', ''Uretim Saat Payi (%)'', ''Uretim Payi (%)'']"

text \<open>
  One month row of a block: the month number, the eight formulas, the eleven values of
  \<^verbatim>\<open>compute_monthly_extras\<close>. \<open>row\<close> is the row counted from 0, \<open>i\<close> the month
  counted from 0.
\<close>

definition month_row_cell ::
  "(detail_col \<Rightarrow> string) \<Rightarrow> nat \<Rightarrow> nat \<Rightarrow> sheet_name \<Rightarrow> monthly_extras \<Rightarrow> nat \<Rightarrow> nat \<Rightarrow> nat \<Rightarrow> cell" where
  "month_row_cell cm last_row1 last_row2 sheet extras row i col =
     (let mref = Ref ''A'' (row + 1); month_num = i + 1; base_idx = length base_headers in
      if col = 0 then Number (real month_num)
      else if col = 1 then Formula (sumif cm last_row1 last_row2 sheet C_Uretim mref)
      else if col = 2 then Formula (sumif cm last_row1 last_row2 sheet C_Dengesizlik mref)
      else if col = 3 then Formula (sumif cm last_row1 last_row2 sheet C_GOP_Geliri mref)
      else if col = 4 then Formula (sumif cm last_row1 last_row2 sheet C_Dengesizlik_Tutari mref)
      else if col = 5 then Formula (sumif cm last_row1 last_row2 sheet C_Net_Gelir mref)
      else if col = 6 then Formula (F_IF (Ref ''B'' (row + 1)) (Ref ''F'' (row + 1)) (Ref ''B'' (row + 1)))
      else if col = 7 then Formula (sumif cm last_row1 last_row2 sheet C_Dengesizlik_Maliyeti mref)
      else if col = 8 then Formula (F_IF (Ref ''B'' (row + 1)) (Ref ''H'' (row + 1)) (Ref ''B'' (row + 1)))
      else if col = base_idx + 0 then Number (accuracy_pct extras ! i)
      else if col = base_idx + 1 then (case asym_ratio extras ! i of None \<Rightarrow> Text [] | Some a \<Rightarrow> Number a)
      else if col = base_idx + 2 then Number (capacity_factor_pct extras ! i)
      else if col = base_idx + 3 then Number (top5_dm_tl extras ! i)
      else if col = base_idx + 4 then Number (top5_dm_share_pct extras ! i)
      else if col = base_idx + 5 then Number (revenue_share_pct extras ! i)
      else if col = base_idx + 6 then Number (pos_share_pct extras ! i)
      else if col = base_idx + 7 then Number (neg_share_pct extras ! i)
      else if col = base_idx + 8 then Number (real (prod_hours extras ! i))
      else if col = base_idx + 9 then Number (prod_hours_share_pct extras ! i)
      else if col = base_idx + 10 then Number (prod_share_pct extras ! i)
      else Blank)"

text \<open>
  The totals row of a block whose month rows are the rows \<open>first_r\<close> to \<open>last_r\<close> (counted
  from 1, as the formulas count them); \<open>tot_row\<close> is the totals row counted from 0.
\<close>

definition totals_row_cell :: "string \<Rightarrow> string \<Rightarrow> nat \<Rightarrow> nat \<Rightarrow> nat \<Rightarrow> nat \<Rightarrow> cell" where
  "totals_row_cell top5_col_letter prod_hours_col_letter tot_row first_r last_r col =
     (if col = 0 then Text ''Toplam''
      else if col = 1 then Formula (F_SUM ''B'' first_r last_r)
      else if col = 2 then Formula (F_SUM ''C'' first_r last_r)
      else if col = 3 then Formula (F_SUM ''D'' first_r last_r)
      else if col = 4 then Formula (F_SUM ''E'' first_r last_r)
      else if col = 5 then Formula (F_SUM ''F'' first_r last_r)
      else if col = 6 then Formula (F_IF (Ref ''B'' (tot_row + 1)) (Ref ''F'' (tot_row + 1)) (Ref ''B'' (tot_row + 1)))
      else if col = 7 then Formula (F_SUM ''H'' first_r last_r)
      else if col = 8 then Formula (F_IF (Ref ''B'' (tot_row + 1)) (Ref ''H'' (tot_row + 1)) (Ref ''B'' (tot_row + 1)))
      else if col = length base_headers + 3 then Formula (F_SUM top5_col_letter first_r last_r)
      else if col = length base_headers + 8 then Formula (F_SUM prod_hours_col_letter first_r last_r)
      else Blank)"

definition header_cell :: "nat \<Rightarrow> cell" where
  "header_cell col = (if col < length (base_headers @ extra_headers)
     then Text ((base_headers @ extra_headers) ! col) else Blank)"

definition comparison_sheet ::
  "(detail_col \<Rightarrow> string) \<Rightarrow> string \<Rightarrow> string \<Rightarrow> nat \<Rightarrow> nat \<Rightarrow> monthly_extras \<Rightarrow> monthly_extras \<Rightarrow> sheet" where
  "comparison_sheet cm top5_col_letter prod_hours_col_letter last_row1 last_row2 pp1_extras pp2_extras =
     (\<lambda>(row, col).
        let total_row_1 = 3 + 12; start2 = total_row_1 + 3; total_row_2 = start2 + 3 + 12 in
        if row = 0 then (if col = 0 then Text ''Santral 1'' else Blank)
        else if row = 2 then header_cell col
        else if 3 \<le> row \<and> row < 3 + 12
          then month_row_cell cm last_row1 last_row2 Santral_1 pp1_extras row (row - 3) col
        else if row = total_row_1
          then totals_row_cell top5_col_letter prod_hours_col_letter total_row_1 4 15 col
        else if row = start2 then (if col = 0 then Text ''Santral 2'' else Blank)
        else if row = start2 + 2 then header_cell col
        else if start2 + 3 \<le> row \<and> row < start2 + 3 + 12
          then month_row_cell cm last_row1 last_row2 Santral_2 pp2_extras row (row - (start2 + 3)) col
        else if row = total_row_2
          then totals_row_cell top5_col_letter prod_hours_col_letter total_row_2 (start2 + 4) (start2 + 15) col
        else Blank)"

text \<open>
  The report of two plant tables. An empty table stops the run before anything is
  written; \<open>None\<close> is also the value if a column letter were not computed.
\<close>

definition build_report :: "hourly_row list \<Rightarrow> hourly_row list \<Rightarrow> workbook option" where
  "build_report pp1_df pp2_df =
     (if pp1_df = [] \<or> pp2_df = [] then None
      else
        (let pp1_extras = compute_monthly_extras pp1_df;
             pp2_extras = compute_monthly_extras pp2_df;
             last_row1 = length pp1_df + 1;
             last_row2 = length pp2_df + 1
         in case col_map of
              None \<Rightarrow> None
            | Some cm \<Rightarrow>
                (case col_letter (int (length base_headers + 3)) of
                   None \<Rightarrow> None
                 | Some top5_col_letter \<Rightarrow>
                     (case col_letter (int (length base_headers + 8)) of
                        None \<Rightarrow> None
                      | Some prod_hours_col_letter \<Rightarrow>
                          Some (\<lambda>name. case name of
                                  Santral_1 \<Rightarrow> detail_sheet pp1_df
                                | Santral_2 \<Rightarrow> detail_sheet pp2_df
                                | Karsilastirma \<Rightarrow>
                                    comparison_sheet cm top5_col_letter prod_hours_col_letter
                                      last_row1 last_row2 pp1_extras pp2_extras)))))"

subsection \<open>Recalculating a workbook\<close>

text \<open>
  What a spreadsheet program computes for the three formulas in use. A value is a number,
  a text, nothing, or an error. A reference \<^verbatim>\<open>B4\<close> is row 3, column 1: the letters are
  read in bijective base 26. \<^verbatim>\<open>SUMIF\<close> with a number as criterion adds the numbers of
  the sum range in the rows where the criteria range holds that number; \<^verbatim>\<open>SUM\<close> adds
  the numbers of its range; both pass texts and empty cells by and give an error when a
  cell they add is one. \<^verbatim>\<open>IF(b=0,0,x/d)\<close> is 0 when \<open>b\<close> is 0 or empty. The first
  argument bounds how deep references to formula cells are followed; a formula below that
  depth is an error.
\<close>

datatype xl_value = XNum real | XText string | XBlank | XError

definition ref_pos :: "cell_ref \<Rightarrow> nat \<times> nat" where
  "ref_pos r = (case r of Ref letters row \<Rightarrow> (row - 1, nat (column_number letters - 1)))"

definition range_cells :: "string \<Rightarrow> nat \<Rightarrow> nat \<Rightarrow> (nat \<times> nat) list" where
  "range_cells letters first_r last_r =
     map (\<lambda>row. (row - 1, nat (column_number letters - 1))) [first_r..<Suc last_r]"

definition sum_values :: "xl_value list \<Rightarrow> xl_value" where
  "sum_values vs =
     (if XError \<in> set vs then XError
      else XNum (sum_list (map (\<lambda>v. case v of XNum x \<Rightarrow> x | _ \<Rightarrow> 0) vs)))"

definition sumif_value :: "xl_value \<Rightarrow> xl_value list \<Rightarrow> xl_value list \<Rightarrow> xl_value" where
  "sumif_value criterion keys vs =
     (case criterion of
        XNum c \<Rightarrow> sum_values (map snd (filter (\<lambda>kv. fst kv = XNum c) (zip keys vs)))
      | _ \<Rightarrow> XError)"

definition if_zero_value :: "xl_value \<Rightarrow> xl_value \<Rightarrow> xl_value \<Rightarrow> xl_value" where
  "if_zero_value b x d =
     (case b of
        XNum bv \<Rightarrow>
          (if bv = 0 then XNum 0
           else (case x of
                   XNum xv \<Rightarrow> (case d of XNum dv \<Rightarrow> if dv = 0 then XError else XNum (xv / dv) | _ \<Rightarrow> XError)
                 | _ \<Rightarrow> XError))
      | XBlank \<Rightarrow> XNum 0
      | _ \<Rightarrow> XError)"

fun recalc :: "nat \<Rightarrow> workbook \<Rightarrow> sheet_name \<Rightarrow> nat \<times> nat \<Rightarrow> xl_value" where
  "recalc depth wb sh pos =
     (case wb sh pos of
        Number x \<Rightarrow> XNum x
      | Text s \<Rightarrow> XText s
      | Blank \<Rightarrow> XBlank
      | Formula f \<Rightarrow>
          (case depth of
             0 \<Rightarrow> XError
           | Suc n \<Rightarrow>
               (case f of
                  F_SUMIF sheet col_month first_r last_r cref col \<Rightarrow>
                    sumif_value (recalc n wb sh (ref_pos cref))
                      (map (recalc n wb sheet) (range_cells col_month first_r last_r))
                      (map (recalc n wb sheet) (range_cells col first_r last_r))
                | F_IF b x d \<Rightarrow>
                    if_zero_value (recalc n wb sh (ref_pos b)) (recalc n wb sh (ref_pos x))
                      (recalc n wb sh (ref_pos d))
                | F_SUM col first_r last_r \<Rightarrow>
                    sum_values (map (recalc n wb sh) (range_cells col first_r last_r)))))"

text \<open>The nine values of a row of the monthly summary, as a spreadsheet would show them.\<close>

definition summary_values :: "summary_row \<Rightarrow> xl_value list" where
  "summary_values r =
     [case s_Ay r of Month m \<Rightarrow> XNum (real m) | Toplam \<Rightarrow> XText ''Toplam'',
      XNum (s_Uretim r), XNum (s_Dengesizlik r), XNum (s_GOP_Geliri r),
      XNum (s_Dengesizlik_Tutari r), XNum (s_Toplam_Gelir r), XNum (s_Birim_Gelir r),
      XNum (s_Dengesizlik_Maliyeti r), XNum (s_Birim_Deng_Mal r)]"

definition static_value :: "cell \<Rightarrow> xl_value" where
  "static_value c = (case c of Number x \<Rightarrow> XNum x | Text s \<Rightarrow> XText s | Blank \<Rightarrow> XBlank
     | Formula f \<Rightarrow> XError)"

text \<open>
  What the first nine columns of a block are expected to hold. A month row in row \<open>row\<close>
  (counted from 0) for the month \<open>i + 1\<close>: the month number, then five conditional sums
  over the detail sheet \<open>S\<close> with the data rows 2 to \<open>last_row\<close> (production, imbalance,
  day-ahead revenue, imbalance amount, net revenue, in the columns \<^verbatim>\<open>I\<close> to \<^verbatim>\<open>M\<close>, keyed
  by the month column \<^verbatim>\<open>B\<close> and the month cell \<^verbatim>\<open>A\<close> of the row), the guarded ratio
  \<^verbatim>\<open>F/B\<close>, the conditional sum of the imbalance cost (column \<^verbatim>\<open>N\<close>) and the guarded
  ratio \<^verbatim>\<open>H/B\<close>. A totals row: the label, sums over the month rows above, and the
  two guarded ratios of the totals row's own cells.
\<close>

definition month_formulas :: "sheet_name \<Rightarrow> nat \<Rightarrow> nat \<Rightarrow> nat \<Rightarrow> cell list" where
  "month_formulas S last_row row i =
     [Number (real (i + 1)),
      Formula (F_SUMIF S ''B'' 2 last_row (Ref ''A'' (row + 1)) ''I''),
      Formula (F_SUMIF S ''B'' 2 last_row (Ref ''A'' (row + 1)) ''J''),
      Formula (F_SUMIF S ''B'' 2 last_row (Ref ''A'' (row + 1)) ''K''),
      Formula (F_SUMIF S ''B'' 2 last_row (Ref ''A'' (row + 1)) ''L''),
      Formula (F_SUMIF S ''B'' 2 last_row (Ref ''A'' (row + 1)) ''M''),
      Formula (F_IF (Ref ''B'' (row + 1)) (Ref ''F'' (row + 1)) (Ref ''B'' (row + 1))),
      Formula (F_SUMIF S ''B'' 2 last_row (Ref ''A'' (row + 1)) ''N''),
      Formula (F_IF (Ref ''B'' (row + 1)) (Ref ''H'' (row + 1)) (Ref ''B'' (row + 1)))]"

definition totals_formulas :: "nat \<Rightarrow> nat \<Rightarrow> nat \<Rightarrow> cell list" where
  "totals_formulas row first_r last_r =
     [Text ''Toplam'',
      Formula (F_SUM ''B'' first_r last_r), Formula (F_SUM ''C'' first_r last_r),
      Formula (F_SUM ''D'' first_r last_r), Formula (F_SUM ''E'' first_r last_r),
      Formula (F_SUM ''F'' first_r last_r),
      Formula (F_IF (Ref ''B'' (row + 1)) (Ref ''F'' (row + 1)) (Ref ''B'' (row + 1))),
      Formula (F_SUM ''H'' first_r last_r),
      Formula (F_IF (Ref ''B'' (row + 1)) (Ref ''H'' (row + 1)) (Ref ''B'' (row + 1)))]"

subsection \<open>Example tables\<close>

text \<open>Two hours: 10 MWh earning 100 in January 2024, 30 MWh earning 600 in February 2024.\<close>

definition two_hours :: "hourly_row list" where
  "two_hours =
     [\<lparr>Tarih = Some ''2024-01-01'', Ay = Some 1, Saat = ''00:00'', PTF = None, SMF = None,
       Poz_DF = None, Neg_DF = None, KGUP = Some 10, URETIM = Some 10, Dengesizlik = Some 0,
       GOP_Geliri = Some 100, Dengesizlik_Tutari = Some 0, Net_Gelir = Some 100,
       Dengesizlik_Maliyeti = Some 0, Birim_DM = Some 0\<rparr>,
      \<lparr>Tarih = Some ''2024-02-01'', Ay = Some 2, Saat = ''00:00'', PTF = None, SMF = None,
       Poz_DF = None, Neg_DF = None, KGUP = Some 30, URETIM = Some 30, Dengesizlik = Some 0,
       GOP_Geliri = Some 600, Dengesizlik_Tutari = Some 0, Net_Gelir = Some 600,
       Dengesizlik_Maliyeti = Some 0, Birim_DM = Some 0\<rparr>]"

text \<open>One hour of February 2023, a year without 29 February: 1 MWh planned, 1 MWh produced.\<close>

definition feb_2023 :: "hourly_row list" where
  "feb_2023 =
     [\<lparr>Tarih = Some ''2023-02-01'', Ay = Some 2, Saat = ''00:00'', PTF = Some 500, SMF = Some 520,
       Poz_DF = Some 485, Neg_DF = Some 535.6, KGUP = Some 1, URETIM = Some 1, Dengesizlik = Some 0,
       GOP_Geliri = Some 500, Dengesizlik_Tutari = Some 0, Net_Gelir = Some 500,
       Dengesizlik_Maliyeti = Some 0, Birim_DM = Some 0\<rparr>]"

text \<open>
  Three hours of March 2024: over-generation costing 30, under-generation costing 60, and
  an hour on plan.
\<close>

definition march_hours :: "hourly_row list" where
  "march_hours =
     [\<lparr>Tarih = Some ''2024-03-01'', Ay = Some 3, Saat = ''00:00'', PTF = None, SMF = None,
       Poz_DF = None, Neg_DF = None, KGUP = Some 10, URETIM = Some 12, Dengesizlik = Some 2,
       GOP_Geliri = None, Dengesizlik_Tutari = None, Net_Gelir = Some 5000,
       Dengesizlik_Maliyeti = Some 30, Birim_DM = None\<rparr>,
      \<lparr>Tarih = Some ''2024-03-01'', Ay = Some 3, Saat = ''01:00'', PTF = None, SMF = None,
       Poz_DF = None, Neg_DF = None, KGUP = Some 10, URETIM = Some 7, Dengesizlik = Some (- 3),
       GOP_Geliri = None, Dengesizlik_Tutari = None, Net_Gelir = Some 3000,
       Dengesizlik_Maliyeti = Some 60, Birim_DM = None\<rparr>,
      \<lparr>Tarih = Some ''2024-03-02'', Ay = Some 3, Saat = ''00:00'', PTF = None, SMF = None,
       Poz_DF = None, Neg_DF = None, KGUP = Some 10, URETIM = Some 10, Dengesizlik = Some 0,
       GOP_Geliri = None, Dengesizlik_Tutari = None, Net_Gelir = Some 4000,
       Dengesizlik_Maliyeti = Some 0, Birim_DM = None\<rparr>]"

text \<open>
  One hour of each stream. The plan and the realized item carry the date 30 February,
  which is no day of the calendar; the price items are for 1 January 2024, 00:00.
\<close>

definition bad_kgup_item :: raw_item where
  "bad_kgup_item = \<lparr>item_date = Some ''2024-02-30T10:00:00+03:00'', item_hour = Some ''10:00'', item_value = Some 100\<rparr>"

definition bad_uretim_item :: raw_item where
  "bad_uretim_item = \<lparr>item_date = Some ''2024-02-30T10:00:00+03:00'', item_hour = Some ''10:00'', item_value = Some 120\<rparr>"

definition ptf_item :: raw_item where
  "ptf_item = \<lparr>item_date = Some ''2024-01-01T00:00:00+03:00'', item_hour = Some ''00:00'', item_value = Some 500\<rparr>"

definition smf_item :: raw_item where
  "smf_item = \<lparr>item_date = Some ''2024-01-01T00:00:00+03:00'', item_hour = Some ''00:00'', item_value = Some 520\<rparr>"

text \<open>An item whose hour field reads 25:00, an hour that is not on the clock.\<close>

definition hour_25_item :: raw_item where
  "hour_25_item = \<lparr>item_date = Some ''2024-03-05'', item_hour = Some ''25:00'', item_value = Some 1\<rparr>"

text \<open>A plan and a realized item for 1 January 2024, 00:00, and a price item for the hour after.\<close>

definition kgup_item :: raw_item where
  "kgup_item = \<lparr>item_date = Some ''2024-01-01T00:00:00+03:00'', item_hour = Some ''00:00'', item_value = Some 100\<rparr>"

definition uretim_item :: raw_item where
  "uretim_item = \<lparr>item_date = Some ''2024-01-01T00:00:00+03:00'', item_hour = Some ''00:00'', item_value = Some 120\<rparr>"

definition ptf_item_next_hour :: raw_item where
  "ptf_item_next_hour = \<lparr>item_date = Some ''2024-01-01T01:00:00+03:00'', item_hour = Some ''01:00'', item_value = Some 510\<rparr>"

text \<open>Datetimes of the year 2024, and two of December 9999.\<close>

definition jan_1 :: datetime where
  "jan_1 = \<lparr>year = 2024, month = 1, day = 1, hour = 0, minute = 0, second = 0, microsecond = 0\<rparr>"

definition mar_31 :: datetime where
  "mar_31 = \<lparr>year = 2024, month = 3, day = 31, hour = 0, minute = 0, second = 0, microsecond = 0\<rparr>"

definition jan_31_18h :: datetime where
  "jan_31_18h = \<lparr>year = 2024, month = 1, day = 31, hour = 18, minute = 0, second = 0, microsecond = 0\<rparr>"

definition jan_31_12h :: datetime where
  "jan_31_12h = \<lparr>year = 2024, month = 1, day = 31, hour = 12, minute = 0, second = 0, microsecond = 0\<rparr>"

definition feb_15 :: datetime where
  "feb_15 = \<lparr>year = 2024, month = 2, day = 15, hour = 0, minute = 0, second = 0, microsecond = 0\<rparr>"

definition dec_1_9999 :: datetime where
  "dec_1_9999 = \<lparr>year = 9999, month = 12, day = 1, hour = 0, minute = 0, second = 0, microsecond = 0\<rparr>"

definition dec_15_9999 :: datetime where
  "dec_15_9999 = \<lparr>year = 9999, month = 12, day = 15, hour = 0, minute = 0, second = 0, microsecond = 0\<rparr>"

section \<open>Properties\<close>

subsection \<open>Unfolding the arithmetic on cells\<close>

lemmas nan_ops = nan_add_def nan_sub_def nan_mul_def nan_div_def clip_lower_def known_def
  nanmin_def nanmax_def to_numeric_def imbalance_amount_def unit_cost_def

subsection \<open>Sums that skip unknown values\<close>

lemma nansum_as_sum:
  "nansum (map col rs) = (\<Sum>r\<leftarrow>rs. case col r of None \<Rightarrow> 0 | Some c \<Rightarrow> c)"
  by (induction rs) (auto simp: nansum_def known_def split: option.split)

lemma group_sum_nansum: "group_sum df col m = nansum (map col (filter (\<lambda>r. Ay r = Some m) df))"
  by (cases "month_rows df m") (simp_all add: group_sum_def month_rows_def nansum_def known_def)

text \<open>Summing month by month over the months 1 to 12 is summing over the rows of those months.\<close>

lemma months_sum_year:
  "(\<Sum>m\<leftarrow>[1..<13]. \<Sum>r\<leftarrow>filter (\<lambda>r. Ay r = Some m) df. f r)
   = (\<Sum>r\<leftarrow>filter (\<lambda>r. Ay r \<in> Some ` {1..12}) df. (f r :: real))"
proof (induction df)
  case Nil
  show ?case by simp
next
  case (Cons r rs)
  have ind: "(\<Sum>m\<leftarrow>[1..<13]. if Ay r = Some m then f r else 0)
      = (if Ay r \<in> Some ` {1..12} then f r else 0)"
  proof (cases "Ay r")
    case None
    then show ?thesis by auto
  next
    case (Some k)
    have "(\<Sum>m\<leftarrow>[1..<13]. if k = m then f r else 0) = (\<Sum>m\<in>{1..<13}. if k = m then f r else 0)"
      by (simp add: interv_sum_list_conv_sum_set_nat)
    also have "\<dots> = (if k \<in> {1..<13} then f r else 0)"
      by (simp only: sum.delta' finite_atLeastLessThan)
    finally show ?thesis using Some by auto
  qed
  have "(\<Sum>m\<leftarrow>[1..<13]. \<Sum>x\<leftarrow>filter (\<lambda>x. Ay x = Some m) (r # rs). f x)
      = (\<Sum>m\<leftarrow>[1..<13]. (if Ay r = Some m then f r else 0)
           + (\<Sum>x\<leftarrow>filter (\<lambda>x. Ay x = Some m) rs. f x))"
    by (rule arg_cong [where f = sum_list]) simp
  also have "\<dots> = (\<Sum>m\<leftarrow>[1..<13]. if Ay r = Some m then f r else 0)
           + (\<Sum>m\<leftarrow>[1..<13]. \<Sum>x\<leftarrow>filter (\<lambda>x. Ay x = Some m) rs. f x)"
    by (rule sum_list_addf)
  finally show ?case
    unfolding ind Cons.IH by simp
qed

subsection \<open>Column letters\<close>

lemma column_number_snoc:
  "column_number (s @ [c]) = column_number s * 26 + (of_char c - 64)"
  by (simp add: column_number_def)

lemma column_number_nonneg: "list_all is_upper s \<Longrightarrow> 0 \<le> column_number s"
proof (induction s rule: rev_induct)
  case Nil
  then show ?case by (simp add: column_number_def)
next
  case (snoc c s)
  then have "0 \<le> column_number s" and "1 \<le> (of_char c :: int) - 64"
    by (auto simp: is_upper_def)
  then show ?case by (simp add: column_number_snoc)
qed

lemma column_number_pos: "s \<noteq> [] \<Longrightarrow> list_all is_upper s \<Longrightarrow> 0 < column_number s"
proof (induction s rule: rev_induct)
  case Nil
  then show ?case by simp
next
  case (snoc c s)
  from snoc.prems have "list_all is_upper s" by simp
  moreover from snoc.prems have "1 \<le> (of_char c :: int) - 64" by (simp add: is_upper_def)
  ultimately show ?case using column_number_nonneg [of s] by (simp add: column_number_snoc)
qed

lemma column_number_inj:
  "list_all is_upper s \<Longrightarrow> list_all is_upper t \<Longrightarrow> column_number s = column_number t \<Longrightarrow> s = t"
proof (induction s arbitrary: t rule: rev_induct)
  case Nil
  then show ?case
    using column_number_pos [of t] by (cases "t = []") (auto simp: column_number_def)
next
  case (snoc c s)
  show ?case
  proof (cases t rule: rev_cases)
    case Nil
    with snoc.prems column_number_pos [of "s @ [c]"] show ?thesis
      by (auto simp: column_number_def)
  next
    case (snoc t' d)
    from snoc.prems(1) have c: "1 \<le> (of_char c :: int) - 64" "(of_char c :: int) - 64 \<le> 26"
      by (auto simp: is_upper_def)
    from snoc.prems(2) snoc have d: "1 \<le> (of_char d :: int) - 64" "(of_char d :: int) - 64 \<le> 26"
      by (auto simp: is_upper_def)
    from snoc.prems(3) snoc
    have eq: "column_number s * 26 + (of_char c - 64) = column_number t' * 26 + (of_char d - 64)"
      by (simp add: column_number_snoc)
    with c d have "column_number s = column_number t'" and "(of_char c :: int) = of_char d"
      by presburger+
    moreover from snoc.prems snoc have "list_all is_upper s" "list_all is_upper t'" by auto
    ultimately show ?thesis using snoc.IH [of t'] snoc by simp
  qed
qed

lemma col_letter_loop_spec:
  "0 \<le> n \<Longrightarrow> \<exists>s. col_letter_loop n acc = Some (s @ acc) \<and> s \<noteq> [] \<and> list_all is_upper s
      \<and> column_number s = n + 1"
proof (induction "nat n" arbitrary: n acc rule: less_induct)
  case less
  let ?c = "char_of (65 + n mod 26) :: char"
  have r: "0 \<le> n mod 26" "n mod 26 < 26" by simp_all
  then have oc: "(of_char ?c :: int) = 65 + n mod 26" by simp
  then have up: "is_upper ?c" using r by (simp add: is_upper_def)
  show ?case
  proof (cases "n div 26 = 0")
    case True
    with less.prems have "n mod 26 = n" by presburger
    with True oc up show ?thesis
      by (subst col_letter_loop.simps) (auto simp: Let_def column_number_def intro!: exI [of _ "[?c]"])
  next
    case False
    have "n = 26 * (n div 26) + n mod 26" by simp
    with False less.prems r have q: "0 \<le> n div 26 - 1" "nat (n div 26 - 1) < nat n" by linarith+
    from less.hyps [OF q(2) q(1), of "?c # acc"]
    obtain s where s: "col_letter_loop (n div 26 - 1) (?c # acc) = Some (s @ ?c # acc)"
      "s \<noteq> []" "list_all is_upper s" "column_number s = n div 26 - 1 + 1" by blast
    have "col_letter_loop n acc = Some ((s @ [?c]) @ acc)"
      using False s(1) by (subst col_letter_loop.simps) (simp add: Let_def)
    moreover have "column_number (s @ [?c]) = n + 1"
      using s(4) oc by (simp add: column_number_snoc)
    ultimately show ?thesis using s(3) up by (intro exI [of _ "s @ [?c]"]) simp
  qed
qed

text \<open>
  Claim C9. On every index \<open>n \<ge> 0\<close> the loop of \<^verbatim>\<open>_col_letter\<close> returns, and what it
  returns is the name of column \<open>n + 1\<close> in bijective base 26: a non-empty word over
  \<^verbatim>\<open>A\<close>..\<^verbatim>\<open>Z\<close> whose column number is \<open>n + 1\<close>. Index 0 gives \<^verbatim>\<open>A\<close>, 25 gives \<^verbatim>\<open>Z\<close>,
  26 gives \<^verbatim>\<open>AA\<close>; different indices give different names, and every non-empty word
  over \<^verbatim>\<open>A\<close>..\<^verbatim>\<open>Z\<close> is the name of the index one below its column number.
\<close>

theorem col_letter_bijective_base26:
  assumes "0 \<le> m" and "0 \<le> n"
  shows "col_letter 0 = Some ''A'' \<and> col_letter 25 = Some ''Z'' \<and> col_letter 26 = Some ''AA''
    \<and> (\<exists>s. col_letter n = Some s \<and> s \<noteq> [] \<and> list_all is_upper s \<and> column_number s = n + 1)
    \<and> (col_letter m = col_letter n \<longrightarrow> m = n)
    \<and> (t \<noteq> [] \<and> list_all is_upper t \<longrightarrow> col_letter (column_number t - 1) = Some t)"
proof -
  have ex: "\<exists>s. col_letter k = Some s \<and> s \<noteq> [] \<and> list_all is_upper s \<and> column_number s = k + 1"
    if "0 \<le> k" for k
    using col_letter_loop_spec [OF that, of "[]"] by (simp add: col_letter_def)
  have inj: "m = n" if "col_letter m = col_letter n"
    using ex [OF assms(1)] ex [OF assms(2)] that by auto
  have surj: "col_letter (column_number t - 1) = Some t" if "t \<noteq> []" "list_all is_upper t"
  proof -
    from that have "0 \<le> column_number t - 1" using column_number_pos [of t] by simp
    from ex [OF this] obtain s where "col_letter (column_number t - 1) = Some s"
      "list_all is_upper s" "column_number s = column_number t" by auto
    with that(2) show ?thesis using column_number_inj [of s t] by simp
  qed
  have "col_letter 0 = Some ''A''" "col_letter 25 = Some ''Z''" "col_letter 26 = Some ''AA''"
    by (simp_all add: col_letter_def col_letter_loop.simps char_of_def)
  with ex [OF assms(2)] inj surj show ?thesis by blast
qed

text \<open>The theorem at the indices 3 and 27 and the names \<^verbatim>\<open>AB\<close> and \<^verbatim>\<open>AAA\<close>.\<close>

theorem col_letter_bijective_base26_witness:
  "col_letter 27 = Some ''AB'' \<and> col_letter 702 = Some ''AAA''
     \<and> col_letter 3 \<noteq> col_letter 27"
proof -
  have up: "''AAA'' \<noteq> [] \<and> list_all is_upper ''AAA''" "''AB'' \<noteq> [] \<and> list_all is_upper ''AB''"
    by (simp_all add: is_upper_def)
  have "col_letter (column_number ''AAA'' - 1) = Some ''AAA''"
    using col_letter_bijective_base26 [of 3 27 "''AAA''"] up by simp
  moreover have "col_letter (column_number ''AB'' - 1) = Some ''AB''"
    using col_letter_bijective_base26 [of 3 27 "''AB''"] up by simp
  moreover have "col_letter 3 \<noteq> col_letter 27"
    using col_letter_bijective_base26 [of 3 27 "''A''"] by auto
  ultimately show ?thesis by (simp add: column_number_def)
qed

subsection \<open>Splitting a date range by month\<close>

lemma dt_less_irrefl: "\<not> dt_less a a"
  by (simp add: dt_less_def dt_fields_def)

lemma valid_month_bounds:
  "valid_datetime d \<Longrightarrow> 1 \<le> year d \<and> year d \<le> 9999 \<and> 1 \<le> month d \<and> month d \<le> 12
     \<and> 1 \<le> day d \<and> day d \<le> days_in_month (year d) (month d)"
  by (simp add: valid_datetime_def valid_date_def)

lemma days_in_month_bounds: "28 \<le> days_in_month y m \<and> days_in_month y m \<le> 31"
  by (simp add: days_in_month_def)

lemma month_index_div_mod:
  assumes "valid_datetime d"
  shows "month_index d div 12 = year d" and "month_index d mod 12 + 1 = month d"
proof -
  from valid_month_bounds [OF assms] have m: "1 \<le> month d" "month d - 1 < 12" by auto
  have dm: "(y * 12 + x) div 12 = y" "(y * 12 + x) mod 12 = x" if "x < 12" for x y :: nat
    using that by simp_all
  show "month_index d div 12 = year d"
    unfolding month_index_def by (rule dm(1) [OF m(2)])
  have "month_index d mod 12 = month d - 1"
    unfolding month_index_def by (rule dm(2) [OF m(2)])
  with m(1) show "month_index d mod 12 + 1 = month d" by simp
qed

lemma month_index_bounds:
  assumes "valid_datetime d"
  shows "12 \<le> month_index d" and "month_index d \<le> 9999 * 12 + 11"
proof -
  from valid_month_bounds [OF assms]
  have "1 \<le> year d" "year d \<le> 9999" "month d - 1 \<le> 11" by auto
  then show "12 \<le> month_index d" "month_index d \<le> 9999 * 12 + 11"
    unfolding month_index_def by linarith+
qed

lemma month_index_first_last [simp]:
  "month_index (first_day k) = k" "month_index (last_day k) = k"
  by (simp_all add: month_index_def first_day_def last_day_def)

lemma midnight_first_last [simp]: "is_midnight (first_day k)" "is_midnight (last_day k)"
  by (simp_all add: is_midnight_def first_day_def last_day_def)

lemma valid_first_last:
  assumes "12 \<le> k" and "k \<le> 9999 * 12 + 11"
  shows "valid_datetime (first_day k)" and "valid_datetime (last_day k)"
proof -
  from assms have "1 \<le> k div 12" "k div 12 \<le> 9999" by simp_all
  then show "valid_datetime (first_day k)" "valid_datetime (last_day k)"
    using days_in_month_bounds [of "k div 12" "k mod 12 + 1"]
    by (simp_all add: valid_datetime_def valid_date_def first_day_def last_day_def)
qed

lemma day_ord_first_last:
  "day_ord (first_day k) = 32 * k + 1"
  "day_ord (last_day k) = 32 * k + days_in_month (k div 12) (k mod 12 + 1)"
  by (simp_all add: day_ord_def) (simp_all add: first_day_def last_day_def)

lemma day_ord_bounds:
  assumes "valid_datetime d"
  shows "32 * month_index d + 1 \<le> day_ord d"
    and "day_ord d \<le> 32 * month_index d + days_in_month (year d) (month d)"
    and "day_ord d \<le> 32 * month_index d + 31"
  using valid_month_bounds [OF assms] days_in_month_bounds [of "year d" "month d"]
  by (simp_all add: day_ord_def)

text \<open>Between midnights of the calendar, the order of datetimes is the order of \<open>day_ord\<close>.\<close>

lemma dt_less_day_ord:
  assumes "valid_datetime a" "valid_datetime b" "is_midnight a" "is_midnight b"
  shows "dt_less a b \<longleftrightarrow> day_ord a < day_ord b"
proof -
  from valid_month_bounds [OF assms(1)] days_in_month_bounds [of "year a" "month a"]
  have a: "month a - 1 \<le> 11" "1 \<le> day a" "day a \<le> 31" "1 \<le> month a" by auto
  from valid_month_bounds [OF assms(2)] days_in_month_bounds [of "year b" "month b"]
  have b: "month b - 1 \<le> 11" "1 \<le> day b" "day b \<le> 31" "1 \<le> month b" by auto
  have lex: "dt_less a b \<longleftrightarrow>
      (if year a = year b then (if month a = month b then day a < day b else month a < month b)
       else year a < year b)"
    using assms(3,4) by (simp add: dt_less_def dt_fields_def is_midnight_def)
  have ord: "((ya * 12 + xa) * 32 + da < (yb * 12 + xb) * 32 + db) \<longleftrightarrow>
      (if ya = yb then (if xa = xb then da < db else xa < xb) else ya < yb)"
    if "xa \<le> 11" "xb \<le> 11" "da \<le> 31" "db \<le> 31" for ya yb xa xb da db :: nat
    using that by (cases ya yb rule: linorder_cases; cases xa xb rule: linorder_cases) simp_all
  have "month a = month b \<longleftrightarrow> month a - 1 = month b - 1"
    "month a < month b \<longleftrightarrow> month a - 1 < month b - 1"
    using a(4) b(4) by auto
  then show ?thesis
    unfolding lex day_ord_def month_index_def ord [OF a(1) b(1) a(3) b(3)] by simp
qed

lemma dt_le_day_ord:
  assumes "valid_datetime a" "valid_datetime b" "is_midnight a" "is_midnight b"
  shows "dt_le a b \<longleftrightarrow> day_ord a \<le> day_ord b"
  using dt_less_day_ord [OF assms(2,1,4,3)] by (auto simp: dt_le_def)

lemma dt_less_first_day:
  assumes "valid_datetime e"
  shows "dt_less e (first_day k) \<longleftrightarrow> month_index e < k"
proof -
  from valid_month_bounds [OF assms]
  have e: "1 \<le> month e" "month e - 1 \<le> 11" "1 \<le> day e" by auto
  have lex: "dt_less e (first_day k) \<longleftrightarrow>
      (if year e = k div 12 then month e - 1 < k mod 12 else year e < k div 12)"
    using e by (auto simp: dt_less_def dt_fields_def first_day_def)
  have k: "k = (k div 12) * 12 + k mod 12" by simp
  have "k mod 12 < 12" by simp
  then have ord: "(y * 12 + x < q * 12 + k mod 12) \<longleftrightarrow> (if y = q then x < k mod 12 else y < q)"
    if "x \<le> 11" for x y q :: nat
    using that by (cases y q rule: linorder_cases) simp_all
  have "month_index e < k \<longleftrightarrow> year e * 12 + (month e - 1) < (k div 12) * 12 + k mod 12"
    unfolding month_index_def using k by simp
  then show ?thesis
    unfolding lex ord [OF e(2)] by simp
qed

lemma month_index_less:
  assumes "valid_datetime a" and "valid_datetime b" and "month_index a < month_index b"
  shows "dt_less a b"
proof -
  from valid_month_bounds [OF assms(1)] have a: "1 \<le> month a" "month a - 1 \<le> 11" by auto
  from valid_month_bounds [OF assms(2)] have b: "1 \<le> month b" "month b - 1 \<le> 11" by auto
  from assms(3) a(2) b(2)
  have "year a < year b \<or> (year a = year b \<and> month a - 1 < month b - 1)"
    unfolding month_index_def by (cases "year a" "year b" rule: linorder_cases) simp_all
  with a(1) b(1) have "year a < year b \<or> (year a = year b \<and> month a < month b)"
    by auto
  then show ?thesis
    by (auto simp: dt_less_def dt_fields_def)
qed

lemma dt_le_first_day:
  "valid_datetime e \<Longrightarrow> dt_le (first_day k) e \<longleftrightarrow> k \<le> month_index e"
  by (auto simp: dt_le_def dt_less_first_day)

lemma next_month_first_day:
  assumes "12 \<le> k" and "Suc k \<le> 9999 * 12 + 11"
  shows "(if month (first_day k) = 12 then datetime_new (year (first_day k) + 1) 1 1
          else datetime_new (year (first_day k)) (month (first_day k) + 1) 1)
         = Inr (first_day (Suc k))"
proof (cases "k mod 12 = 11")
  case True
  then have s: "Suc k div 12 = k div 12 + 1" "Suc k mod 12 = 0"
    by (simp_all add: div_Suc mod_Suc)
  from assms have "Suc k div 12 \<le> 9999" by simp
  with s True show ?thesis
    by (simp add: first_day_def datetime_new_def valid_date_def days_in_month_def)
next
  case False
  have "k mod 12 < 12" by simp
  with False have lt: "k mod 12 < 11" by linarith
  then have s: "Suc k div 12 = k div 12" "Suc k mod 12 = k mod 12 + 1"
    by (simp_all add: div_Suc mod_Suc)
  from assms have "1 \<le> k div 12" "k div 12 \<le> 9999" by simp_all
  with s False lt days_in_month_bounds [of "k div 12" "Suc (Suc (k mod 12))"] show ?thesis
    by (simp add: first_day_def datetime_new_def valid_date_def)
qed

lemma minus_one_day_first_day:
  assumes "12 \<le> k"
  shows "minus_one_day (first_day (Suc k)) = Inr (last_day k)"
proof (cases "k mod 12 = 11")
  case True
  then have s: "Suc k div 12 = k div 12 + 1" "Suc k mod 12 = 0"
    by (simp_all add: div_Suc mod_Suc)
  from assms have "1 \<le> k div 12" by simp
  with s True show ?thesis
    by (simp add: first_day_def last_day_def minus_one_day_def days_in_month_def)
next
  case False
  have "k mod 12 < 12" by simp
  with False have lt: "k mod 12 < 11" by linarith
  then have s: "Suc k div 12 = k div 12" "Suc k mod 12 = k mod 12 + 1"
    by (simp_all add: div_Suc mod_Suc)
  with False show ?thesis
    by (simp add: first_day_def last_day_def minus_one_day_def)
qed

text \<open>The loop, started at the first day of month \<open>k\<close>, emits the months \<open>k\<close> to that of the end.\<close>

lemma month_loop_char:
  assumes "valid_datetime e" and "month_index e < 9999 * 12 + 11"
    and "12 \<le> k" and "k \<le> Suc (month_index e)"
  shows "month_loop s e (first_day k) acc
    = Inr (acc @ map (\<lambda>j. format_period (clipped_month s e j)) [k..<Suc (month_index e)])"
  using assms(3,4)
proof (induction "Suc (month_index e) - k" arbitrary: k acc)
  case 0
  then have "\<not> dt_le (first_day k) e"
    using dt_le_first_day [OF assms(1), of k] by simp
  with 0 show ?case
    by (simp add: month_loop.simps [of s e "first_day k" acc])
next
  case (Suc n)
  then have le: "k \<le> month_index e" by simp
  then have go: "dt_le (first_day k) e"
    using dt_le_first_day [OF assms(1), of k] by simp
  from le assms(2) have "Suc k \<le> 9999 * 12 + 11" by simp
  note next_m = next_month_first_day [OF Suc.prems(1) this]
  note last_d = minus_one_day_first_day [OF Suc.prems(1)]
  have IH: "month_loop s e (first_day (Suc k)) (acc @ [format_period (clipped_month s e k)])
      = Inr ((acc @ [format_period (clipped_month s e k)])
           @ map (\<lambda>j. format_period (clipped_month s e j)) [Suc k..<Suc (month_index e)])"
    using Suc.hyps(2) Suc.prems le by (intro Suc.hyps(1)) simp_all
  have "month_loop s e (first_day k) acc
      = month_loop s e (first_day (Suc k)) (acc @ [format_period (clipped_month s e k)])"
    using go next_m last_d
    by (subst month_loop.simps) (simp add: format_period_def clipped_month_def)
  also note IH
  finally have "month_loop s e (first_day k) acc
      = Inr (acc @ map (\<lambda>j. format_period (clipped_month s e j)) (k # [Suc k..<Suc (month_index e)]))"
    by simp
  moreover have "[k..<Suc (month_index e)] = k # [Suc k..<Suc (month_index e)]"
    by (rule upt_conv_Cons) (use le in simp)
  ultimately show ?case by (simp only:)
qed

lemma month_start_end_strings_char:
  assumes "valid_datetime s" and "valid_datetime e" and "\<not> dt_less e s"
    and "\<not> (year e = 9999 \<and> month e = 12)"
  shows "month_index s \<le> month_index e"
    and "month_start_end_strings s e
      = Inr (map (\<lambda>j. format_period (clipped_month s e j)) [month_index s..<Suc (month_index e)])"
proof -
  from valid_month_bounds [OF assms(1)] have s: "1 \<le> year s" "1 \<le> month s" "month s \<le> 12" by auto
  from valid_month_bounds [OF assms(2)] assms(4)
  have e: "month_index e < 9999 * 12 + 11"
    unfolding month_index_def by (cases "year e = 9999") auto
  have "first_day (month_index s) = \<lparr>year = year s, month = month s, day = 1,
      hour = 0, minute = 0, second = 0, microsecond = 0\<rparr>"
    unfolding first_day_def month_index_div_mod [OF assms(1)] ..
  then have first: "datetime_new (year s) (month s) 1 = Inr (first_day (month_index s))"
    using valid_month_bounds [OF assms(1)] days_in_month_bounds [of "year s" "month s"]
    by (simp add: datetime_new_def valid_date_def)
  have s12: "12 \<le> month_index s"
    using s by (simp add: month_index_def)
  show le: "month_index s \<le> month_index e"
  proof (rule ccontr)
    assume "\<not> month_index s \<le> month_index e"
    then have "month_index e < month_index s" by simp
    then have "dt_less e s"
      by (rule month_index_less [OF assms(2,1)])
    with assms(3) show False by simp
  qed
  then have "month_index s \<le> Suc (month_index e)" by simp
  from month_loop_char [OF assms(2) e s12 this, of s "[]"] first assms(3)
  show "month_start_end_strings s e
      = Inr (map (\<lambda>j. format_period (clipped_month s e j)) [month_index s..<Suc (month_index e)])"
    by (simp add: month_start_end_strings_def dt_less_irrefl)
qed

text \<open>With both ends at midnight, a clipped month is the month itself, cut at the two ends of the range.\<close>

lemma clipped_month_explicit:
  assumes "valid_datetime s" "valid_datetime e" "is_midnight s" "is_midnight e"
    and "month_index s \<le> k" "k \<le> month_index e"
  shows "clipped_month s e k =
    (if k = month_index s then s else first_day k, if k = month_index e then e else last_day k)"
proof -
  from month_index_bounds(1) [OF assms(1)] assms(5) have k12: "12 \<le> k" by simp
  from month_index_bounds(2) [OF assms(2)] assms(6) have k9: "k \<le> 9999 * 12 + 11" by simp
  have "dt_less s (first_day k) \<longleftrightarrow> k \<noteq> month_index s"
    using assms(5) by (auto simp: dt_less_first_day [OF assms(1)])
  then have a: "dt_max s (first_day k) = (if k = month_index s then s else first_day k)"
    by (simp add: dt_max_def)
  have dl: "dt_less (last_day k) e \<longleftrightarrow> 32 * k + days_in_month (k div 12) (k mod 12 + 1) < day_ord e"
    using dt_less_day_ord [OF valid_first_last(2) [OF k12 k9] assms(2) _ assms(4)]
    by (simp add: day_ord_first_last)
  have "dt_less (last_day k) e \<longleftrightarrow> k \<noteq> month_index e"
  proof (cases "k = month_index e")
    case True
    have "day_ord e \<le> 32 * k + days_in_month (k div 12) (k mod 12 + 1)"
      using day_ord_bounds(2) [OF assms(2)] month_index_div_mod [OF assms(2)] True by simp
    with True show ?thesis unfolding dl by simp
  next
    case False
    with assms(6) have "Suc k \<le> month_index e" by simp
    then have "32 * k + 32 < day_ord e"
      using day_ord_bounds(1) [OF assms(2)] by simp
    with False days_in_month_bounds [of "k div 12" "k mod 12 + 1"] show ?thesis
      unfolding dl by simp
  qed
  then have b: "dt_min e (last_day k) = (if k = month_index e then e else last_day k)"
    by (simp add: dt_min_def)
  from a b show ?thesis by (simp add: clipped_month_def)
qed

lemma is_digit_digit_char: "is_digit (digit_char n)"
proof -
  have "n mod 10 < 10" by simp
  then have "n mod 10 \<in> {0, 1, 2, 3, 4, 5, 6, 7, 8, 9}" by simp arith
  then show ?thesis
    by (auto simp: digit_char_def is_digit_def)
qed

lemma dec_four_digits:
  assumes "1000 \<le> y" and "y \<le> 9999"
  shows "dec y = [digit_char (y div 1000), digit_char (y div 100), digit_char (y div 10), digit_char y]"
proof -
  from assms have "\<not> y < 10" "\<not> y div 10 < 10" "\<not> y div 10 div 10 < 10" "y div 10 div 10 div 10 < 10"
    by simp_all
  then have "dec y = [digit_char (y div 10 div 10 div 10), digit_char (y div 10 div 10),
      digit_char (y div 10), digit_char y]"
    by (simp add: dec.simps [of y] dec.simps [of "y div 10"] dec.simps [of "y div 10 div 10"]
        dec.simps [of "y div 10 div 10 div 10"] del: dec.simps)
  then show ?thesis by (simp add: div_mult2_eq [symmetric])
qed

lemma iso_shape_strftime:
  assumes "valid_datetime d" and "1000 \<le> year d"
  shows "iso_shape (strftime_iso d)"
proof -
  from valid_month_bounds [OF assms(1)] have "year d \<le> 9999" by simp
  from dec_four_digits [OF assms(2) this] show ?thesis
    by (simp add: strftime_iso_def dec2_def iso_shape_def is_digit_digit_char del: dec.simps)
qed

lemma clipped_month_facts:
  assumes "valid_datetime s" "valid_datetime e" "is_midnight s" "is_midnight e" "dt_le s e"
    and "month_index s \<le> k" "k \<le> month_index e"
  shows "valid_datetime (fst (clipped_month s e k))" and "valid_datetime (snd (clipped_month s e k))"
    and "is_midnight (fst (clipped_month s e k))" and "is_midnight (snd (clipped_month s e k))"
    and "month_index (fst (clipped_month s e k)) = k" and "month_index (snd (clipped_month s e k)) = k"
    and "dt_le (fst (clipped_month s e k)) (snd (clipped_month s e k))"
proof -
  note ex = clipped_month_explicit [OF assms(1-4,6,7)]
  from month_index_bounds(1) [OF assms(1)] assms(6) have k12: "12 \<le> k" by simp
  from month_index_bounds(2) [OF assms(2)] assms(7) have k9: "k \<le> 9999 * 12 + 11" by simp
  note vfl = valid_first_last [OF k12 k9]
  have fa: "fst (clipped_month s e k) = (if k = month_index s then s else first_day k)"
    and fb: "snd (clipped_month s e k) = (if k = month_index e then e else last_day k)"
    by (simp_all add: ex)
  have se: "day_ord s \<le> day_ord e"
    using assms(5) by (simp add: dt_le_day_ord [OF assms(1,2,3,4)])
  show va: "valid_datetime (fst (clipped_month s e k))"
    and vb: "valid_datetime (snd (clipped_month s e k))"
    using assms(1,2) vfl by (simp_all add: ex)
  show ma: "is_midnight (fst (clipped_month s e k))"
    and mb: "is_midnight (snd (clipped_month s e k))"
    using assms(3,4) by (simp_all add: ex)
  show ia: "month_index (fst (clipped_month s e k)) = k"
    and ib: "month_index (snd (clipped_month s e k)) = k"
    by (simp_all add: ex)
  have "day_ord (fst (clipped_month s e k)) \<le> day_ord (snd (clipped_month s e k))"
  proof (cases "k = month_index s")
    case ks: True
    show ?thesis
    proof (cases "k = month_index e")
      case True
      with ks se show ?thesis
        unfolding fa fb by simp
    next
      case False
      have "day_ord s \<le> 32 * k + days_in_month (k div 12) (k mod 12 + 1)"
        using day_ord_bounds(2) [OF assms(1)] month_index_div_mod [OF assms(1)] ks by simp
      with ks False show ?thesis
        unfolding fa fb by (simp add: day_ord_first_last)
    qed
  next
    case False
    then have "day_ord (fst (clipped_month s e k)) = 32 * k + 1"
      unfolding fa by (simp add: day_ord_first_last)
    with day_ord_bounds(1) [OF vb] ib show ?thesis by simp
  qed
  then show "dt_le (fst (clipped_month s e k)) (snd (clipped_month s e k))"
    by (simp add: dt_le_day_ord [OF va vb ma mb])
qed

lemma no_day_between_months:
  assumes "valid_datetime d" and "12 \<le> k"
    and "day_ord (last_day k) < day_ord d"
  shows "day_ord (first_day (Suc k)) \<le> day_ord d"
proof (rule ccontr)
  assume "\<not> day_ord (first_day (Suc k)) \<le> day_ord d"
  then have up: "day_ord d < 32 * k + 33"
    by (simp add: day_ord_first_last)
  from assms(3) days_in_month_bounds [of "k div 12" "k mod 12 + 1"]
  have lo: "32 * k + 28 < day_ord d"
    by (simp add: day_ord_first_last)
  from day_ord_bounds(1,3) [OF assms(1)] up lo have "month_index d = k"
    by linarith
  with day_ord_bounds(2) [OF assms(1)] month_index_div_mod [OF assms(1)]
  have "day_ord d \<le> day_ord (last_day k)"
    by (simp add: day_ord_first_last)
  with assms(3) show False by simp
qed

text \<open>
  Claim C2, as the code has it. When the end is before the start the function fails with
  its \<^verbatim>\<open>ValueError\<close>. For a start and an end that are dates of the calendar at midnight,
  with start \<open>\<le>\<close> end and the end not in December 9999, it returns the formatted list
  of periods \<open>ps\<close> such that: there is one period per calendar month from the month of the
  start to the month of the end, in order; the first begins at the start and the last
  ends at the end; every period begins and ends at a midnight of the calendar, its begin
  not after its end, both in the month of its position, and both strings have the format
  \<^verbatim>\<open>YYYY-MM-DDTHH:MM:SS+03:00\<close> (from the year 1000 on); a period that is not the
  last ends on the last day of its month, the next begins on the first day of the next
  month, and no day lies between them; an earlier period ends before a later one
  begins; and a day lies in the range exactly when it lies in one of the periods.
\<close>

theorem month_partition_by_day:
  "(dt_less end_dt start_dt \<longrightarrow>
      month_start_end_strings start_dt end_dt = Inl (ValueError ''end_dt must be >= start_dt''))
   \<and> (valid_datetime start_dt \<and> valid_datetime end_dt \<and> is_midnight start_dt \<and> is_midnight end_dt
       \<and> dt_le start_dt end_dt \<and> \<not> (year end_dt = 9999 \<and> month end_dt = 12) \<longrightarrow>
      (\<exists>ps. month_start_end_strings start_dt end_dt = Inr (map format_period ps)
         \<and> length ps = month_index end_dt - month_index start_dt + 1
         \<and> fst (hd ps) = start_dt \<and> snd (last ps) = end_dt
         \<and> (\<forall>i < length ps.
               valid_datetime (fst (ps ! i)) \<and> valid_datetime (snd (ps ! i))
             \<and> is_midnight (fst (ps ! i)) \<and> is_midnight (snd (ps ! i))
             \<and> dt_le (fst (ps ! i)) (snd (ps ! i))
             \<and> month_index (fst (ps ! i)) = month_index start_dt + i
             \<and> month_index (snd (ps ! i)) = month_index start_dt + i
             \<and> (1000 \<le> year start_dt \<longrightarrow>
                   iso_shape (strftime_iso (fst (ps ! i))) \<and> iso_shape (strftime_iso (snd (ps ! i)))))
         \<and> (\<forall>i. Suc i < length ps \<longrightarrow>
               snd (ps ! i) = last_day (month_index start_dt + i)
             \<and> fst (ps ! Suc i) = first_day (month_index start_dt + Suc i)
             \<and> (\<forall>d. valid_datetime d \<and> is_midnight d \<longrightarrow>
                   \<not> (dt_less (snd (ps ! i)) d \<and> dt_less d (fst (ps ! Suc i)))))
         \<and> (\<forall>i j. i < j \<and> j < length ps \<longrightarrow> dt_less (snd (ps ! i)) (fst (ps ! j)))
         \<and> (\<forall>d. valid_datetime d \<and> is_midnight d \<longrightarrow>
               ((dt_le start_dt d \<and> dt_le d end_dt)
                 \<longleftrightarrow> (\<exists>p \<in> set ps. dt_le (fst p) d \<and> dt_le d (snd p))))))"
proof (intro conjI impI)
  assume "dt_less end_dt start_dt"
  then show "month_start_end_strings start_dt end_dt = Inl (ValueError ''end_dt must be >= start_dt'')"
    by (simp add: month_start_end_strings_def)
next
  assume hyps: "valid_datetime start_dt \<and> valid_datetime end_dt \<and> is_midnight start_dt
    \<and> is_midnight end_dt \<and> dt_le start_dt end_dt \<and> \<not> (year end_dt = 9999 \<and> month end_dt = 12)"
  then have vs: "valid_datetime start_dt" and ve: "valid_datetime end_dt"
    and ms: "is_midnight start_dt" and me: "is_midnight end_dt"
    and le: "dt_le start_dt end_dt" and dec: "\<not> (year end_dt = 9999 \<and> month end_dt = 12)"
    by simp_all
  from le have nl: "\<not> dt_less end_dt start_dt" by (simp add: dt_le_def split: if_splits)
  define ks where "ks = month_index start_dt"
  define ke where "ke = month_index end_dt"
  define ps where "ps = map (clipped_month start_dt end_dt) [ks..<Suc ke]"
  note char = month_start_end_strings_char [OF vs ve nl dec, folded ks_def ke_def]
  from char(1) have kle: "ks \<le> ke" .
  have res: "month_start_end_strings start_dt end_dt = Inr (map format_period ps)"
    unfolding char(2) ps_def by (simp add: comp_def)
  have len: "length ps = ke - ks + 1"
    using kle by (simp add: ps_def)
  have nth: "ps ! i = clipped_month start_dt end_dt (ks + i)" if "i < length ps" for i
    using that kle unfolding ps_def by (simp del: upt_Suc)
  have rng: "ks \<le> ks + i \<and> ks + i \<le> ke" if "i < length ps" for i
    using that len kle by simp
  note facts = clipped_month_facts [OF vs ve ms me le, folded ks_def ke_def]
  note expl = clipped_month_explicit [OF vs ve ms me, folded ks_def ke_def]
  have k12: "12 \<le> ks" using month_index_bounds(1) [OF vs] by (simp add: ks_def)
  have year_mono: "1000 \<le> year (fst (ps ! i)) \<and> 1000 \<le> year (snd (ps ! i))"
    if i: "i < length ps" and y: "1000 \<le> year start_dt" for i
  proof -
    from rng [OF i] have r: "ks \<le> ks + i" "ks + i \<le> ke" by simp_all
    have "year start_dt = ks div 12"
      using month_index_div_mod(1) [OF vs] by (simp add: ks_def)
    with y have "1000 \<le> (ks + i) div 12"
      using div_le_mono [of ks "ks + i" 12] by simp
    moreover have "year (fst (ps ! i)) = (ks + i) div 12"
      using month_index_div_mod(1) [OF facts(1) [OF r]] facts(5) [OF r] by (simp add: nth [OF i])
    moreover have "year (snd (ps ! i)) = (ks + i) div 12"
      using month_index_div_mod(1) [OF facts(2) [OF r]] facts(6) [OF r] by (simp add: nth [OF i])
    ultimately show ?thesis by simp
  qed
  have each: "valid_datetime (fst (ps ! i)) \<and> valid_datetime (snd (ps ! i))
             \<and> is_midnight (fst (ps ! i)) \<and> is_midnight (snd (ps ! i))
             \<and> dt_le (fst (ps ! i)) (snd (ps ! i))
             \<and> month_index (fst (ps ! i)) = month_index start_dt + i
             \<and> month_index (snd (ps ! i)) = month_index start_dt + i
             \<and> (1000 \<le> year start_dt \<longrightarrow>
                   iso_shape (strftime_iso (fst (ps ! i))) \<and> iso_shape (strftime_iso (snd (ps ! i))))"
    if i: "i < length ps" for i
  proof -
    from rng [OF i] have r: "ks \<le> ks + i" "ks + i \<le> ke" by simp_all
    note f = facts [OF r, folded nth [OF i]]
    have "iso_shape (strftime_iso (fst (ps ! i))) \<and> iso_shape (strftime_iso (snd (ps ! i)))"
      if "1000 \<le> year start_dt"
      using year_mono [OF i that] f(1,2) by (simp add: iso_shape_strftime)
    with f show ?thesis by (simp add: ks_def)
  qed
  have ord_lo: "32 * (ks + i) + 1 \<le> day_ord (fst (ps ! i))"
    and ord_hi: "day_ord (snd (ps ! i)) \<le> 32 * (ks + i) + 31" if i: "i < length ps" for i
    using each [OF i] day_ord_bounds(1) [of "fst (ps ! i)"] day_ord_bounds(3) [of "snd (ps ! i)"]
    by (simp_all add: ks_def)
  have ends: "fst (hd ps) = start_dt \<and> snd (last ps) = end_dt"
  proof -
    have ne: "ps \<noteq> []" using len by auto
    have "hd ps = ps ! 0" using ne by (simp add: hd_conv_nth)
    moreover have "last ps = ps ! (ke - ks)" using ne len by (simp add: last_conv_nth)
    moreover have "ps ! 0 = clipped_month start_dt end_dt ks"
      using nth [of 0] len by simp
    moreover have "ps ! (ke - ks) = clipped_month start_dt end_dt ke"
      using nth [of "ke - ks"] len kle by simp
    ultimately show ?thesis
      using expl [of ks] expl [of ke] kle by simp
  qed
  have adjacent: "snd (ps ! i) = last_day (month_index start_dt + i)
             \<and> fst (ps ! Suc i) = first_day (month_index start_dt + Suc i)
             \<and> (\<forall>d. valid_datetime d \<and> is_midnight d \<longrightarrow>
                   \<not> (dt_less (snd (ps ! i)) d \<and> dt_less d (fst (ps ! Suc i))))"
    if i: "Suc i < length ps" for i
  proof -
    from i have i': "i < length ps" by simp
    from rng [OF i] rng [OF i'] have r: "ks \<le> ks + i" "ks + i \<le> ke" "ks + i \<noteq> ke"
      "ks \<le> ks + Suc i" "ks + Suc i \<le> ke" "ks + Suc i \<noteq> ks"
      by simp_all
    have a: "snd (ps ! i) = last_day (ks + i)"
      using expl [OF r(1,2)] r(3) by (simp add: nth [OF i'])
    have b: "fst (ps ! Suc i) = first_day (ks + Suc i)"
      using expl [OF r(4,5)] r(6) by (simp add: nth [OF i])
    have gap: "\<not> (dt_less (snd (ps ! i)) d \<and> dt_less d (fst (ps ! Suc i)))"
      if d: "valid_datetime d \<and> is_midnight d" for d
    proof
      assume between: "dt_less (snd (ps ! i)) d \<and> dt_less d (fst (ps ! Suc i))"
      from d each [OF i'] each [OF i] between
      have "day_ord (snd (ps ! i)) < day_ord d" "day_ord d < day_ord (fst (ps ! Suc i))"
        by (simp_all add: dt_less_day_ord)
      then have "day_ord (last_day (ks + i)) < day_ord d" "day_ord d < day_ord (first_day (Suc (ks + i)))"
        by (simp_all add: a b)
      moreover have "12 \<le> ks + i" using k12 by simp
      ultimately show False
        using no_day_between_months [of d "ks + i"] d by simp
    qed
    from a b gap show ?thesis by (simp add: ks_def)
  qed
  have ordered: "dt_less (snd (ps ! i)) (fst (ps ! j))" if ij: "i < j \<and> j < length ps" for i j
  proof -
    from ij have i: "i < length ps" and j: "j < length ps" by simp_all
    from ij have "32 * (ks + i) + 31 < 32 * (ks + j) + 1" by simp
    with ord_hi [OF i] ord_lo [OF j] have "day_ord (snd (ps ! i)) < day_ord (fst (ps ! j))"
      by linarith
    with each [OF i] each [OF j] show ?thesis
      by (simp add: dt_less_day_ord)
  qed
  have union: "(dt_le start_dt d \<and> dt_le d end_dt)
                 \<longleftrightarrow> (\<exists>p \<in> set ps. dt_le (fst p) d \<and> dt_le d (snd p))"
    if d: "valid_datetime d \<and> is_midnight d" for d
  proof
    assume inside: "dt_le start_dt d \<and> dt_le d end_dt"
    with d vs ve ms me have o: "day_ord start_dt \<le> day_ord d" "day_ord d \<le> day_ord end_dt"
      by (simp_all add: dt_le_day_ord)
    from d have vd: "valid_datetime d" by simp
    have "ks \<le> month_index d"
      using o(1) day_ord_bounds(1) [OF vs] day_ord_bounds(3) [OF vd] unfolding ks_def by linarith
    moreover have "month_index d \<le> ke"
      using o(2) day_ord_bounds(1) [OF vd] day_ord_bounds(3) [OF ve] unfolding ke_def by linarith
    ultimately have r: "ks \<le> month_index d" "month_index d \<le> ke" .
    define i where "i = month_index d - ks"
    from r len have i: "i < length ps" and ki: "ks + i = month_index d"
      by (simp_all add: i_def)
    let ?k = "month_index d"
    note ex = expl [OF r]
    have lo: "day_ord (fst (clipped_month start_dt end_dt ?k)) \<le> day_ord d"
      using o(1) day_ord_bounds(1) [OF vd] by (simp add: ex day_ord_first_last)
    have "day_ord d \<le> 32 * ?k + days_in_month (?k div 12) (?k mod 12 + 1)"
      using day_ord_bounds(2) [OF vd] month_index_div_mod [OF vd] by simp
    then have hi: "day_ord d \<le> day_ord (snd (clipped_month start_dt end_dt ?k))"
      using o(2) by (simp add: ex day_ord_first_last)
    from lo hi have "dt_le (fst (ps ! i)) d \<and> dt_le d (snd (ps ! i))"
      using each [OF i] d by (simp add: dt_le_day_ord nth [OF i] ki)
    moreover have "ps ! i \<in> set ps" using i by simp
    ultimately show "\<exists>p \<in> set ps. dt_le (fst p) d \<and> dt_le d (snd p)" by blast
  next
    assume "\<exists>p \<in> set ps. dt_le (fst p) d \<and> dt_le d (snd p)"
    then obtain i where i: "i < length ps" and p: "dt_le (fst (ps ! i)) d \<and> dt_le d (snd (ps ! i))"
      by (auto simp: in_set_conv_nth)
    from rng [OF i] have r: "ks \<le> ks + i" "ks + i \<le> ke" by simp_all
    from p each [OF i] d have o: "day_ord (fst (ps ! i)) \<le> day_ord d" "day_ord d \<le> day_ord (snd (ps ! i))"
      by (simp_all add: dt_le_day_ord)
    note ex = expl [OF r]
    have fa: "fst (ps ! i) = (if i = 0 then start_dt else first_day (ks + i))"
      and fb: "snd (ps ! i) = (if ks + i = ke then end_dt else last_day (ks + i))"
      by (simp_all add: nth [OF i] ex)
    have "day_ord start_dt \<le> day_ord (fst (ps ! i))"
    proof (cases "i = 0")
      case True
      then show ?thesis unfolding fa by simp
    next
      case False
      then have "32 * ks + 31 < 32 * (ks + i) + 1" by simp
      with day_ord_bounds(3) [OF vs] ord_lo [OF i] show ?thesis
        unfolding ks_def by linarith
    qed
    moreover have "day_ord (snd (ps ! i)) \<le> day_ord end_dt"
    proof (cases "ks + i = ke")
      case True
      then show ?thesis unfolding fb by simp
    next
      case False
      with r have "32 * (ks + i) + 31 < 32 * ke + 1" by simp
      with day_ord_bounds(1) [OF ve] ord_hi [OF i] show ?thesis
        unfolding ke_def by linarith
    qed
    ultimately have "day_ord start_dt \<le> day_ord d" "day_ord d \<le> day_ord end_dt"
      using o by simp_all
    with d vs ve ms me show "dt_le start_dt d \<and> dt_le d end_dt"
      by (simp add: dt_le_day_ord)
  qed
  have len': "length ps = month_index end_dt - month_index start_dt + 1"
    using len by (simp add: ks_def ke_def)
  from res len' ends each adjacent ordered union
  show "\<exists>ps. month_start_end_strings start_dt end_dt = Inr (map format_period ps)
         \<and> length ps = month_index end_dt - month_index start_dt + 1
         \<and> fst (hd ps) = start_dt \<and> snd (last ps) = end_dt
         \<and> (\<forall>i < length ps.
               valid_datetime (fst (ps ! i)) \<and> valid_datetime (snd (ps ! i))
             \<and> is_midnight (fst (ps ! i)) \<and> is_midnight (snd (ps ! i))
             \<and> dt_le (fst (ps ! i)) (snd (ps ! i))
             \<and> month_index (fst (ps ! i)) = month_index start_dt + i
             \<and> month_index (snd (ps ! i)) = month_index start_dt + i
             \<and> (1000 \<le> year start_dt \<longrightarrow>
                   iso_shape (strftime_iso (fst (ps ! i))) \<and> iso_shape (strftime_iso (snd (ps ! i)))))
         \<and> (\<forall>i. Suc i < length ps \<longrightarrow>
               snd (ps ! i) = last_day (month_index start_dt + i)
             \<and> fst (ps ! Suc i) = first_day (month_index start_dt + Suc i)
             \<and> (\<forall>d. valid_datetime d \<and> is_midnight d \<longrightarrow>
                   \<not> (dt_less (snd (ps ! i)) d \<and> dt_less d (fst (ps ! Suc i)))))
         \<and> (\<forall>i j. i < j \<and> j < length ps \<longrightarrow> dt_less (snd (ps ! i)) (fst (ps ! j)))
         \<and> (\<forall>d. valid_datetime d \<and> is_midnight d \<longrightarrow>
               ((dt_le start_dt d \<and> dt_le d end_dt)
                 \<longleftrightarrow> (\<exists>p \<in> set ps. dt_le (fst p) d \<and> dt_le d (snd p))))"
    by (intro exI [of _ ps] conjI allI impI) blast+
qed

lemmas partition_eval = month_start_end_strings_def month_loop.simps dt_less_def dt_le_def
  dt_fields_def datetime_new_def valid_date_def days_in_month_def is_leap_def minus_one_day_def
  dt_max_def dt_min_def strftime_iso_def dec2_def digit_char_def

text \<open>
  The theorem on the three full months January to March 2024 (three periods), on the
  single day 1 January 2024 (one period) and on the reversed range.
\<close>

theorem month_partition_by_day_witness:
  "(\<exists>ps. month_start_end_strings jan_1 mar_31 = Inr (map format_period ps) \<and> length ps = 3
       \<and> fst (hd ps) = jan_1 \<and> snd (last ps) = mar_31)
   \<and> month_start_end_strings jan_1 mar_31
       = Inr [(''2024-01-01T00:00:00+03:00'', ''2024-01-31T00:00:00+03:00''),
              (''2024-02-01T00:00:00+03:00'', ''2024-02-29T00:00:00+03:00''),
              (''2024-03-01T00:00:00+03:00'', ''2024-03-31T00:00:00+03:00'')]
   \<and> (\<exists>ps. month_start_end_strings jan_1 jan_1 = Inr (map format_period ps) \<and> length ps = 1)
   \<and> month_start_end_strings jan_1 jan_1
       = Inr [(''2024-01-01T00:00:00+03:00'', ''2024-01-01T00:00:00+03:00'')]
   \<and> month_start_end_strings mar_31 jan_1 = Inl (ValueError ''end_dt must be >= start_dt'')"
proof -
  have v: "valid_datetime jan_1" "valid_datetime mar_31" "is_midnight jan_1" "is_midnight mar_31"
    by (simp_all add: jan_1_def mar_31_def valid_datetime_def valid_date_def days_in_month_def
        is_midnight_def)
  have o: "dt_le jan_1 mar_31" "dt_le jan_1 jan_1" "dt_less jan_1 mar_31"
    by (simp_all add: jan_1_def mar_31_def dt_le_def dt_less_def dt_fields_def)
  have y: "\<not> (year mar_31 = 9999 \<and> month mar_31 = 12)" "\<not> (year jan_1 = 9999 \<and> month jan_1 = 12)"
    by (simp_all add: jan_1_def mar_31_def)
  have n: "month_index mar_31 - month_index jan_1 + 1 = 3"
    by (simp add: jan_1_def mar_31_def month_index_def)
  from month_partition_by_day [of mar_31 jan_1] v o(1) y(1)
  have a: "\<exists>ps. month_start_end_strings jan_1 mar_31 = Inr (map format_period ps) \<and> length ps = 3
       \<and> fst (hd ps) = jan_1 \<and> snd (last ps) = mar_31"
    unfolding n by blast
  from month_partition_by_day [of jan_1 jan_1] v o(2) y(2)
  have b: "\<exists>ps. month_start_end_strings jan_1 jan_1 = Inr (map format_period ps) \<and> length ps = 1"
    by auto
  from month_partition_by_day [of jan_1 mar_31] o(3)
  have c: "month_start_end_strings mar_31 jan_1 = Inl (ValueError ''end_dt must be >= start_dt'')"
    by blast
  have d: "month_start_end_strings jan_1 mar_31
       = Inr [(''2024-01-01T00:00:00+03:00'', ''2024-01-31T00:00:00+03:00''),
              (''2024-02-01T00:00:00+03:00'', ''2024-02-29T00:00:00+03:00''),
              (''2024-03-01T00:00:00+03:00'', ''2024-03-31T00:00:00+03:00'')]"
    by (simp add: jan_1_def mar_31_def partition_eval)
  have e: "month_start_end_strings jan_1 jan_1
       = Inr [(''2024-01-01T00:00:00+03:00'', ''2024-01-01T00:00:00+03:00'')]"
    by (simp add: jan_1_def partition_eval)
  from a b c d e show ?thesis by blast
qed

text \<open>
  Claim C2 as stated fails for timestamps that are not midnights. From 1 January 00:00 to
  31 January 18:00 the only period ends at 31 January 00:00, so the last 18 hours of the
  range are in no period. From 31 January 12:00 to 15 February 00:00 the first period
  begins at 31 January 12:00 and ends at 31 January 00:00, before its begin. And for a
  range in December 9999 the function raises instead of returning.
\<close>

theorem month_partition_counterexample:
  "dt_le jan_1 jan_31_18h
   \<and> month_start_end_strings jan_1 jan_31_18h
       = Inr [(''2024-01-01T00:00:00+03:00'', ''2024-01-31T00:00:00+03:00'')]
   \<and> strftime_iso jan_31_18h = ''2024-01-31T18:00:00+03:00''
   \<and> dt_le jan_31_12h feb_15
   \<and> month_start_end_strings jan_31_12h feb_15
       = Inr [(''2024-01-31T12:00:00+03:00'', ''2024-01-31T00:00:00+03:00''),
              (''2024-02-01T00:00:00+03:00'', ''2024-02-15T00:00:00+03:00'')]
   \<and> dt_le dec_1_9999 dec_15_9999
   \<and> month_start_end_strings dec_1_9999 dec_15_9999 = Inl (ValueError ''out of range'')"
  by (simp add: jan_1_def jan_31_18h_def jan_31_12h_def feb_15_def dec_1_9999_def dec_15_9999_def
      partition_eval)

subsection \<open>Time keys\<close>

lemma extract_day_eq: "extract_day s = (if is_ymd (take 10 s) then Some (take 10 s) else None)"
  by (simp add: extract_day_def is_ymd_def split: list.split)

lemma extract_hhmm_eq: "extract_hhmm s = (if is_hhmm (take 5 s) then Some (take 5 s) else None)"
  by (simp add: extract_hhmm_def is_hhmm_def split: list.split)

lemma extract_hhmm_append: "is_hhmm x \<Longrightarrow> extract_hhmm (x @ rest) = Some x"
  by (simp add: extract_hhmm_eq is_hhmm_def)

lemma extract_T_hhmm_sound:
  "extract_T_hhmm s = Some x \<Longrightarrow> \<exists>pre rest. s = pre @ CHR ''T'' # x @ rest \<and> is_hhmm x"
proof (induction s)
  case Nil
  then show ?case by simp
next
  case (Cons c cs)
  show ?case
  proof (cases "c = CHR ''T'' \<and> extract_hhmm cs \<noteq> None")
    case True
    with Cons.prems have x: "extract_hhmm cs = Some x" by auto
    then have "is_hhmm x" "x = take 5 cs"
      by (auto simp: extract_hhmm_eq split: if_splits)
    then have "c # cs = [] @ CHR ''T'' # x @ drop 5 cs \<and> is_hhmm x"
      using True by simp
    then show ?thesis by blast
  next
    case False
    with Cons.prems have "extract_T_hhmm cs = Some x"
      by (auto split: option.splits if_splits)
    with Cons.IH obtain pre rest where "cs = pre @ CHR ''T'' # x @ rest" "is_hhmm x" by blast
    then have "c # cs = (c # pre) @ CHR ''T'' # x @ rest \<and> is_hhmm x" by simp
    then show ?thesis by blast
  qed
qed

lemma extract_T_hhmm_complete:
  "extract_T_hhmm s = None \<Longrightarrow> s = pre @ CHR ''T'' # x @ rest \<Longrightarrow> is_hhmm x \<Longrightarrow> False"
proof (induction s arbitrary: pre)
  case Nil
  then show ?case by simp
next
  case (Cons c cs)
  show ?case
  proof (cases pre)
    case Nil
    with Cons.prems(2) have "c = CHR ''T''" "cs = x @ rest" by simp_all
    with Cons.prems(1,3) show ?thesis by (simp add: extract_hhmm_append)
  next
    case (Cons p pre')
    with Cons.prems(2) have cs: "cs = pre' @ CHR ''T'' # x @ rest" by simp
    from Cons.prems(1) have "extract_T_hhmm cs = None"
      by (auto split: option.splits if_splits)
    from Cons.IH [OF this cs Cons.prems(3)] show ?thesis .
  qed
qed

lemma to_datetime_coerce_Some:
  "to_datetime_coerce d h = Some t \<Longrightarrow> valid_datetime t \<and> in_ns_bounds t"
  by (auto simp: to_datetime_coerce_def Let_def split: option.splits if_splits)

lemma merge_inner_set:
  "set (merge_inner left right) = {(a, v). a \<in> set left \<and> (key_datetime a, v) \<in> set right}"
  by (force simp: merge_inner_def partners_def)

text \<open>Reading decimal digits and printing them are inverse to each other.\<close>

lemma digit_char_val:
  assumes "is_digit c"
  shows "digit_char (digit_val c) = c" and "digit_val c < 10"
proof -
  from assms have "(of_char c :: nat) \<in> {48, 49, 50, 51, 52, 53, 54, 55, 56, 57}"
    unfolding is_digit_def by simp arith
  moreover have e: "\<And>d. (of_char c :: nat) = of_char d \<Longrightarrow> c = d"
    by (simp only: of_char_eq_iff)
  ultimately have "c \<in> set ''0123456789''"
    using e [of "CHR ''0''"] e [of "CHR ''1''"] e [of "CHR ''2''"] e [of "CHR ''3''"] e [of "CHR ''4''"]
      e [of "CHR ''5''"] e [of "CHR ''6''"] e [of "CHR ''7''"] e [of "CHR ''8''"] e [of "CHR ''9''"]
    by auto
  then show "digit_char (digit_val c) = c" and "digit_val c < 10"
    by (auto simp: digit_char_def digit_val_def)
qed

lemma digit_val_char: "digit_val (digit_char n) = n mod 10"
proof -
  have "n mod 10 < 10" by simp
  then have "n mod 10 \<in> {0, 1, 2, 3, 4, 5, 6, 7, 8, 9}" by simp arith
  then show ?thesis
    by (auto simp: digit_char_def digit_val_def)
qed

lemma dec2_read_nat:
  assumes "is_digit a" "is_digit b"
  shows "dec2 (read_nat [a, b]) = [a, b]"
proof -
  define x y where "x = digit_val a" and "y = digit_val b"
  with digit_char_val [OF assms(1)] digit_char_val [OF assms(2)]
  have d: "digit_char x = a" "digit_char y = b" "x < 10" "y < 10" by simp_all
  have n: "read_nat [a, b] = x * 10 + y"
    by (simp add: read_nat_def x_def y_def)
  from d(3,4) have "(x * 10 + y) div 10 = x" "(x * 10 + y) mod 10 = y" by simp_all
  moreover have "digit_char (x * 10 + y) = digit_char ((x * 10 + y) mod 10)"
    by (simp add: digit_char_def)
  ultimately show ?thesis
    unfolding n dec2_def using d(1,2) by simp
qed

lemma read_nat_dec2: "n < 100 \<Longrightarrow> read_nat (dec2 n) = n"
proof -
  assume "n < 100"
  then have "n div 10 mod 10 = n div 10" by simp
  then show ?thesis
    by (simp add: read_nat_def dec2_def digit_val_char)
qed

lemma in_ns_bounds_year: "in_ns_bounds d \<Longrightarrow> 1677 \<le> year d \<and> year d \<le> 2262"
  by (auto simp: in_ns_bounds_def dt_le_def dt_less_def dt_fields_def split: if_splits)

lemma digits_of_number:
  fixes w x y z :: nat
  assumes "x < 10" "y < 10" "z < 10"
  defines "n \<equiv> w * 1000 + x * 100 + y * 10 + z"
  shows "n div 1000 = w" "n div 100 mod 10 = x" "n div 10 mod 10 = y" "n mod 10 = z"
proof -
  have a: "n = (w * 100 + x * 10 + y) * 10 + z" by (simp add: n_def)
  have b: "w * 100 + x * 10 + y = (w * 10 + x) * 10 + y" by simp
  have dm: "(k * 10 + r) div 10 = k" "(k * 10 + r) mod 10 = r" if "r < 10" for k r :: nat
    using that by simp_all
  have d1: "n div 10 = w * 100 + x * 10 + y" and m1: "n mod 10 = z"
    using dm [OF assms(3), of "w * 100 + x * 10 + y"] unfolding a [symmetric] by blast+
  have d2: "n div 10 div 10 = w * 10 + x" and m2: "n div 10 mod 10 = y"
    using dm [OF assms(2), of "w * 10 + x"] unfolding b [symmetric] d1 [symmetric] by blast+
  have d3: "n div 10 div 10 div 10 = w" and m3: "n div 10 div 10 mod 10 = x"
    using dm [OF assms(1), of w] unfolding d2 [symmetric] by blast+
  have e: "n div 100 = n div 10 div 10" "n div 1000 = n div 10 div 10 div 10"
    by (simp_all add: div_mult2_eq [symmetric])
  show "n div 1000 = w" "n div 100 mod 10 = x" "n div 10 mod 10 = y" "n mod 10 = z"
    unfolding e by (fact d3 m3 m2 m1)+
qed

lemma number_of_digits:
  fixes y :: nat
  shows "y div 1000 * 1000 + y div 100 mod 10 * 100 + y div 10 mod 10 * 10 + y mod 10 = y"
proof -
  have e: "y div 100 = y div 10 div 10" "y div 1000 = y div 10 div 10 div 10"
    by (simp_all add: div_mult2_eq [symmetric])
  have "y = y div 10 * 10 + y mod 10" by simp
  moreover have "y div 10 = y div 10 div 10 * 10 + y div 10 mod 10" by simp
  moreover have "y div 10 div 10 = y div 10 div 10 div 10 * 10 + y div 10 div 10 mod 10" by simp
  ultimately show ?thesis
    unfolding e by linarith
qed

lemma dec_read_nat:
  assumes "is_digit a" "is_digit b" "is_digit c" "is_digit d" and "1000 \<le> read_nat [a, b, c, d]"
  shows "dec (read_nat [a, b, c, d]) = [a, b, c, d]"
proof -
  define w x y z where "w = digit_val a" and "x = digit_val b" and "y = digit_val c" and "z = digit_val d"
  with digit_char_val [OF assms(1)] digit_char_val [OF assms(2)] digit_char_val [OF assms(3)]
    digit_char_val [OF assms(4)]
  have d: "digit_char w = a" "digit_char x = b" "digit_char y = c" "digit_char z = d"
    and lt: "w < 10" "x < 10" "y < 10" "z < 10" by simp_all
  define n where "n = w * 1000 + x * 100 + y * 10 + z"
  have n: "read_nat [a, b, c, d] = n"
    by (simp add: read_nat_def w_def x_def y_def z_def n_def)
  from lt have le: "n \<le> 9999" unfolding n_def by simp
  note dm = digits_of_number [OF lt(2-4), of w, folded n_def]
  have dc: "digit_char k = digit_char (k mod 10)" for k
    by (simp add: digit_char_def)
  from assms(5) have "1000 \<le> n" by (simp add: n)
  from dec_four_digits [OF this le]
  have "dec n = [digit_char (n div 1000), digit_char (n div 100 mod 10),
      digit_char (n div 10 mod 10), digit_char (n mod 10)]"
    using dc [of "n div 100"] dc [of "n div 10"] dc [of n] by simp
  then show ?thesis
    unfolding n dm d .
qed

lemma read_nat_dec:
  assumes "1000 \<le> y" "y \<le> 9999"
  shows "read_nat (dec y) = y"
proof -
  from assms(2) have "y div 1000 mod 10 = y div 1000" by simp
  then show ?thesis
    unfolding dec_four_digits [OF assms]
    using number_of_digits [of y] by (simp add: read_nat_def digit_val_char)
qed

lemma list_of_length_10:
  assumes "length p = 10"
  shows "p = [p ! 0, p ! 1, p ! 2, p ! 3, p ! 4, p ! 5, p ! 6, p ! 7, p ! 8, p ! 9]"
proof -
  from assms obtain a b c d e f g h i j where "p = [a, b, c, d, e, f, g, h, i, j]"
    by (auto simp: eval_nat_numeral length_Suc_conv)
  then show ?thesis by simp
qed

lemma list_of_length_5:
  assumes "length q = 5"
  shows "q = [q ! 0, q ! 1, q ! 2, q ! 3, q ! 4]"
proof -
  from assms obtain a b c d e where "q = [a, b, c, d, e]"
    by (auto simp: eval_nat_numeral length_Suc_conv)
  then show ?thesis by simp
qed

lemma parse_print_day:
  assumes "is_ymd p" and "1000 \<le> read_nat (take 4 p)"
  shows "dec (read_nat (take 4 p)) @ ''-'' @ dec2 (read_nat (take 2 (drop 5 p))) @ ''-''
      @ dec2 (read_nat (take 2 (drop 8 p))) = p"
proof -
  from assms(1) have "length p = 10" by (simp add: is_ymd_def)
  from list_of_length_10 [OF this] obtain y1 y2 y3 y4 h1 m1 m2 h2 d1 d2
    where p: "p = [y1, y2, y3, y4, h1, m1, m2, h2, d1, d2]" by blast
  from assms(1) have dg: "is_digit y1" "is_digit y2" "is_digit y3" "is_digit y4"
      "is_digit m1" "is_digit m2" "is_digit d1" "is_digit d2"
    and h: "h1 = CHR ''-''" "h2 = CHR ''-''"
    by (simp_all add: is_ymd_def p)
  from assms(2) have "1000 \<le> read_nat [y1, y2, y3, y4]" by (simp add: p)
  from dec_read_nat [OF dg(1-4) this] dec2_read_nat [OF dg(5,6)] dec2_read_nat [OF dg(7,8)]
  show ?thesis
    by (simp add: p h del: dec.simps)
qed

lemma parse_print_hour:
  assumes "is_hhmm q"
  shows "dec2 (read_nat (take 2 q)) @ '':'' @ dec2 (read_nat (take 2 (drop 3 q))) = q"
proof -
  from assms have "length q = 5" by (simp add: is_hhmm_def)
  from list_of_length_5 [OF this] obtain a b c d e where q: "q = [a, b, c, d, e]" by blast
  from assms have dg: "is_digit a" "is_digit b" "is_digit d" "is_digit e" and c: "c = CHR '':''"
    by (simp_all add: is_hhmm_def q)
  from dec2_read_nat [OF dg(1,2)] dec2_read_nat [OF dg(3,4)]
  show ?thesis
    by (simp add: q c)
qed

lemma print_parse_day:
  assumes "1000 \<le> y" "y \<le> 9999" "m < 100" "d < 100"
  defines "p \<equiv> dec y @ ''-'' @ dec2 m @ ''-'' @ dec2 d"
  shows "read_nat (take 4 p) = y" "read_nat (take 2 (drop 5 p)) = m" "read_nat (take 2 (drop 8 p)) = d"
proof -
  have y: "read_nat [digit_char (y div 1000), digit_char (y div 100), digit_char (y div 10), digit_char y] = y"
    using read_nat_dec [OF assms(1,2)] unfolding dec_four_digits [OF assms(1,2)] .
  have two: "read_nat [digit_char (n div 10), digit_char n] = n" if "n < 100" for n
    using read_nat_dec2 [OF that] unfolding dec2_def .
  show "read_nat (take 4 p) = y" "read_nat (take 2 (drop 5 p)) = m" "read_nat (take 2 (drop 8 p)) = d"
    unfolding p_def dec_four_digits [OF assms(1,2)] dec2_def
    using y two [OF assms(3)] two [OF assms(4)] by simp_all
qed

lemma print_parse_hour:
  assumes "h < 100" "mi < 100"
  defines "q \<equiv> dec2 h @ '':'' @ dec2 mi"
  shows "read_nat (take 2 q) = h" "read_nat (take 2 (drop 3 q)) = mi"
proof -
  have two: "read_nat [digit_char (n div 10), digit_char n] = n" if "n < 100" for n
    using read_nat_dec2 [OF that] unfolding dec2_def .
  show "read_nat (take 2 q) = h" "read_nat (take 2 (drop 3 q)) = mi"
    unfolding q_def dec2_def using two [OF assms(1)] two [OF assms(2)] by simp_all
qed

lemma key_Saat_shape: "is_hhmm (key_Saat (build_datetime it))"
proof -
  let ?r = "build_datetime it"
  let ?ds = "astype_str (item_date it)"
  let ?hs = "astype_str (item_hour it)"
  have saat: "key_Saat ?r =
      (case extract_hhmm ?hs of Some h \<Rightarrow> h
       | None \<Rightarrow> (case extract_T_hhmm ?ds of Some h \<Rightarrow> h | None \<Rightarrow> ''00:00''))"
    by (simp add: build_datetime_def Let_def fillna_def split: option.split)
  show ?thesis
  proof (cases "extract_hhmm ?hs")
    case (Some h)
    then show ?thesis
      unfolding saat by (auto simp: extract_hhmm_eq split: if_splits)
  next
    case None
    show ?thesis
    proof (cases "extract_T_hhmm ?ds")
      case (Some h)
      with extract_T_hhmm_sound [OF Some] None show ?thesis
        unfolding saat by auto
    next
      case N: None
      with None show ?thesis
        unfolding saat by (simp add: is_hhmm_def is_digit_def)
    qed
  qed
qed

lemma key_Tarih_shape: "key_Tarih (build_datetime it) = Some p \<Longrightarrow> is_ymd p"
  by (auto simp: build_datetime_def Let_def extract_day_eq split: if_splits)

text \<open>
  The timestamp of a row is \<open>t\<close> exactly when the day and hour texts of the row are the
  decimal prints of a valid \<open>t\<close> in range, at second 0.
\<close>

lemma key_datetime_iff:
  "key_datetime (build_datetime it) = Some t \<longleftrightarrow>
     valid_datetime t \<and> in_ns_bounds t \<and> second t = 0 \<and> microsecond t = 0
   \<and> key_Tarih (build_datetime it) = Some (dec (year t) @ ''-'' @ dec2 (month t) @ ''-'' @ dec2 (day t))
   \<and> key_Saat (build_datetime it) = dec2 (hour t) @ '':'' @ dec2 (minute t)"
  (is "?lhs \<longleftrightarrow> ?rhs")
proof -
  let ?r = "build_datetime it"
  have parse: "key_datetime ?r = to_datetime_coerce (key_Tarih ?r) (key_Saat ?r)"
    by (simp add: build_datetime_def Let_def)
  show ?thesis
  proof
    assume ?lhs
    with parse have c: "to_datetime_coerce (key_Tarih ?r) (key_Saat ?r) = Some t" by simp
    then obtain p where p: "key_Tarih ?r = Some p"
      by (cases "key_Tarih ?r") (simp_all add: to_datetime_coerce_def)
    define q where "q = key_Saat ?r"
    from c have t: "t = \<lparr>year = read_nat (take 4 p), month = read_nat (take 2 (drop 5 p)),
        day = read_nat (take 2 (drop 8 p)), hour = read_nat (take 2 q),
        minute = read_nat (take 2 (drop 3 q)), second = 0, microsecond = 0\<rparr>"
      and ok: "valid_datetime t" "in_ns_bounds t"
      unfolding p q_def by (auto simp: to_datetime_coerce_def Let_def split: if_splits)
    from in_ns_bounds_year [OF ok(2)] have "1000 \<le> read_nat (take 4 p)"
      by (simp add: t)
    from parse_print_day [OF key_Tarih_shape [OF p] this]
    have day: "dec (year t) @ ''-'' @ dec2 (month t) @ ''-'' @ dec2 (day t) = p"
      by (simp add: t del: dec.simps)
    from parse_print_hour [OF key_Saat_shape [of it, folded q_def]]
    have hour: "dec2 (hour t) @ '':'' @ dec2 (minute t) = q"
      by (simp add: t)
    from ok day hour show ?rhs
      by (simp add: p q_def [symmetric] t del: dec.simps)
  next
    assume r: ?rhs
    define p where "p = dec (year t) @ ''-'' @ dec2 (month t) @ ''-'' @ dec2 (day t)"
    define q where "q = dec2 (hour t) @ '':'' @ dec2 (minute t)"
    from r have ok: "valid_datetime t" "in_ns_bounds t" and z: "second t = 0" "microsecond t = 0"
      and p: "key_Tarih ?r = Some p" and q: "key_Saat ?r = q"
      by (simp_all add: p_def q_def)
    from in_ns_bounds_year [OF ok(2)] have y: "1000 \<le> year t" "year t \<le> 9999" by simp_all
    from valid_month_bounds [OF ok(1)] days_in_month_bounds [of "year t" "month t"]
    have md: "month t < 100" "day t < 100" by simp_all
    from ok(1) have hm: "hour t < 100" "minute t < 100" by (simp_all add: valid_datetime_def)
    have "\<lparr>year = read_nat (take 4 p), month = read_nat (take 2 (drop 5 p)),
        day = read_nat (take 2 (drop 8 p)), hour = read_nat (take 2 q),
        minute = read_nat (take 2 (drop 3 q)), second = 0, microsecond = 0\<rparr> = t"
      unfolding print_parse_day [OF y md, folded p_def] print_parse_hour [OF hm, folded q_def]
      using z by simp
    with ok show ?lhs
      unfolding parse p q by (simp add: to_datetime_coerce_def Let_def)
  qed
qed

text \<open>
  Claim C4, as the code has it. For every item, with \<open>ds\<close> the text of the date field and
  \<open>hs\<close> the text of the hour field (the text \<open>None\<close> for a missing field): the day is the
  first ten characters of \<open>ds\<close> when they have the shape \<open>dddd-dd-dd\<close>, and unknown
  otherwise; the hour is (a) the first five characters of \<open>hs\<close> when they have the shape
  \<open>dd:dd\<close>, (b) else five characters of that shape that follow a \<open>T\<close> in \<open>ds\<close>, (c) else
  \<open>00:00\<close> when no \<open>T\<close> in \<open>ds\<close> is followed by that shape. The function returns for
  every item; its timestamp is a valid one or the invalid marker \<open>None\<close>. It is the
  timestamp \<open>t\<close> exactly when the day and the hour of the row are the decimal texts of
  \<open>t\<close>, a valid timestamp at second 0 within the range of nanosecond timestamps; a row
  whose day and hour are the texts of no such timestamp carries the invalid marker. The
  three example items give \<open>(2024-03-05, 14:30)\<close>, \<open>09:15\<close> and \<open>00:00\<close>. A row with the
  invalid marker is not absent from the inner join: the marker is a key like any other,
  so the row is paired with exactly the rows of the other stream that carry the marker
  too.
\<close>

theorem time_key_normalisation:
  "(let r = build_datetime it; ds = astype_str (item_date it); hs = astype_str (item_hour it) in
      key_Tarih r = (if is_ymd (take 10 ds) then Some (take 10 ds) else None)
    \<and> (is_hhmm (take 5 hs) \<longrightarrow> key_Saat r = take 5 hs)
    \<and> (\<not> is_hhmm (take 5 hs) \<longrightarrow>
          (\<exists>pre rest. ds = pre @ CHR ''T'' # key_Saat r @ rest \<and> is_hhmm (key_Saat r))
        \<or> (key_Saat r = ''00:00'' \<and> (\<forall>pre x rest. ds = pre @ CHR ''T'' # x @ rest \<longrightarrow> \<not> is_hhmm x)))
    \<and> (key_datetime r = None
        \<or> (\<exists>t. key_datetime r = Some t \<and> valid_datetime t \<and> in_ns_bounds t \<and> key_Tarih r \<noteq> None))
    \<and> (\<forall>t. key_datetime r = Some t \<longleftrightarrow>
          (valid_datetime t \<and> in_ns_bounds t \<and> second t = 0 \<and> microsecond t = 0
         \<and> key_Tarih r = Some (dec (year t) @ ''-'' @ dec2 (month t) @ ''-'' @ dec2 (day t))
         \<and> key_Saat r = dec2 (hour t) @ '':'' @ dec2 (minute t))))
   \<and> (let r = build_datetime \<lparr>item_date = Some ''2024-03-05'', item_hour = Some ''14:30:00'', item_value = v\<rparr>
       in key_Tarih r = Some ''2024-03-05'' \<and> key_Saat r = ''14:30''
        \<and> key_datetime r = Some \<lparr>year = 2024, month = 3, day = 5, hour = 14, minute = 30,
                                   second = 0, microsecond = 0\<rparr>)
   \<and> key_Saat (build_datetime \<lparr>item_date = Some ''2024-03-05T09:15:00+03:00'', item_hour = None,
                                item_value = v\<rparr>) = ''09:15''
   \<and> key_Saat (build_datetime \<lparr>item_date = Some ''2024-03-05'', item_hour = None, item_value = v\<rparr>) = ''00:00''
   \<and> (key_datetime a = None \<longrightarrow>
        ((a, u) \<in> set (merge_inner kgup_df uretim_df) \<longleftrightarrow> a \<in> set kgup_df \<and> (None, u) \<in> set uretim_df))"
proof -
  let ?r = "build_datetime it"
  let ?ds = "astype_str (item_date it)"
  let ?hs = "astype_str (item_hour it)"
  have day: "key_Tarih ?r = (if is_ymd (take 10 ?ds) then Some (take 10 ?ds) else None)"
    by (simp add: build_datetime_def Let_def extract_day_eq)
  have saat: "key_Saat ?r =
      (case extract_hhmm ?hs of Some h \<Rightarrow> h
       | None \<Rightarrow> (case extract_T_hhmm ?ds of Some h \<Rightarrow> h | None \<Rightarrow> ''00:00''))"
    by (simp add: build_datetime_def Let_def fillna_def split: option.split)
  have prio_a: "is_hhmm (take 5 ?hs) \<longrightarrow> key_Saat ?r = take 5 ?hs"
    by (simp add: saat extract_hhmm_eq)
  have prio_bc: "(\<exists>pre rest. ?ds = pre @ CHR ''T'' # key_Saat ?r @ rest \<and> is_hhmm (key_Saat ?r))
        \<or> (key_Saat ?r = ''00:00'' \<and> (\<forall>pre x rest. ?ds = pre @ CHR ''T'' # x @ rest \<longrightarrow> \<not> is_hhmm x))"
    if no: "\<not> is_hhmm (take 5 ?hs)"
  proof (cases "extract_T_hhmm ?ds")
    case None
    with no have "key_Saat ?r = ''00:00''" by (simp add: saat extract_hhmm_eq)
    moreover have "\<forall>pre x rest. ?ds = pre @ CHR ''T'' # x @ rest \<longrightarrow> \<not> is_hhmm x"
      using extract_T_hhmm_complete [OF None] by blast
    ultimately show ?thesis by blast
  next
    case (Some h)
    with no have "key_Saat ?r = h" by (simp add: saat extract_hhmm_eq)
    with extract_T_hhmm_sound [OF Some] show ?thesis by blast
  qed
  have dt: "key_datetime ?r = None
        \<or> (\<exists>t. key_datetime ?r = Some t \<and> valid_datetime t \<and> in_ns_bounds t \<and> key_Tarih ?r \<noteq> None)"
  proof (cases "key_datetime ?r")
    case None
    then show ?thesis by simp
  next
    case (Some t)
    then have c: "to_datetime_coerce (key_Tarih ?r) (key_Saat ?r) = Some t"
      by (simp add: build_datetime_def Let_def)
    have "key_Tarih ?r \<noteq> None"
      using c by (cases "key_Tarih ?r") (simp_all add: to_datetime_coerce_def)
    with Some to_datetime_coerce_Some [OF c] show ?thesis by simp
  qed
  have ex1: "let r = build_datetime \<lparr>item_date = Some ''2024-03-05'', item_hour = Some ''14:30:00'', item_value = v\<rparr>
       in key_Tarih r = Some ''2024-03-05'' \<and> key_Saat r = ''14:30''
        \<and> key_datetime r = Some \<lparr>year = 2024, month = 3, day = 5, hour = 14, minute = 30,
                                   second = 0, microsecond = 0\<rparr>"
    by (simp add: build_datetime_def Let_def astype_str_def extract_day_def extract_hhmm_def
        is_digit_def fillna_def to_datetime_coerce_def read_nat_def digit_val_def valid_datetime_def
        valid_date_def days_in_month_def in_ns_bounds_def dt_le_def dt_less_def dt_fields_def)
  have ex2: "key_Saat (build_datetime \<lparr>item_date = Some ''2024-03-05T09:15:00+03:00'', item_hour = None,
                                item_value = v\<rparr>) = ''09:15''"
    by (simp add: build_datetime_def Let_def astype_str_def extract_hhmm_def is_digit_def fillna_def)
  have ex3: "key_Saat (build_datetime \<lparr>item_date = Some ''2024-03-05'', item_hour = None, item_value = v\<rparr>) = ''00:00''"
    by (simp add: build_datetime_def Let_def astype_str_def extract_hhmm_def is_digit_def fillna_def)
  have join: "key_datetime a = None \<longrightarrow>
        ((a, u) \<in> set (merge_inner kgup_df uretim_df) \<longleftrightarrow> a \<in> set kgup_df \<and> (None, u) \<in> set uretim_df)"
    by (simp add: merge_inner_set)
  from prio_bc have prio_bc': "\<not> is_hhmm (take 5 ?hs) \<longrightarrow>
          (\<exists>pre rest. ?ds = pre @ CHR ''T'' # key_Saat ?r @ rest \<and> is_hhmm (key_Saat ?r))
        \<or> (key_Saat ?r = ''00:00'' \<and> (\<forall>pre x rest. ?ds = pre @ CHR ''T'' # x @ rest \<longrightarrow> \<not> is_hhmm x))"
    by (rule impI)
  have text_iff: "\<forall>t. key_datetime ?r = Some t \<longleftrightarrow>
          (valid_datetime t \<and> in_ns_bounds t \<and> second t = 0 \<and> microsecond t = 0
         \<and> key_Tarih ?r = Some (dec (year t) @ ''-'' @ dec2 (month t) @ ''-'' @ dec2 (day t))
         \<and> key_Saat ?r = dec2 (hour t) @ '':'' @ dec2 (minute t))"
    by (rule allI) (rule key_datetime_iff)
  show ?thesis
    unfolding Let_def
    by (intro conjI day prio_a prio_bc' dt text_iff ex1 [unfolded Let_def, THEN conjunct1]
        ex1 [unfolded Let_def, THEN conjunct2, THEN conjunct1]
        ex1 [unfolded Let_def, THEN conjunct2, THEN conjunct2] ex2 ex3 join)
qed

text \<open>
  The theorem on three items. The item dated 30 February: its key is the invalid marker,
  and the inner join of the plan stream with the realized stream, both holding such an
  item, has the pair. The item for 1 January 2024, 00:00: its texts are the prints of
  that timestamp, which is its key. The item with the hour 25:00: its hour text is the
  print of no hour on the clock, so its key is the invalid marker.
\<close>

theorem time_key_normalisation_witness:
  "key_datetime (build_datetime bad_kgup_item) = None
   \<and> key_Tarih (build_datetime bad_kgup_item) = Some ''2024-02-30''
   \<and> key_Saat (build_datetime bad_kgup_item) = ''10:00''
   \<and> (build_datetime bad_kgup_item, Some 120)
        \<in> set (merge_inner (fetch_kgup [bad_kgup_item]) (fetch_value [bad_uretim_item]))
   \<and> key_datetime (build_datetime kgup_item) = Some jan_1
   \<and> key_Saat (build_datetime hour_25_item) = ''25:00''
   \<and> key_datetime (build_datetime hour_25_item) = None"
proof -
  note th = time_key_normalisation [of bad_kgup_item undefined "build_datetime bad_kgup_item" "Some 120"
      "fetch_kgup [bad_kgup_item]" "fetch_value [bad_uretim_item]", unfolded Let_def]
  have hs: "is_hhmm (take 5 (astype_str (item_hour bad_kgup_item)))"
    by (simp add: bad_kgup_item_def astype_str_def is_hhmm_def is_digit_def)
  have ds: "is_ymd (take 10 (astype_str (item_date bad_kgup_item)))"
    by (simp add: bad_kgup_item_def astype_str_def is_ymd_def is_digit_def)
  have key: "key_datetime (build_datetime bad_kgup_item) = None"
    by (simp add: build_datetime_def Let_def bad_kgup_item_def astype_str_def extract_day_def
        extract_hhmm_def is_digit_def fillna_def to_datetime_coerce_def read_nat_def digit_val_def
        valid_datetime_def valid_date_def days_in_month_def is_leap_def)
  have other: "(None, Some 120) \<in> set (fetch_value [bad_uretim_item])"
    by (simp add: fetch_value_def bad_uretim_item_def build_datetime_def Let_def astype_str_def extract_day_def
        extract_hhmm_def is_digit_def fillna_def to_datetime_coerce_def read_nat_def digit_val_def
        valid_datetime_def valid_date_def days_in_month_def is_leap_def)
  have mine: "build_datetime bad_kgup_item \<in> set (fetch_kgup [bad_kgup_item])"
    by (simp add: fetch_kgup_def)
  from th ds have a: "key_Tarih (build_datetime bad_kgup_item) = Some ''2024-02-30''"
    by (simp add: bad_kgup_item_def astype_str_def)
  from th hs have b: "key_Saat (build_datetime bad_kgup_item) = ''10:00''"
    by (simp add: bad_kgup_item_def astype_str_def)
  from th have "key_datetime (build_datetime bad_kgup_item) = None \<longrightarrow>
      ((build_datetime bad_kgup_item, Some 120)
         \<in> set (merge_inner (fetch_kgup [bad_kgup_item]) (fetch_value [bad_uretim_item]))
       \<longleftrightarrow> build_datetime bad_kgup_item \<in> set (fetch_kgup [bad_kgup_item])
         \<and> (None, Some 120) \<in> set (fetch_value [bad_uretim_item]))"
    by (elim conjE)
  with key other mine
  have c: "(build_datetime bad_kgup_item, Some 120)
        \<in> set (merge_inner (fetch_kgup [bad_kgup_item]) (fetch_value [bad_uretim_item]))"
    by blast
  note th_jan = time_key_normalisation [of kgup_item undefined undefined undefined "[]" "[]",
      unfolded Let_def]
  have jan_shape: "is_ymd (take 10 (astype_str (item_date kgup_item)))"
    "is_hhmm (take 5 (astype_str (item_hour kgup_item)))"
    by (simp_all add: kgup_item_def astype_str_def is_ymd_def is_hhmm_def is_digit_def)
  from th_jan jan_shape have jan_texts: "key_Tarih (build_datetime kgup_item) = Some ''2024-01-01''"
    "key_Saat (build_datetime kgup_item) = ''00:00''"
    by (simp_all add: kgup_item_def astype_str_def)
  have jan_prints: "dec (year jan_1) @ ''-'' @ dec2 (month jan_1) @ ''-'' @ dec2 (day jan_1) = ''2024-01-01''"
    "dec2 (hour jan_1) @ '':'' @ dec2 (minute jan_1) = ''00:00''"
    by (simp_all add: jan_1_def dec2_def digit_char_def)
  have jan_ok: "valid_datetime jan_1" "in_ns_bounds jan_1" "second jan_1 = 0" "microsecond jan_1 = 0"
    by (simp_all add: jan_1_def valid_datetime_def valid_date_def days_in_month_def in_ns_bounds_def
        dt_le_def dt_less_def dt_fields_def)
  from th_jan have "\<forall>t. key_datetime (build_datetime kgup_item) = Some t \<longleftrightarrow>
      (valid_datetime t \<and> in_ns_bounds t \<and> second t = 0 \<and> microsecond t = 0
     \<and> key_Tarih (build_datetime kgup_item)
         = Some (dec (year t) @ ''-'' @ dec2 (month t) @ ''-'' @ dec2 (day t))
     \<and> key_Saat (build_datetime kgup_item) = dec2 (hour t) @ '':'' @ dec2 (minute t))"
    by (elim conjE)
  from this [rule_format, of jan_1] jan_ok jan_texts jan_prints
  have d: "key_datetime (build_datetime kgup_item) = Some jan_1"
    by simp
  note th_25 = time_key_normalisation [of hour_25_item undefined undefined undefined "[]" "[]",
      unfolded Let_def]
  have shape_25: "is_hhmm (take 5 (astype_str (item_hour hour_25_item)))"
    by (simp add: hour_25_item_def astype_str_def is_hhmm_def is_digit_def)
  from th_25 shape_25 have e: "key_Saat (build_datetime hour_25_item) = ''25:00''"
    by (simp add: hour_25_item_def astype_str_def)
  from th_25 have iff_25: "\<forall>t. key_datetime (build_datetime hour_25_item) = Some t \<longleftrightarrow>
      (valid_datetime t \<and> in_ns_bounds t \<and> second t = 0 \<and> microsecond t = 0
     \<and> key_Tarih (build_datetime hour_25_item)
         = Some (dec (year t) @ ''-'' @ dec2 (month t) @ ''-'' @ dec2 (day t))
     \<and> key_Saat (build_datetime hour_25_item) = dec2 (hour t) @ '':'' @ dec2 (minute t))"
    by (elim conjE)
  have f: "key_datetime (build_datetime hour_25_item) = None"
  proof (cases "key_datetime (build_datetime hour_25_item)")
    case None
    then show ?thesis .
  next
    case (Some t)
    with iff_25 have ok: "valid_datetime t"
      and saat: "key_Saat (build_datetime hour_25_item) = dec2 (hour t) @ '':'' @ dec2 (minute t)"
      by blast+
    from saat e have "dec2 (hour t) = ''25''"
      by (simp add: dec2_def)
    then have "read_nat (dec2 (hour t)) = 25"
      by (simp add: read_nat_def digit_val_def)
    moreover from ok have "hour t < 24" by (simp add: valid_datetime_def)
    ultimately have False
      using read_nat_dec2 [of "hour t"] by simp
    then show ?thesis ..
  qed
  from key a b c d e f show ?thesis by simp
qed

text \<open>
  Claim C4 as stated fails where both streams hold an item without valid timestamp: the
  two items dated 30 February get the invalid marker, and the hourly table has their
  joined row (with unknown month and prices) instead of no row.
\<close>

theorem invalid_rows_are_joined:
  "key_datetime (build_datetime bad_kgup_item) = None
   \<and> key_datetime (build_datetime bad_uretim_item) = None
   \<and> build_plant_dataframe (fetch_kgup [bad_kgup_item]) (fetch_value [bad_uretim_item])
        (fetch_value [ptf_item]) (fetch_value [smf_item])
      = Inr [\<lparr>Tarih = Some ''2024-02-30'', Ay = None, Saat = ''10:00'', PTF = None, SMF = None,
              Poz_DF = None, Neg_DF = None, KGUP = Some 100, URETIM = Some 120,
              Dengesizlik = Some 20, GOP_Geliri = None, Dengesizlik_Tutari = None,
              Net_Gelir = None, Dengesizlik_Maliyeti = None, Birim_DM = None\<rparr>]"
proof -
  note defs = build_datetime_def Let_def astype_str_def extract_day_def extract_hhmm_def
    is_digit_def fillna_def to_datetime_coerce_def read_nat_def digit_val_def valid_datetime_def
    valid_date_def days_in_month_def is_leap_def in_ns_bounds_def dt_le_def dt_less_def dt_fields_def
  have k: "build_datetime bad_kgup_item =
      \<lparr>key_datetime = None, key_Tarih = Some ''2024-02-30'', key_Saat = ''10:00'', key_value = Some 100\<rparr>"
    by (simp add: bad_kgup_item_def defs)
  have u: "build_datetime bad_uretim_item =
      \<lparr>key_datetime = None, key_Tarih = Some ''2024-02-30'', key_Saat = ''10:00'', key_value = Some 120\<rparr>"
    by (simp add: bad_uretim_item_def defs)
  have p: "build_datetime ptf_item =
      \<lparr>key_datetime = Some \<lparr>year = 2024, month = 1, day = 1, hour = 0, minute = 0, second = 0, microsecond = 0\<rparr>,
       key_Tarih = Some ''2024-01-01'', key_Saat = ''00:00'', key_value = Some 500\<rparr>"
    by (simp add: ptf_item_def defs)
  have s: "build_datetime smf_item =
      \<lparr>key_datetime = Some \<lparr>year = 2024, month = 1, day = 1, hour = 0, minute = 0, second = 0, microsecond = 0\<rparr>,
       key_Tarih = Some ''2024-01-01'', key_Saat = ''00:00'', key_value = Some 520\<rparr>"
    by (simp add: smf_item_def defs)
  show ?thesis
    by (simp add: k u p s build_plant_dataframe_def fetch_kgup_def fetch_value_def merge_inner_def
        merge_left_def partners_def derived_columns_def Let_def nan_ops)
qed

subsection \<open>Settlement columns\<close>

text \<open>
  Claim C1. The derived columns of every joined hourly row obey the settlement formulas,
  each computed from the columns before it: \<open>Poz_DF = min(PTF, SMF) \<times> 0.97\<close>,
  \<open>Neg_DF = max(PTF, SMF) \<times> 1.03\<close>, \<open>Dengesizlik = URETIM - KGUP\<close>,
  \<open>GOP_Geliri = KGUP \<times> PTF\<close>, \<open>Dengesizlik_Tutari\<close> is 0 for an unknown imbalance, else
  the imbalance times \<open>Poz_DF\<close> (imbalance \<open>\<ge> 0\<close>) or \<open>Neg_DF\<close> (imbalance \<open>< 0\<close>),
  \<open>Net_Gelir = GOP_Geliri + Dengesizlik_Tutari\<close>,
  \<open>Dengesizlik_Maliyeti = max(0, URETIM \<times> PTF - Net_Gelir)\<close>, and \<open>Birim_DM\<close> is 0 for an
  unknown or zero \<open>URETIM\<close>, else \<open>Dengesizlik_Maliyeti / URETIM\<close>. The first conjunct
  states this between the columns of the result, unknown values included (the row-wise
  minimum and maximum skip an unknown price); the second gives the closed form for a row
  whose four inputs are known; the third is the row \<open>PTF = 500, SMF = 520, KGUP = 100,
  URETIM = 120\<close>; the last says that zero production gives a unit cost of exactly 0.
\<close>

theorem settlement_derivation:
  "(let h = derived_columns r in
      Poz_DF h = nan_mul (nanmin [PTF h, SMF h]) (Some 0.97)
    \<and> Neg_DF h = nan_mul (nanmax [PTF h, SMF h]) (Some 1.03)
    \<and> Dengesizlik h = nan_sub (URETIM h) (KGUP h)
    \<and> GOP_Geliri h = nan_mul (KGUP h) (PTF h)
    \<and> Dengesizlik_Tutari h =
        (case Dengesizlik h of
           None \<Rightarrow> Some 0
         | Some d \<Rightarrow> if d \<ge> 0 then nan_mul (Some d) (Poz_DF h) else nan_mul (Some d) (Neg_DF h))
    \<and> Net_Gelir h = nan_add (GOP_Geliri h) (Dengesizlik_Tutari h)
    \<and> Dengesizlik_Maliyeti h = map_option (max 0) (nan_sub (nan_mul (URETIM h) (PTF h)) (Net_Gelir h))
    \<and> Birim_DM h =
        (case URETIM h of
           None \<Rightarrow> Some 0
         | Some u \<Rightarrow> if u = 0 then Some 0 else nan_div (Dengesizlik_Maliyeti h) (Some u)))
   \<and> (let h = derived_columns \<lparr>j_datetime = t, j_Tarih = ta, j_Saat = sa, j_KGUP = Some k,
                                j_URETIM = Some u, j_PTF = Some p, j_SMF = Some s\<rparr>;
           tutar = (if u - k \<ge> 0 then (u - k) * (min p s * 0.97) else (u - k) * (max p s * 1.03));
           net = k * p + tutar;
           maliyet = max 0 (u * p - net)
       in Poz_DF h = Some (min p s * 0.97) \<and> Neg_DF h = Some (max p s * 1.03)
        \<and> Dengesizlik h = Some (u - k) \<and> GOP_Geliri h = Some (k * p)
        \<and> Dengesizlik_Tutari h = Some tutar \<and> Net_Gelir h = Some net
        \<and> Dengesizlik_Maliyeti h = Some maliyet
        \<and> Birim_DM h = Some (if u = 0 then 0 else maliyet / u))
   \<and> (let h = derived_columns \<lparr>j_datetime = t, j_Tarih = ta, j_Saat = sa, j_KGUP = Some 100,
                                j_URETIM = Some 120, j_PTF = Some 500, j_SMF = Some 520\<rparr>
       in Poz_DF h = Some 485 \<and> Neg_DF h = Some 535.6 \<and> Dengesizlik h = Some 20
        \<and> GOP_Geliri h = Some 50000 \<and> Dengesizlik_Tutari h = Some 9700
        \<and> Net_Gelir h = Some 59700 \<and> Dengesizlik_Maliyeti h = Some 300 \<and> Birim_DM h = Some 2.5)
   \<and> (j_URETIM r = Some 0 \<longrightarrow> Birim_DM (derived_columns r) = Some 0)"
proof -
  have general: "let h = derived_columns r in
      Poz_DF h = nan_mul (nanmin [PTF h, SMF h]) (Some 0.97)
    \<and> Neg_DF h = nan_mul (nanmax [PTF h, SMF h]) (Some 1.03)
    \<and> Dengesizlik h = nan_sub (URETIM h) (KGUP h)
    \<and> GOP_Geliri h = nan_mul (KGUP h) (PTF h)
    \<and> Dengesizlik_Tutari h =
        (case Dengesizlik h of
           None \<Rightarrow> Some 0
         | Some d \<Rightarrow> if d \<ge> 0 then nan_mul (Some d) (Poz_DF h) else nan_mul (Some d) (Neg_DF h))
    \<and> Net_Gelir h = nan_add (GOP_Geliri h) (Dengesizlik_Tutari h)
    \<and> Dengesizlik_Maliyeti h = map_option (max 0) (nan_sub (nan_mul (URETIM h) (PTF h)) (Net_Gelir h))
    \<and> Birim_DM h =
        (case URETIM h of
           None \<Rightarrow> Some 0
         | Some u \<Rightarrow> if u = 0 then Some 0 else nan_div (Dengesizlik_Maliyeti h) (Some u))"
    by (simp add: derived_columns_def Let_def to_numeric_def imbalance_amount_def unit_cost_def
        clip_lower_def split: option.split)
  have closed_form: "let h = derived_columns \<lparr>j_datetime = t, j_Tarih = ta, j_Saat = sa, j_KGUP = Some k,
                                j_URETIM = Some u, j_PTF = Some p, j_SMF = Some s\<rparr>;
           tutar = (if u - k \<ge> 0 then (u - k) * (min p s * 0.97) else (u - k) * (max p s * 1.03));
           net = k * p + tutar;
           maliyet = max 0 (u * p - net)
       in Poz_DF h = Some (min p s * 0.97) \<and> Neg_DF h = Some (max p s * 1.03)
        \<and> Dengesizlik h = Some (u - k) \<and> GOP_Geliri h = Some (k * p)
        \<and> Dengesizlik_Tutari h = Some tutar \<and> Net_Gelir h = Some net
        \<and> Dengesizlik_Maliyeti h = Some maliyet
        \<and> Birim_DM h = Some (if u = 0 then 0 else maliyet / u)"
    for k u p s
    by (simp add: derived_columns_def Let_def nan_ops min_def max_def)
  have example: "let h = derived_columns \<lparr>j_datetime = t, j_Tarih = ta, j_Saat = sa, j_KGUP = Some 100,
                                j_URETIM = Some 120, j_PTF = Some 500, j_SMF = Some 520\<rparr>
       in Poz_DF h = Some 485 \<and> Neg_DF h = Some 535.6 \<and> Dengesizlik h = Some 20
        \<and> GOP_Geliri h = Some 50000 \<and> Dengesizlik_Tutari h = Some 9700
        \<and> Net_Gelir h = Some 59700 \<and> Dengesizlik_Maliyeti h = Some 300 \<and> Birim_DM h = Some 2.5"
    by (simp add: derived_columns_def Let_def nan_ops)
  have zero: "j_URETIM r = Some 0 \<longrightarrow> Birim_DM (derived_columns r) = Some 0"
    by (simp add: derived_columns_def Let_def to_numeric_def unit_cost_def)
  from general closed_form example zero show ?thesis by blast
qed

text \<open>
  The theorem at a row with zero production (unit cost 0 although the cost is 1780) and
  at a row with under-generation, \<open>PTF = 500, SMF = 520, KGUP = 100, URETIM = 80\<close>.
\<close>

theorem settlement_derivation_witness:
  "Birim_DM (derived_columns \<lparr>j_datetime = None, j_Tarih = None, j_Saat = ''00:00'', j_KGUP = Some 50,
       j_URETIM = Some 0, j_PTF = Some 500, j_SMF = Some 520\<rparr>) = Some 0
   \<and> Dengesizlik_Maliyeti (derived_columns \<lparr>j_datetime = None, j_Tarih = None, j_Saat = ''00:00'',
       j_KGUP = Some 50, j_URETIM = Some 0, j_PTF = Some 500, j_SMF = Some 520\<rparr>) = Some 1780
   \<and> Dengesizlik_Tutari (derived_columns \<lparr>j_datetime = None, j_Tarih = None, j_Saat = ''00:00'',
       j_KGUP = Some 100, j_URETIM = Some 80, j_PTF = Some 500, j_SMF = Some 520\<rparr>) = Some (- 10712)
   \<and> Birim_DM (derived_columns \<lparr>j_datetime = None, j_Tarih = None, j_Saat = ''00:00'',
       j_KGUP = Some 100, j_URETIM = Some 80, j_PTF = Some 500, j_SMF = Some 520\<rparr>) = Some 8.9"
proof -
  let ?r = "\<lparr>j_datetime = None, j_Tarih = None, j_Saat = ''00:00'', j_KGUP = Some 50,
       j_URETIM = Some 0, j_PTF = Some 500, j_SMF = Some 520\<rparr>"
  let ?q = "\<lparr>j_datetime = None, j_Tarih = None, j_Saat = ''00:00'', j_KGUP = Some 100,
       j_URETIM = Some 80, j_PTF = Some 500, j_SMF = Some 520\<rparr>"
  note zero = settlement_derivation [of ?r None None "''00:00''" 50 0 500 520]
  note zero_closed = zero [THEN conjunct2, THEN conjunct1]
  note zero_unit = zero [THEN conjunct2, THEN conjunct2, THEN conjunct2]
  note under = settlement_derivation [of ?r None None "''00:00''" 100 80 500 520,
      THEN conjunct2, THEN conjunct1]
  have u0: "j_URETIM ?r = Some 0" by simp
  have a: "Birim_DM (derived_columns ?r) = Some 0"
    using zero_unit u0 by blast
  have b: "Dengesizlik_Maliyeti (derived_columns ?r) = Some 1780"
    using zero_closed by (simp add: Let_def)
  have c: "Dengesizlik_Tutari (derived_columns ?q) = Some (- 10712)"
    using under by (simp add: Let_def)
  have d: "Birim_DM (derived_columns ?q) = Some 8.9"
    using under by (simp add: Let_def)
  from a b c d show ?thesis by simp
qed

subsection \<open>Joining the four streams\<close>

lemma build_datetime_examples:
  "build_datetime kgup_item =
      \<lparr>key_datetime = Some \<lparr>year = 2024, month = 1, day = 1, hour = 0, minute = 0, second = 0, microsecond = 0\<rparr>,
       key_Tarih = Some ''2024-01-01'', key_Saat = ''00:00'', key_value = Some 100\<rparr>"
  "build_datetime uretim_item =
      \<lparr>key_datetime = Some \<lparr>year = 2024, month = 1, day = 1, hour = 0, minute = 0, second = 0, microsecond = 0\<rparr>,
       key_Tarih = Some ''2024-01-01'', key_Saat = ''00:00'', key_value = Some 120\<rparr>"
  "build_datetime ptf_item =
      \<lparr>key_datetime = Some \<lparr>year = 2024, month = 1, day = 1, hour = 0, minute = 0, second = 0, microsecond = 0\<rparr>,
       key_Tarih = Some ''2024-01-01'', key_Saat = ''00:00'', key_value = Some 500\<rparr>"
  "build_datetime smf_item =
      \<lparr>key_datetime = Some \<lparr>year = 2024, month = 1, day = 1, hour = 0, minute = 0, second = 0, microsecond = 0\<rparr>,
       key_Tarih = Some ''2024-01-01'', key_Saat = ''00:00'', key_value = Some 520\<rparr>"
  "build_datetime ptf_item_next_hour =
      \<lparr>key_datetime = Some \<lparr>year = 2024, month = 1, day = 1, hour = 1, minute = 0, second = 0, microsecond = 0\<rparr>,
       key_Tarih = Some ''2024-01-01'', key_Saat = ''01:00'', key_value = Some 510\<rparr>"
  by (simp_all add: kgup_item_def uretim_item_def ptf_item_def smf_item_def ptf_item_next_hour_def
      build_datetime_def Let_def astype_str_def extract_day_def extract_hhmm_def
      is_digit_def fillna_def to_datetime_coerce_def read_nat_def digit_val_def valid_datetime_def
      valid_date_def days_in_month_def is_leap_def in_ns_bounds_def dt_le_def dt_less_def dt_fields_def)

text \<open>
  Claim C6 at its failing input. The plan and the realized stream hold the hour
  2024-01-01 00:00 and the price stream is empty: the method raises \<^verbatim>\<open>KeyError\<close> instead
  of keeping the hour with an unknown price. With a price stream that holds another hour
  only, the same hour is kept with \<open>PTF\<close> unknown; with the price of the hour it is kept
  with \<open>PTF = 500\<close>; an empty plan or realized stream gives the empty table; and an hour
  that only the plan stream holds is dropped.
\<close>

theorem empty_price_stream_raises:
  "build_plant_dataframe (fetch_kgup [kgup_item]) (fetch_value [uretim_item]) (fetch_value [])
      (fetch_value [smf_item]) = Inl (KeyError ''PTF'')
   \<and> map (\<lambda>r. (Tarih r, Saat r, PTF r, SMF r, KGUP r, URETIM r))
        (projr (build_plant_dataframe (fetch_kgup [kgup_item]) (fetch_value [uretim_item])
           (fetch_value [ptf_item_next_hour]) (fetch_value [smf_item])))
      = [(Some ''2024-01-01'', ''00:00'', None, Some 520, Some 100, Some 120)]
   \<and> map (\<lambda>r. (Tarih r, Saat r, PTF r, SMF r, KGUP r, URETIM r))
        (projr (build_plant_dataframe (fetch_kgup [kgup_item]) (fetch_value [uretim_item])
           (fetch_value [ptf_item]) (fetch_value [smf_item])))
      = [(Some ''2024-01-01'', ''00:00'', Some 500, Some 520, Some 100, Some 120)]
   \<and> build_plant_dataframe (fetch_kgup []) (fetch_value [uretim_item]) (fetch_value [ptf_item])
        (fetch_value [smf_item]) = Inr []
   \<and> build_plant_dataframe (fetch_kgup [kgup_item]) (fetch_value []) (fetch_value [ptf_item])
        (fetch_value [smf_item]) = Inr []
   \<and> build_plant_dataframe (fetch_kgup [bad_kgup_item, kgup_item]) (fetch_value [uretim_item])
        (fetch_value [ptf_item]) (fetch_value [smf_item])
      = build_plant_dataframe (fetch_kgup [kgup_item]) (fetch_value [uretim_item])
        (fetch_value [ptf_item]) (fetch_value [smf_item])"
proof -
  have bad: "key_datetime (build_datetime bad_kgup_item) = None"
    by (simp add: build_datetime_def Let_def bad_kgup_item_def astype_str_def extract_day_def
        extract_hhmm_def is_digit_def fillna_def to_datetime_coerce_def read_nat_def digit_val_def
        valid_datetime_def valid_date_def days_in_month_def is_leap_def)
  note defs = build_plant_dataframe_def fetch_kgup_def fetch_value_def merge_inner_def
    merge_left_def partners_def Let_def build_datetime_examples
  have a: "build_plant_dataframe (fetch_kgup [kgup_item]) (fetch_value [uretim_item]) (fetch_value [])
      (fetch_value [smf_item]) = Inl (KeyError ''PTF'')"
    by (simp add: defs)
  have b: "map (\<lambda>r. (Tarih r, Saat r, PTF r, SMF r, KGUP r, URETIM r))
        (projr (build_plant_dataframe (fetch_kgup [kgup_item]) (fetch_value [uretim_item])
           (fetch_value [ptf_item_next_hour]) (fetch_value [smf_item])))
      = [(Some ''2024-01-01'', ''00:00'', None, Some 520, Some 100, Some 120)]"
    by (simp add: defs derived_columns_def to_numeric_def)
  have c: "map (\<lambda>r. (Tarih r, Saat r, PTF r, SMF r, KGUP r, URETIM r))
        (projr (build_plant_dataframe (fetch_kgup [kgup_item]) (fetch_value [uretim_item])
           (fetch_value [ptf_item]) (fetch_value [smf_item])))
      = [(Some ''2024-01-01'', ''00:00'', Some 500, Some 520, Some 100, Some 120)]"
    by (simp add: defs derived_columns_def to_numeric_def)
  have d: "build_plant_dataframe (fetch_kgup []) (fetch_value [uretim_item]) (fetch_value [ptf_item])
        (fetch_value [smf_item]) = Inr []"
    "build_plant_dataframe (fetch_kgup [kgup_item]) (fetch_value []) (fetch_value [ptf_item])
        (fetch_value [smf_item]) = Inr []"
    by (simp_all add: build_plant_dataframe_def fetch_kgup_def fetch_value_def)
  have e: "build_plant_dataframe (fetch_kgup [bad_kgup_item, kgup_item]) (fetch_value [uretim_item])
        (fetch_value [ptf_item]) (fetch_value [smf_item])
      = build_plant_dataframe (fetch_kgup [kgup_item]) (fetch_value [uretim_item])
        (fetch_value [ptf_item]) (fetch_value [smf_item])"
    by (simp add: defs bad)
  from a b c d e show ?thesis by simp
qed

subsection \<open>Monthly summary\<close>

lemma summary_months_nth:
  "i < 12 \<Longrightarrow> build_monthly_summary df ! i = summary_month df (Suc i)"
  by (simp add: build_monthly_summary_def Let_def nth_append)

lemma summary_total_nth:
  "build_monthly_summary df ! 12 = total_row (map (summary_month df) [1..<13])"
  by (simp add: build_monthly_summary_def Let_def nth_append)

lemma summary_take_12:
  "take 12 (build_monthly_summary df) = map (summary_month df) [1..<13]"
  by (simp add: build_monthly_summary_def Let_def)

text \<open>A monthly sum is the sum of the known values of the month's hourly rows.\<close>

lemma group_sum_rows:
  "group_sum df col m = (\<Sum>r\<leftarrow>filter (\<lambda>r. Ay r = Some m) df. case col r of None \<Rightarrow> 0 | Some x \<Rightarrow> x)"
  by (simp add: group_sum_nansum nansum_as_sum)

lemma year_sum_rows:
  "sum_list (map (\<lambda>m. group_sum df col m) [1..<13])
   = (\<Sum>r\<leftarrow>filter (\<lambda>r. Ay r \<in> Some ` {1..12}) df. case col r of None \<Rightarrow> 0 | Some x \<Rightarrow> x)"
  unfolding group_sum_rows by (rule months_sum_year)

text \<open>
  Claim C5. Whatever the hourly table, the summary has 13 rows: the months 1 to 12 in
  order, then the row \<open>Toplam\<close>. With \<open>known_sum col rs\<close> the sum of the known values of
  the column \<open>col\<close> over the hourly rows \<open>rs\<close>: each of the six summed columns of the row
  of month \<open>i + 1\<close> is the sum over the hourly rows of that month, and its two unit ratios
  are the month's revenue and imbalance cost divided by the month's production, 0 when
  that production is 0; a month without input rows has all six sums 0 (and both ratios
  0). Each summed column of \<open>Toplam\<close> is the sum of the twelve monthly values above it,
  which is the sum over the hourly rows of the months 1 to 12; its two unit ratios are
  the total revenue and the total imbalance cost divided by the total production, and 0
  when the total production is 0.
\<close>

theorem monthly_summary_rows:
  "(let out = build_monthly_summary df; months = take 12 out; tot = out ! 12;
        known_sum = (\<lambda>col rs. \<Sum>r\<leftarrow>rs. case col r of None \<Rightarrow> 0 | Some x \<Rightarrow> (x :: real));
        hours_of = (\<lambda>m. filter (\<lambda>r. Ay r = Some m) df);
        year_hours = filter (\<lambda>r. Ay r \<in> Some ` {1..12}) df in
      length out = 13
    \<and> (\<forall>i < 12. s_Ay (out ! i) = Month (i + 1))
    \<and> (\<forall>i < 12.
          s_Uretim (out ! i) = known_sum URETIM (hours_of (i + 1))
        \<and> s_Dengesizlik (out ! i) = known_sum Dengesizlik (hours_of (i + 1))
        \<and> s_GOP_Geliri (out ! i) = known_sum GOP_Geliri (hours_of (i + 1))
        \<and> s_Dengesizlik_Tutari (out ! i) = known_sum Dengesizlik_Tutari (hours_of (i + 1))
        \<and> s_Toplam_Gelir (out ! i) = known_sum Net_Gelir (hours_of (i + 1))
        \<and> s_Dengesizlik_Maliyeti (out ! i) = known_sum Dengesizlik_Maliyeti (hours_of (i + 1))
        \<and> s_Birim_Gelir (out ! i) =
            (if known_sum URETIM (hours_of (i + 1)) = 0 then 0
             else known_sum Net_Gelir (hours_of (i + 1)) / known_sum URETIM (hours_of (i + 1)))
        \<and> s_Birim_Deng_Mal (out ! i) =
            (if known_sum URETIM (hours_of (i + 1)) = 0 then 0
             else known_sum Dengesizlik_Maliyeti (hours_of (i + 1)) / known_sum URETIM (hours_of (i + 1))))
    \<and> (\<forall>i < 12. month_rows df (i + 1) = [] \<longrightarrow>
          s_Uretim (out ! i) = 0 \<and> s_Dengesizlik (out ! i) = 0 \<and> s_GOP_Geliri (out ! i) = 0
        \<and> s_Dengesizlik_Tutari (out ! i) = 0 \<and> s_Toplam_Gelir (out ! i) = 0
        \<and> s_Dengesizlik_Maliyeti (out ! i) = 0
        \<and> s_Birim_Gelir (out ! i) = 0 \<and> s_Birim_Deng_Mal (out ! i) = 0)
    \<and> s_Ay tot = Toplam
    \<and> s_Uretim tot = sum_list (map s_Uretim months)
    \<and> s_Dengesizlik tot = sum_list (map s_Dengesizlik months)
    \<and> s_GOP_Geliri tot = sum_list (map s_GOP_Geliri months)
    \<and> s_Dengesizlik_Tutari tot = sum_list (map s_Dengesizlik_Tutari months)
    \<and> s_Toplam_Gelir tot = sum_list (map s_Toplam_Gelir months)
    \<and> s_Dengesizlik_Maliyeti tot = sum_list (map s_Dengesizlik_Maliyeti months)
    \<and> sum_list (map s_Uretim months) = known_sum URETIM year_hours
    \<and> sum_list (map s_Dengesizlik months) = known_sum Dengesizlik year_hours
    \<and> sum_list (map s_GOP_Geliri months) = known_sum GOP_Geliri year_hours
    \<and> sum_list (map s_Dengesizlik_Tutari months) = known_sum Dengesizlik_Tutari year_hours
    \<and> sum_list (map s_Toplam_Gelir months) = known_sum Net_Gelir year_hours
    \<and> sum_list (map s_Dengesizlik_Maliyeti months) = known_sum Dengesizlik_Maliyeti year_hours
    \<and> s_Birim_Gelir tot =
        (if sum_list (map s_Uretim months) = 0 then 0
         else sum_list (map s_Toplam_Gelir months) / sum_list (map s_Uretim months))
    \<and> s_Birim_Deng_Mal tot =
        (if sum_list (map s_Uretim months) = 0 then 0
         else sum_list (map s_Dengesizlik_Maliyeti months) / sum_list (map s_Uretim months)))"
proof -
  let ?out = "build_monthly_summary df"
  let ?ms = "map (summary_month df) [1..<13]"
  let ?sum = "\<lambda>col rs. \<Sum>r\<leftarrow>rs. case col r of None \<Rightarrow> 0 | Some x \<Rightarrow> (x :: real)"
  let ?hours = "\<lambda>m. filter (\<lambda>r. Ay r = Some m) df"
  let ?year = "filter (\<lambda>r. Ay r \<in> Some ` {1..12}) df"
  have len: "length ?out = 13"
    by (simp add: build_monthly_summary_def Let_def)
  have labels: "\<forall>i < 12. s_Ay (?out ! i) = Month (i + 1)"
    by (simp add: summary_months_nth summary_month_def Let_def)
  have rows: "\<forall>i < 12.
          s_Uretim (?out ! i) = ?sum URETIM (?hours (i + 1))
        \<and> s_Dengesizlik (?out ! i) = ?sum Dengesizlik (?hours (i + 1))
        \<and> s_GOP_Geliri (?out ! i) = ?sum GOP_Geliri (?hours (i + 1))
        \<and> s_Dengesizlik_Tutari (?out ! i) = ?sum Dengesizlik_Tutari (?hours (i + 1))
        \<and> s_Toplam_Gelir (?out ! i) = ?sum Net_Gelir (?hours (i + 1))
        \<and> s_Dengesizlik_Maliyeti (?out ! i) = ?sum Dengesizlik_Maliyeti (?hours (i + 1))
        \<and> s_Birim_Gelir (?out ! i) =
            (if ?sum URETIM (?hours (i + 1)) = 0 then 0
             else ?sum Net_Gelir (?hours (i + 1)) / ?sum URETIM (?hours (i + 1)))
        \<and> s_Birim_Deng_Mal (?out ! i) =
            (if ?sum URETIM (?hours (i + 1)) = 0 then 0
             else ?sum Dengesizlik_Maliyeti (?hours (i + 1)) / ?sum URETIM (?hours (i + 1)))"
    by (simp add: summary_months_nth summary_month_def Let_def group_sum_rows unit_metric_def)
  have empty: "\<forall>i < 12. month_rows df (i + 1) = [] \<longrightarrow>
          s_Uretim (?out ! i) = 0 \<and> s_Dengesizlik (?out ! i) = 0 \<and> s_GOP_Geliri (?out ! i) = 0
        \<and> s_Dengesizlik_Tutari (?out ! i) = 0 \<and> s_Toplam_Gelir (?out ! i) = 0
        \<and> s_Dengesizlik_Maliyeti (?out ! i) = 0
        \<and> s_Birim_Gelir (?out ! i) = 0 \<and> s_Birim_Deng_Mal (?out ! i) = 0"
    by (simp add: summary_months_nth summary_month_def Let_def group_sum_def unit_metric_def)
  have tot: "?out ! 12 = total_row ?ms" "take 12 ?out = ?ms"
    by (rule summary_total_nth, rule summary_take_12)
  have sums: "s_Ay (total_row ?ms) = Toplam"
    "s_Uretim (total_row ?ms) = sum_list (map s_Uretim ?ms)"
    "s_Dengesizlik (total_row ?ms) = sum_list (map s_Dengesizlik ?ms)"
    "s_GOP_Geliri (total_row ?ms) = sum_list (map s_GOP_Geliri ?ms)"
    "s_Dengesizlik_Tutari (total_row ?ms) = sum_list (map s_Dengesizlik_Tutari ?ms)"
    "s_Toplam_Gelir (total_row ?ms) = sum_list (map s_Toplam_Gelir ?ms)"
    "s_Dengesizlik_Maliyeti (total_row ?ms) = sum_list (map s_Dengesizlik_Maliyeti ?ms)"
    "s_Birim_Gelir (total_row ?ms) =
        (if sum_list (map s_Uretim ?ms) = 0 then 0
         else sum_list (map s_Toplam_Gelir ?ms) / sum_list (map s_Uretim ?ms))"
    "s_Birim_Deng_Mal (total_row ?ms) =
        (if sum_list (map s_Uretim ?ms) = 0 then 0
         else sum_list (map s_Dengesizlik_Maliyeti ?ms) / sum_list (map s_Uretim ?ms))"
    by (simp_all only: total_row_def Let_def summary_row.simps)
  have cols: "map s_Uretim ?ms = map (\<lambda>m. group_sum df URETIM m) [1..<13]"
    "map s_Dengesizlik ?ms = map (\<lambda>m. group_sum df Dengesizlik m) [1..<13]"
    "map s_GOP_Geliri ?ms = map (\<lambda>m. group_sum df GOP_Geliri m) [1..<13]"
    "map s_Dengesizlik_Tutari ?ms = map (\<lambda>m. group_sum df Dengesizlik_Tutari m) [1..<13]"
    "map s_Toplam_Gelir ?ms = map (\<lambda>m. group_sum df Net_Gelir m) [1..<13]"
    "map s_Dengesizlik_Maliyeti ?ms = map (\<lambda>m. group_sum df Dengesizlik_Maliyeti m) [1..<13]"
    by (simp_all add: summary_month_def Let_def comp_def)
  have year: "sum_list (map s_Uretim ?ms) = ?sum URETIM ?year"
    "sum_list (map s_Dengesizlik ?ms) = ?sum Dengesizlik ?year"
    "sum_list (map s_GOP_Geliri ?ms) = ?sum GOP_Geliri ?year"
    "sum_list (map s_Dengesizlik_Tutari ?ms) = ?sum Dengesizlik_Tutari ?year"
    "sum_list (map s_Toplam_Gelir ?ms) = ?sum Net_Gelir ?year"
    "sum_list (map s_Dengesizlik_Maliyeti ?ms) = ?sum Dengesizlik_Maliyeti ?year"
    unfolding cols by (rule year_sum_rows)+
  show ?thesis
    unfolding Let_def tot
    by (intro conjI len labels rows empty sums year)
qed

text \<open>
  The theorem on the three hours of March (12, 7 and 10 MWh earning 5000, 3000 and 4000):
  the row of March sums them to 29 MWh and 12000, with unit revenue 12000 / 29, and so
  does \<open>Toplam\<close>. On the table of two hours (10 MWh earning 100 in January, 30 MWh
  earning 600 in February) March has no rows and sums 0; the total unit revenue is
  700 / 40 = 17.5, while the mean of the twelve monthly ratios (10, 20 and ten times 0)
  is 2.5.
\<close>

theorem monthly_summary_rows_witness:
  "s_Uretim (build_monthly_summary march_hours ! 2) = 29
   \<and> s_Toplam_Gelir (build_monthly_summary march_hours ! 2) = 12000
   \<and> s_Dengesizlik_Maliyeti (build_monthly_summary march_hours ! 2) = 90
   \<and> s_Birim_Gelir (build_monthly_summary march_hours ! 2) = 12000 / 29
   \<and> s_Uretim (build_monthly_summary march_hours ! 12) = 29
   \<and> s_Toplam_Gelir (build_monthly_summary march_hours ! 12) = 12000
   \<and> s_Uretim (build_monthly_summary two_hours ! 2) = 0
   \<and> s_Toplam_Gelir (build_monthly_summary two_hours ! 2) = 0
   \<and> s_Ay (build_monthly_summary two_hours ! 2) = Month 3
   \<and> s_Birim_Gelir (build_monthly_summary two_hours ! 12) = 17.5
   \<and> sum_list (map s_Birim_Gelir (take 12 (build_monthly_summary two_hours))) / 12 = 2.5"
proof -
  note th = monthly_summary_rows [of two_hours, unfolded Let_def]
  note th_march = monthly_summary_rows [of march_hours, unfolded Let_def]
  have march: "filter (\<lambda>r. Ay r = Some (2 + 1)) march_hours = march_hours"
    "filter (\<lambda>r. Ay r \<in> Some ` {1..12}) march_hours = march_hours"
    by (simp_all add: march_hours_def)
  have known: "(\<Sum>r\<leftarrow>march_hours. case URETIM r of None \<Rightarrow> 0 | Some x \<Rightarrow> x) = 29"
    "(\<Sum>r\<leftarrow>march_hours. case Net_Gelir r of None \<Rightarrow> 0 | Some x \<Rightarrow> x) = 12000"
    "(\<Sum>r\<leftarrow>march_hours. case Dengesizlik_Maliyeti r of None \<Rightarrow> 0 | Some x \<Rightarrow> x) = 90"
    by (simp_all add: march_hours_def)
  from th_march have "\<forall>i < 12.
        s_Uretim (build_monthly_summary march_hours ! i)
          = (\<Sum>r\<leftarrow>filter (\<lambda>r. Ay r = Some (i + 1)) march_hours. case URETIM r of None \<Rightarrow> 0 | Some x \<Rightarrow> x)
      \<and> s_Toplam_Gelir (build_monthly_summary march_hours ! i)
          = (\<Sum>r\<leftarrow>filter (\<lambda>r. Ay r = Some (i + 1)) march_hours. case Net_Gelir r of None \<Rightarrow> 0 | Some x \<Rightarrow> x)
      \<and> s_Dengesizlik_Maliyeti (build_monthly_summary march_hours ! i)
          = (\<Sum>r\<leftarrow>filter (\<lambda>r. Ay r = Some (i + 1)) march_hours. case Dengesizlik_Maliyeti r of None \<Rightarrow> 0 | Some x \<Rightarrow> x)
      \<and> s_Birim_Gelir (build_monthly_summary march_hours ! i)
          = (if (\<Sum>r\<leftarrow>filter (\<lambda>r. Ay r = Some (i + 1)) march_hours. case URETIM r of None \<Rightarrow> 0 | Some x \<Rightarrow> x) = 0
             then 0
             else (\<Sum>r\<leftarrow>filter (\<lambda>r. Ay r = Some (i + 1)) march_hours. case Net_Gelir r of None \<Rightarrow> 0 | Some x \<Rightarrow> x)
                  / (\<Sum>r\<leftarrow>filter (\<lambda>r. Ay r = Some (i + 1)) march_hours. case URETIM r of None \<Rightarrow> 0 | Some x \<Rightarrow> x))"
    by blast
  from this [rule_format, of 2]
  have m: "s_Uretim (build_monthly_summary march_hours ! 2) = 29
      \<and> s_Toplam_Gelir (build_monthly_summary march_hours ! 2) = 12000
      \<and> s_Dengesizlik_Maliyeti (build_monthly_summary march_hours ! 2) = 90
      \<and> s_Birim_Gelir (build_monthly_summary march_hours ! 2) = 12000 / 29"
    unfolding march known by simp
  from th_march
  have "s_Uretim (build_monthly_summary march_hours ! 12)
          = sum_list (map s_Uretim (take 12 (build_monthly_summary march_hours)))"
    "sum_list (map s_Uretim (take 12 (build_monthly_summary march_hours)))
          = (\<Sum>r\<leftarrow>filter (\<lambda>r. Ay r \<in> Some ` {1..12}) march_hours. case URETIM r of None \<Rightarrow> 0 | Some x \<Rightarrow> x)"
    "s_Toplam_Gelir (build_monthly_summary march_hours ! 12)
          = sum_list (map s_Toplam_Gelir (take 12 (build_monthly_summary march_hours)))"
    "sum_list (map s_Toplam_Gelir (take 12 (build_monthly_summary march_hours)))
          = (\<Sum>r\<leftarrow>filter (\<lambda>r. Ay r \<in> Some ` {1..12}) march_hours. case Net_Gelir r of None \<Rightarrow> 0 | Some x \<Rightarrow> x)"
    by blast+
  then have t: "s_Uretim (build_monthly_summary march_hours ! 12) = 29
      \<and> s_Toplam_Gelir (build_monthly_summary march_hours ! 12) = 12000"
    unfolding march known by simp
  have none: "month_rows two_hours (2 + 1) = []"
    by (simp add: month_rows_def two_hours_def)
  have a: "s_Uretim (build_monthly_summary two_hours ! 2) = 0
      \<and> s_Toplam_Gelir (build_monthly_summary two_hours ! 2) = 0"
  proof -
    from th have "\<forall>i < 12. month_rows two_hours (i + 1) = [] \<longrightarrow>
        s_Uretim (build_monthly_summary two_hours ! i) = 0
      \<and> s_Dengesizlik (build_monthly_summary two_hours ! i) = 0
      \<and> s_GOP_Geliri (build_monthly_summary two_hours ! i) = 0
      \<and> s_Dengesizlik_Tutari (build_monthly_summary two_hours ! i) = 0
      \<and> s_Toplam_Gelir (build_monthly_summary two_hours ! i) = 0
      \<and> s_Dengesizlik_Maliyeti (build_monthly_summary two_hours ! i) = 0
      \<and> s_Birim_Gelir (build_monthly_summary two_hours ! i) = 0
      \<and> s_Birim_Deng_Mal (build_monthly_summary two_hours ! i) = 0"
      by blast
    from this [rule_format, of 2] none show ?thesis by simp
  qed
  from th have "\<forall>i < 12. s_Ay (build_monthly_summary two_hours ! i) = Month (i + 1)"
    by blast
  from this [rule_format, of 2]
  have b: "s_Ay (build_monthly_summary two_hours ! 2) = Month 3"
    by simp
  have ms: "take 12 (build_monthly_summary two_hours) = map (summary_month two_hours) [1..<13]"
    by (rule summary_take_12)
  have upt: "[1..<13] = [1, 2, 3, 4, 5, 6, 7, 8, 9, 10, 11, 12 :: nat]"
    by (simp add: upt_rec)
  have vals: "sum_list (map s_Uretim (map (summary_month two_hours) [1..<13])) = 40"
    "sum_list (map s_Toplam_Gelir (map (summary_month two_hours) [1..<13])) = 700"
    "sum_list (map s_Birim_Gelir (map (summary_month two_hours) [1..<13])) = 30"
    unfolding upt
    by (simp_all add: summary_month_def Let_def group_sum_def month_rows_def two_hours_def
        nansum_def known_def unit_metric_def)
  from th have "s_Birim_Gelir (build_monthly_summary two_hours ! 12) =
        (if sum_list (map s_Uretim (take 12 (build_monthly_summary two_hours))) = 0 then 0
         else sum_list (map s_Toplam_Gelir (take 12 (build_monthly_summary two_hours)))
              / sum_list (map s_Uretim (take 12 (build_monthly_summary two_hours))))"
    by blast
  then have c: "s_Birim_Gelir (build_monthly_summary two_hours ! 12) = 17.5"
    using vals unfolding ms by simp
  from m t a b c vals ms show ?thesis by simp
qed

subsection \<open>Extended monthly KPIs\<close>

lemma extras_nth:
  assumes "i < 12"
  shows "accuracy_pct (compute_monthly_extras df) ! i = k_accuracy (month_extras df (Suc i))"
    and "asym_ratio (compute_monthly_extras df) ! i = k_asym (month_extras df (Suc i))"
    and "capacity_factor_pct (compute_monthly_extras df) ! i = k_capacity_factor (month_extras df (Suc i))"
    and "top5_dm_tl (compute_monthly_extras df) ! i = k_top5_dm (month_extras df (Suc i))"
    and "top5_dm_share_pct (compute_monthly_extras df) ! i = k_top5_dm_share (month_extras df (Suc i))"
    and "revenue_share_pct (compute_monthly_extras df) ! i = k_revenue_share (month_extras df (Suc i))"
    and "pos_share_pct (compute_monthly_extras df) ! i = k_pos_share (month_extras df (Suc i))"
    and "neg_share_pct (compute_monthly_extras df) ! i = k_neg_share (month_extras df (Suc i))"
    and "prod_hours (compute_monthly_extras df) ! i = k_prod_hours (month_extras df (Suc i))"
    and "prod_hours_share_pct (compute_monthly_extras df) ! i = k_prod_hours_share (month_extras df (Suc i))"
    and "prod_share_pct (compute_monthly_extras df) ! i = k_prod_share (month_extras df (Suc i))"
  using assms by (simp_all add: compute_monthly_extras_def Let_def)

lemma pos_rows_month:
  "pos_rows (month_rows df m) = filter (\<lambda>r. Ay r = Some m \<and> (\<exists>d. Dengesizlik r = Some d \<and> d > 0)) df"
  by (induction df) (auto simp: pos_rows_def month_rows_def nan_gt_def split: option.split)

lemma neg_rows_month:
  "neg_rows (month_rows df m) = filter (\<lambda>r. Ay r = Some m \<and> (\<exists>d. Dengesizlik r = Some d \<and> d < 0)) df"
  by (induction df) (auto simp: neg_rows_def month_rows_def nan_lt_def split: option.split)

text \<open>
  Claim C7. For each month \<open>i + 1\<close> the cost-asymmetry ratio is the imbalance cost summed
  over the month's hours with positive imbalance, divided by the cost summed over the
  month's hours with negative imbalance (an unknown cost counts 0); when that divisor is
  0 the entry is the undefined marker \<open>None\<close>, and it is \<open>None\<close> in no other case. The
  other ratios of the month are 0 when their divisor is 0: forecast accuracy, the share
  of the five costliest days, and the shares of revenue, positive and negative imbalance
  volume, production hours and production in the totals of the table.
\<close>

theorem cost_asymmetry_undefined_on_zero:
  assumes "i < 12"
  shows "(let e = compute_monthly_extras df;
              monthly = filter (\<lambda>r. Ay r = Some (i + 1)) df;
              cost = (\<lambda>r. case Dengesizlik_Maliyeti r of None \<Rightarrow> 0 | Some c \<Rightarrow> c);
              pos_dm = (\<Sum>r\<leftarrow>filter (\<lambda>r. Ay r = Some (i + 1) \<and> (\<exists>d. Dengesizlik r = Some d \<and> d > 0)) df. cost r);
              neg_dm = (\<Sum>r\<leftarrow>filter (\<lambda>r. Ay r = Some (i + 1) \<and> (\<exists>d. Dengesizlik r = Some d \<and> d < 0)) df. cost r)
          in asym_ratio e ! i = (if neg_dm = 0 then None else Some (pos_dm / neg_dm))
           \<and> (asym_ratio e ! i = None \<longleftrightarrow> neg_dm = 0)
           \<and> (nansum (map KGUP monthly) = 0 \<longrightarrow> accuracy_pct e ! i = 0)
           \<and> (nansum (map Dengesizlik_Maliyeti monthly) = 0 \<longrightarrow> top5_dm_share_pct e ! i = 0)
           \<and> (nansum (map Net_Gelir df) = 0 \<longrightarrow> revenue_share_pct e ! i = 0)
           \<and> (nansum (map Dengesizlik (pos_rows df)) = 0 \<longrightarrow> pos_share_pct e ! i = 0)
           \<and> (nansum (map (\<lambda>r. nan_abs (Dengesizlik r)) (neg_rows df)) = 0 \<longrightarrow> neg_share_pct e ! i = 0)
           \<and> (count_producing df = 0 \<longrightarrow> prod_hours_share_pct e ! i = 0)
           \<and> (nansum (map URETIM df) = 0 \<longrightarrow> prod_share_pct e ! i = 0))"
proof -
  let ?e = "compute_monthly_extras df"
  let ?cost = "\<lambda>r. case Dengesizlik_Maliyeti r of None \<Rightarrow> 0 | Some c \<Rightarrow> c"
  let ?pos = "\<Sum>r\<leftarrow>filter (\<lambda>r. Ay r = Some (i + 1) \<and> (\<exists>d. Dengesizlik r = Some d \<and> d > 0)) df. ?cost r"
  let ?neg = "\<Sum>r\<leftarrow>filter (\<lambda>r. Ay r = Some (i + 1) \<and> (\<exists>d. Dengesizlik r = Some d \<and> d < 0)) df. ?cost r"
  have pos: "nansum (map Dengesizlik_Maliyeti (pos_rows (month_rows df (Suc i)))) = ?pos"
    by (simp only: pos_rows_month nansum_as_sum Suc_eq_plus1)
  have neg: "nansum (map Dengesizlik_Maliyeti (neg_rows (month_rows df (Suc i)))) = ?neg"
    by (simp only: neg_rows_month nansum_as_sum Suc_eq_plus1)
  have asym: "asym_ratio ?e ! i = (if ?neg = 0 then None else Some (?pos / ?neg))"
    using assms unfolding extras_nth(2) [OF assms] pos [symmetric] neg [symmetric]
    by (simp add: month_extras_def Let_def)
  then have undefined_iff: "asym_ratio ?e ! i = None \<longleftrightarrow> ?neg = 0"
    by simp
  have month: "filter (\<lambda>r. Ay r = Some (i + 1)) df = month_rows df (Suc i)"
    by (simp add: month_rows_def)
  have others: "nansum (map KGUP (month_rows df (Suc i))) = 0 \<longrightarrow> accuracy_pct ?e ! i = 0"
    "nansum (map Dengesizlik_Maliyeti (month_rows df (Suc i))) = 0 \<longrightarrow> top5_dm_share_pct ?e ! i = 0"
    "nansum (map Net_Gelir df) = 0 \<longrightarrow> revenue_share_pct ?e ! i = 0"
    "nansum (map Dengesizlik (pos_rows df)) = 0 \<longrightarrow> pos_share_pct ?e ! i = 0"
    "nansum (map (\<lambda>r. nan_abs (Dengesizlik r)) (neg_rows df)) = 0 \<longrightarrow> neg_share_pct ?e ! i = 0"
    "count_producing df = 0 \<longrightarrow> prod_hours_share_pct ?e ! i = 0"
    "nansum (map URETIM df) = 0 \<longrightarrow> prod_share_pct ?e ! i = 0"
    by (simp_all add: extras_nth [OF assms] month_extras_def Let_def)
  show ?thesis
    unfolding Let_def month using asym undefined_iff others by blast
qed

text \<open>
  The theorem on three hours of March: the ratio for March is 30 / 60; January has no
  negative-imbalance cost and no rows at all, so its ratio is undefined while its
  accuracy is 0.
\<close>

theorem cost_asymmetry_undefined_on_zero_witness:
  "asym_ratio (compute_monthly_extras march_hours) ! 2 = Some (1 / 2)
   \<and> asym_ratio (compute_monthly_extras march_hours) ! 0 = None
   \<and> accuracy_pct (compute_monthly_extras march_hours) ! 0 = 0"
proof -
  have a: "asym_ratio (compute_monthly_extras march_hours) ! 2 = Some (1 / 2)"
    using cost_asymmetry_undefined_on_zero [of 2 march_hours]
    by (simp add: Let_def march_hours_def)
  have b: "asym_ratio (compute_monthly_extras march_hours) ! 0 = None
      \<and> accuracy_pct (compute_monthly_extras march_hours) ! 0 = 0"
    using cost_asymmetry_undefined_on_zero [of 0 march_hours]
    by (simp add: Let_def march_hours_def nansum_def known_def)
  from a b show ?thesis by simp
qed

lemma nanmax_Max:
  "nanmax xs = (if known xs = [] then None else Some (Max (set (known xs))))"
proof (cases "known xs")
  case Nil
  then show ?thesis by (simp add: nanmax_def)
next
  case (Cons v vs)
  have "Max (set (v # vs)) = fold max vs v" by (rule Max.set_eq_fold)
  with Cons show ?thesis by (simp add: nanmax_def)
qed

text \<open>
  Claim C8, as the code has it. For each month \<open>i + 1\<close> the capacity factor is the
  month's production divided by the potential, times 100, where the potential is the
  largest known \<open>KGUP\<close> of the month times 24 times the number of days of that month in the
  fixed table \<open>days_2024\<close>; it is 0 when the potential is not positive, and when the month
  has no known \<open>KGUP\<close>. The table holds the days of the months of the leap year 2024 (29
  for February) and is used for the rows of any year.
\<close>

theorem capacity_factor_fixed_2024_table:
  assumes "i < 12"
  shows "(let e = compute_monthly_extras df;
              monthly = filter (\<lambda>r. Ay r = Some (i + 1)) df;
              month_prod = (\<Sum>r\<leftarrow>monthly. case URETIM r of None \<Rightarrow> 0 | Some u \<Rightarrow> u);
              kgups = known (map KGUP monthly);
              potential = Max (set kgups) * 24 * real (days_2024 ! i)
          in capacity_factor_pct e ! i =
               (if kgups = [] then 0 else if potential > 0 then month_prod / potential * 100 else 0)
           \<and> (potential = 0 \<longrightarrow> capacity_factor_pct e ! i = 0)
           \<and> days_2024 ! i = days_in_month 2024 (i + 1))"
proof -
  let ?monthly = "month_rows df (Suc i)"
  have month: "filter (\<lambda>r. Ay r = Some (i + 1)) df = ?monthly"
    by (simp add: month_rows_def)
  have empty: "known (map KGUP ?monthly) = []" if "?monthly = []"
    using that by (simp add: known_def)
  have cf: "capacity_factor_pct (compute_monthly_extras df) ! i =
      (if known (map KGUP ?monthly) = [] then 0
       else if Max (set (known (map KGUP ?monthly))) * 24 * real (days_2024 ! i) > 0
       then (\<Sum>r\<leftarrow>?monthly. case URETIM r of None \<Rightarrow> 0 | Some u \<Rightarrow> u)
              / (Max (set (known (map KGUP ?monthly))) * 24 * real (days_2024 ! i)) * 100
       else 0)"
    using empty
    by (simp add: extras_nth(3) [OF assms] month_extras_def Let_def nanmax_Max nan_mul_def
        nansum_as_sum)
  have "i \<in> {0, 1, 2, 3, 4, 5, 6, 7, 8, 9, 10, 11}"
    using assms by simp arith
  then have days: "days_2024 ! i = days_in_month 2024 (i + 1)"
    by (auto simp: days_2024_def days_in_month_def is_leap_def)
  show ?thesis
    unfolding Let_def month using cf days by simp
qed

text \<open>
  The theorem on the three hours of March 2024: 29 MWh produced against a potential of
  \<open>10 \<times> 24 \<times> 31\<close>.
\<close>

theorem capacity_factor_fixed_2024_table_witness:
  "capacity_factor_pct (compute_monthly_extras march_hours) ! 2 = 29 / 7440 * 100
   \<and> capacity_factor_pct (compute_monthly_extras march_hours) ! 0 = 0"
proof -
  have a: "capacity_factor_pct (compute_monthly_extras march_hours) ! 2 = 29 / 7440 * 100"
    using capacity_factor_fixed_2024_table [of 2 march_hours]
    by (simp add: Let_def march_hours_def known_def days_2024_def)
  have b: "capacity_factor_pct (compute_monthly_extras march_hours) ! 0 = 0"
    using capacity_factor_fixed_2024_table [of 0 march_hours]
    by (simp add: Let_def march_hours_def known_def days_2024_def)
  from a b show ?thesis by simp
qed

text \<open>
  Claim C8 as stated fails on a table of another year. For the single hour of February
  2023 (1 MWh planned and produced) the leap-year aware potential is \<open>1 \<times> 24 \<times> 28\<close>, but
  the code divides by \<open>1 \<times> 24 \<times> 29\<close>.
\<close>

theorem capacity_factor_not_leap_year_aware:
  "map Tarih feb_2023 = [Some ''2023-02-01'']
   \<and> days_in_month 2023 2 = 28
   \<and> capacity_factor_pct (compute_monthly_extras feb_2023) ! 1 = 1 / (1 * 24 * 29) * 100
   \<and> capacity_factor_pct (compute_monthly_extras feb_2023) ! 1
       \<noteq> 1 / (1 * 24 * real (days_in_month 2023 2)) * 100"
  by (simp add: compute_monthly_extras_def Let_def month_extras_def feb_2023_def month_rows_def
      nanmax_def nansum_def known_def nan_mul_def days_2024_def days_in_month_def is_leap_def)

text \<open>
  Claim C10. The result has eleven vectors, each with twelve entries; entry \<open>i\<close> is the
  value of the loop round for month \<open>i + 1\<close>, whichever months occur in the table. A month
  without rows gets 0 in the ten zero-guarded vectors and the undefined marker in the
  cost-asymmetry vector.
\<close>

theorem monthly_extras_shape:
  "(let e = compute_monthly_extras df in
      length (accuracy_pct e) = 12 \<and> length (asym_ratio e) = 12
    \<and> length (capacity_factor_pct e) = 12 \<and> length (top5_dm_tl e) = 12
    \<and> length (top5_dm_share_pct e) = 12 \<and> length (revenue_share_pct e) = 12
    \<and> length (pos_share_pct e) = 12 \<and> length (neg_share_pct e) = 12
    \<and> length (prod_hours e) = 12 \<and> length (prod_hours_share_pct e) = 12
    \<and> length (prod_share_pct e) = 12
    \<and> (\<forall>i < 12.
          accuracy_pct e ! i = k_accuracy (month_extras df (i + 1))
        \<and> asym_ratio e ! i = k_asym (month_extras df (i + 1))
        \<and> capacity_factor_pct e ! i = k_capacity_factor (month_extras df (i + 1))
        \<and> top5_dm_tl e ! i = k_top5_dm (month_extras df (i + 1))
        \<and> top5_dm_share_pct e ! i = k_top5_dm_share (month_extras df (i + 1))
        \<and> revenue_share_pct e ! i = k_revenue_share (month_extras df (i + 1))
        \<and> pos_share_pct e ! i = k_pos_share (month_extras df (i + 1))
        \<and> neg_share_pct e ! i = k_neg_share (month_extras df (i + 1))
        \<and> prod_hours e ! i = k_prod_hours (month_extras df (i + 1))
        \<and> prod_hours_share_pct e ! i = k_prod_hours_share (month_extras df (i + 1))
        \<and> prod_share_pct e ! i = k_prod_share (month_extras df (i + 1)))
    \<and> (\<forall>i < 12. filter (\<lambda>r. Ay r = Some (i + 1)) df = [] \<longrightarrow>
          accuracy_pct e ! i = 0 \<and> asym_ratio e ! i = None \<and> capacity_factor_pct e ! i = 0
        \<and> top5_dm_tl e ! i = 0 \<and> top5_dm_share_pct e ! i = 0 \<and> revenue_share_pct e ! i = 0
        \<and> pos_share_pct e ! i = 0 \<and> neg_share_pct e ! i = 0 \<and> prod_hours e ! i = 0
        \<and> prod_hours_share_pct e ! i = 0 \<and> prod_share_pct e ! i = 0))"
proof -
  let ?e = "compute_monthly_extras df"
  have lens: "length (accuracy_pct ?e) = 12" "length (asym_ratio ?e) = 12"
    "length (capacity_factor_pct ?e) = 12" "length (top5_dm_tl ?e) = 12"
    "length (top5_dm_share_pct ?e) = 12" "length (revenue_share_pct ?e) = 12"
    "length (pos_share_pct ?e) = 12" "length (neg_share_pct ?e) = 12"
    "length (prod_hours ?e) = 12" "length (prod_hours_share_pct ?e) = 12"
    "length (prod_share_pct ?e) = 12"
    by (simp_all add: compute_monthly_extras_def Let_def)
  have entries: "\<forall>i < 12.
          accuracy_pct ?e ! i = k_accuracy (month_extras df (i + 1))
        \<and> asym_ratio ?e ! i = k_asym (month_extras df (i + 1))
        \<and> capacity_factor_pct ?e ! i = k_capacity_factor (month_extras df (i + 1))
        \<and> top5_dm_tl ?e ! i = k_top5_dm (month_extras df (i + 1))
        \<and> top5_dm_share_pct ?e ! i = k_top5_dm_share (month_extras df (i + 1))
        \<and> revenue_share_pct ?e ! i = k_revenue_share (month_extras df (i + 1))
        \<and> pos_share_pct ?e ! i = k_pos_share (month_extras df (i + 1))
        \<and> neg_share_pct ?e ! i = k_neg_share (month_extras df (i + 1))
        \<and> prod_hours ?e ! i = k_prod_hours (month_extras df (i + 1))
        \<and> prod_hours_share_pct ?e ! i = k_prod_hours_share (month_extras df (i + 1))
        \<and> prod_share_pct ?e ! i = k_prod_share (month_extras df (i + 1))"
    by (simp add: extras_nth)
  have no_rows: "k_accuracy (month_extras df m) = 0 \<and> k_asym (month_extras df m) = None
        \<and> k_capacity_factor (month_extras df m) = 0 \<and> k_top5_dm (month_extras df m) = 0
        \<and> k_top5_dm_share (month_extras df m) = 0 \<and> k_revenue_share (month_extras df m) = 0
        \<and> k_pos_share (month_extras df m) = 0 \<and> k_neg_share (month_extras df m) = 0
        \<and> k_prod_hours (month_extras df m) = 0 \<and> k_prod_hours_share (month_extras df m) = 0
        \<and> k_prod_share (month_extras df m) = 0"
    if "month_rows df m = []" for m
    using that
    by (simp add: month_extras_def Let_def nansum_def known_def pos_rows_def neg_rows_def
        count_producing_def nan_mul_def)
  have defaults: "\<forall>i < 12. filter (\<lambda>r. Ay r = Some (i + 1)) df = [] \<longrightarrow>
          accuracy_pct ?e ! i = 0 \<and> asym_ratio ?e ! i = None \<and> capacity_factor_pct ?e ! i = 0
        \<and> top5_dm_tl ?e ! i = 0 \<and> top5_dm_share_pct ?e ! i = 0 \<and> revenue_share_pct ?e ! i = 0
        \<and> pos_share_pct ?e ! i = 0 \<and> neg_share_pct ?e ! i = 0 \<and> prod_hours ?e ! i = 0
        \<and> prod_hours_share_pct ?e ! i = 0 \<and> prod_share_pct ?e ! i = 0"
    using no_rows by (simp add: extras_nth month_rows_def)
  show ?thesis
    unfolding Let_def using lens entries defaults by blast
qed

text \<open>
  The theorem on the three hours of March: twelve entries, January (no rows) with the
  defaults, March with its own values.
\<close>

theorem monthly_extras_shape_witness:
  "length (asym_ratio (compute_monthly_extras march_hours)) = 12
   \<and> asym_ratio (compute_monthly_extras march_hours) ! 0 = None
   \<and> prod_hours (compute_monthly_extras march_hours) ! 0 = 0
   \<and> prod_share_pct (compute_monthly_extras march_hours) ! 0 = 0
   \<and> prod_hours (compute_monthly_extras march_hours) ! 2 = 3
   \<and> prod_share_pct (compute_monthly_extras march_hours) ! 2 = 100"
proof -
  note th = monthly_extras_shape [of march_hours, unfolded Let_def]
  have none: "filter (\<lambda>r. Ay r = Some (0 + 1)) march_hours = []"
    by (simp add: march_hours_def)
  from th have len: "length (asym_ratio (compute_monthly_extras march_hours)) = 12"
    by blast
  from th have "\<forall>i < 12. filter (\<lambda>r. Ay r = Some (i + 1)) march_hours = [] \<longrightarrow>
      asym_ratio (compute_monthly_extras march_hours) ! i = None
    \<and> prod_hours (compute_monthly_extras march_hours) ! i = 0
    \<and> prod_share_pct (compute_monthly_extras march_hours) ! i = 0"
    by blast
  from this [rule_format, of 0] none
  have jan: "asym_ratio (compute_monthly_extras march_hours) ! 0 = None
    \<and> prod_hours (compute_monthly_extras march_hours) ! 0 = 0
    \<and> prod_share_pct (compute_monthly_extras march_hours) ! 0 = 0"
    by simp
  from th have "\<forall>i < 12.
      prod_hours (compute_monthly_extras march_hours) ! i = k_prod_hours (month_extras march_hours (i + 1))
    \<and> prod_share_pct (compute_monthly_extras march_hours) ! i = k_prod_share (month_extras march_hours (i + 1))"
    by blast
  from this [rule_format, of 2]
  have mar: "prod_hours (compute_monthly_extras march_hours) ! 2 = 3
    \<and> prod_share_pct (compute_monthly_extras march_hours) ! 2 = 100"
    by (simp add: month_extras_def Let_def march_hours_def month_rows_def count_producing_def
        nan_gt_def nansum_def known_def)
  from len jan mar show ?thesis by simp
qed

subsection \<open>The comparison sheet under recalculation\<close>

declare recalc.simps [simp del]

declare detail_letters_def [simp]

lemma col_letters_computed:
  "col_map = Some (\<lambda>name. detail_letters ! index_of name detail_headers)"
  "col_letter 12 = Some ''M''"
  "col_letter 17 = Some ''R''"
  by (simp_all add: col_map_def detail_headers_def col_letter_def col_letter_loop.simps char_of_def)

lemma column_number_letters:
  "column_number ''A'' = 1" "column_number ''B'' = 2" "column_number ''C'' = 3"
  "column_number ''D'' = 4" "column_number ''E'' = 5" "column_number ''F'' = 6"
  "column_number ''H'' = 8" "column_number ''I'' = 9" "column_number ''J'' = 10"
  "column_number ''K'' = 11" "column_number ''L'' = 12" "column_number ''M'' = 13"
  "column_number ''N'' = 14"
  by (simp_all add: column_number_def)

lemma recalc_static:
  assumes "\<And>f. wb sh pos \<noteq> Formula f"
  shows "recalc n wb sh pos = static_value (wb sh pos)"
  using assms by (cases "wb sh pos") (auto simp: recalc.simps [of n wb sh pos] static_value_def)

lemma detail_value_static: "detail_value r c \<noteq> Formula f"
  by (cases c) (simp_all add: num_cell_def split: option.split)

lemma detail_sheet_static: "detail_sheet df pos \<noteq> Formula f"
  by (cases pos) (simp add: detail_sheet_def detail_value_static)

text \<open>A column range over the data rows of a detail sheet reads the column of the frame.\<close>

lemma detail_range:
  assumes "wb sh = detail_sheet df" and "nat (column_number letters - 1) = c"
    and "c < length detail_headers"
  shows "map (recalc n wb sh) (range_cells letters 2 (length df + 1))
    = map (\<lambda>r. static_value (detail_value r (detail_headers ! c))) df"
proof (rule nth_equalityI)
  show "length (map (recalc n wb sh) (range_cells letters 2 (length df + 1)))
      = length (map (\<lambda>r. static_value (detail_value r (detail_headers ! c))) df)"
    by (simp add: range_cells_def del: upt_Suc)
next
  fix i
  assume "i < length (map (recalc n wb sh) (range_cells letters 2 (length df + 1)))"
  then have i: "i < length df" by (simp add: range_cells_def del: upt_Suc)
  then have "range_cells letters 2 (length df + 1) ! i = (Suc i, c)"
    using assms(2) by (simp add: range_cells_def del: upt_Suc)
  moreover have "recalc n wb sh (Suc i, c) = static_value (detail_sheet df (Suc i, c))"
    using recalc_static [of wb sh "(Suc i, c)" n] detail_sheet_static [of df "(Suc i, c)"]
    by (simp add: assms(1))
  moreover have "detail_sheet df (Suc i, c) = detail_value (df ! i) (detail_headers ! c)"
    using i assms(3) by (simp add: detail_sheet_def)
  ultimately show "map (recalc n wb sh) (range_cells letters 2 (length df + 1)) ! i
      = map (\<lambda>r. static_value (detail_value r (detail_headers ! c))) df ! i"
    using i by (simp add: range_cells_def del: upt_Suc)
qed

lemma sumif_value_XNum:
  "sumif_value (XNum c) keys vs = sum_values (map snd (filter (\<lambda>kv. fst kv = XNum c) (zip keys vs)))"
  by (simp add: sumif_value_def)

lemma sumif_over_frame:
  "sumif_value (XNum (real m))
     (map (\<lambda>r. static_value (detail_value r C_Ay)) df)
     (map (\<lambda>r. static_value (num_cell (col r))) df)
   = XNum (nansum (map col (filter (\<lambda>r. Ay r = Some m) df)))"
proof -
  let ?rs = "filter (\<lambda>r. Ay r = Some m) df"
  let ?vs = "map (\<lambda>r. static_value (num_cell (col r))) ?rs"
  have sel: "map snd (filter (\<lambda>kv. fst kv = XNum (real m))
          (zip (map (\<lambda>r. static_value (detail_value r C_Ay)) df)
               (map (\<lambda>r. static_value (num_cell (col r))) df))) = ?vs"
    by (induction df) (auto simp: static_value_def split: option.splits)
  have no_err: "XError \<notin> set ?vs"
    by (auto simp: static_value_def num_cell_def split: option.splits)
  have "sum_list (map (\<lambda>v. case v of XNum x \<Rightarrow> x | _ \<Rightarrow> 0)
        (map (\<lambda>r. static_value (num_cell (col r))) rs)) = nansum (map col rs)" for rs
    by (induction rs) (auto simp: static_value_def num_cell_def nansum_def known_def split: option.splits)
  then have total: "sum_list (map (\<lambda>v. case v of XNum x \<Rightarrow> x | _ \<Rightarrow> 0) ?vs) = nansum (map col ?rs)" .
  have "sum_values ?vs = XNum (nansum (map col ?rs))"
    unfolding sum_values_def using no_err total by (simp only: if_False)
  then show ?thesis
    unfolding sumif_value_XNum sel .
qed

lemma sum_values_numbers: "sum_values (map XNum xs) = XNum (sum_list xs)"
  by (auto simp: sum_values_def comp_def)

lemma range_cells_block:
  "nat (column_number letters - 1) = c \<Longrightarrow>
   range_cells letters (r0 + 1) (r0 + 12) = map (\<lambda>i. (r0 + i, c)) [0..<12]"
  by (rule nth_equalityI) (simp_all add: range_cells_def del: upt_Suc)

lemma recalc_if:
  assumes "wb sh pos = Formula (F_IF rb rx rd)"
    and "ref_pos rb = pb" and "ref_pos rx = px" and "ref_pos rd = pb"
    and "recalc k wb sh pb = XNum b" and "recalc k wb sh px = XNum x"
  shows "recalc (Suc k) wb sh pos = XNum (if b = 0 then 0 else x / b)"
  by (subst recalc.simps) (simp add: assms if_zero_value_def)

lemma recalc_sum:
  assumes "wb sh pos = Formula (F_SUM letters a b)"
    and "range_cells letters a b = cells"
    and "map (recalc k wb sh) cells = map XNum xs"
  shows "recalc (Suc k) wb sh pos = XNum (sum_list xs)"
  by (subst recalc.simps) (simp add: assms sum_values_numbers)

lemma ref_pos_letters:
  "ref_pos (Ref ''A'' (r + 1)) = (r, 0)" "ref_pos (Ref ''B'' (r + 1)) = (r, 1)"
  "ref_pos (Ref ''F'' (r + 1)) = (r, 5)" "ref_pos (Ref ''H'' (r + 1)) = (r, 7)"
  by (simp_all add: ref_pos_def column_number_letters)

text \<open>
  A block of the comparison sheet whose twelve month rows start at row \<open>r0\<close> and read
  the detail sheet \<open>S\<close> of the table \<open>df\<close>: its first nine columns recalculate to the rows
  of the monthly summary of \<open>df\<close>.
\<close>

lemma block_recalc:
  fixes cm :: "detail_col \<Rightarrow> string"
  assumes cm: "cm = (\<lambda>name. detail_letters ! index_of name detail_headers)"
    and K: "\<And>i col. i < 12 \<Longrightarrow>
      wb Karsilastirma (r0 + i, col) = month_row_cell cm l1 l2 S ex (r0 + i) i col"
    and T: "\<And>col. wb Karsilastirma (r0 + 12, col) = totals_row_cell t p (r0 + 12) (r0 + 1) (r0 + 12) col"
    and D: "wb S = detail_sheet df"
    and L: "(if S = Santral_1 then l1 else l2) = length df + 1"
  shows "i < 12 \<Longrightarrow> map (recalc (Suc (Suc n)) wb Karsilastirma) (map (\<lambda>j. (r0 + i, j)) [0..<9])
           = summary_values (summary_month df (Suc i))"
    and "map (recalc (Suc (Suc (Suc n))) wb Karsilastirma) (map (\<lambda>j. (r0 + 12, j)) [0..<9])
           = summary_values (total_row (map (summary_month df) [1..<13]))"
proof -
  have letters: "cm C_Ay = ''B''" "cm C_Uretim = ''I''" "cm C_Dengesizlik = ''J''"
    "cm C_GOP_Geliri = ''K''" "cm C_Dengesizlik_Tutari = ''L''" "cm C_Net_Gelir = ''M''"
    "cm C_Dengesizlik_Maliyeti = ''N''"
    by (simp_all add: cm detail_headers_def)
  have keys: "map (recalc k wb S) (range_cells ''B'' 2 (length df + 1))
      = map (\<lambda>r. static_value (detail_value r C_Ay)) df" for k
    using detail_range [where wb = wb and sh = S and letters = "''B''" and c = 1 and n = k, OF D]
    by (simp add: column_number_letters detail_headers_def)
  have sumif_cell: "recalc (Suc k) wb Karsilastirma (r0 + i, j) = XNum (group_sum df col (Suc i))"
    if i: "i < 12"
      and cell: "month_row_cell cm l1 l2 S ex (r0 + i) i j
        = Formula (F_SUMIF S ''B'' 2 (length df + 1) (Ref ''A'' (r0 + i + 1)) letters)"
      and c: "nat (column_number letters - 1) = c" "c < length detail_headers"
      and v: "\<And>r. detail_value r (detail_headers ! c) = num_cell (col r)"
    for i j k letters c col
  proof -
    have key: "recalc k wb Karsilastirma (r0 + i, 0) = XNum (real (Suc i))"
      using recalc_static [of wb Karsilastirma "(r0 + i, 0)" k]
      by (simp add: K [OF i] month_row_cell_def Let_def static_value_def)
    have vals: "map (recalc k wb S) (range_cells letters 2 (length df + 1))
        = map (\<lambda>r. static_value (num_cell (col r))) df"
      using detail_range [where wb = wb and sh = S and n = k, OF D c] by (simp add: v)
    have unfold: "recalc (Suc k) wb Karsilastirma (r0 + i, j)
        = sumif_value (recalc k wb Karsilastirma (ref_pos (Ref ''A'' (r0 + i + 1))))
            (map (recalc k wb S) (range_cells ''B'' 2 (length df + 1)))
            (map (recalc k wb S) (range_cells letters 2 (length df + 1)))"
      by (subst recalc.simps) (simp only: K [OF i] cell cell.case formula.case nat.case)
    have pos: "ref_pos (Ref ''A'' (r0 + i + 1)) = (r0 + i, 0)"
      by (simp add: ref_pos_def column_number_letters)
    show ?thesis
      by (simp only: unfold pos key keys vals sumif_over_frame group_sum_nansum)
  qed
  have cells: "month_row_cell cm l1 l2 S ex (r0 + i) i 1
        = Formula (F_SUMIF S ''B'' 2 (length df + 1) (Ref ''A'' (r0 + i + 1)) ''I'')"
    "month_row_cell cm l1 l2 S ex (r0 + i) i 2
        = Formula (F_SUMIF S ''B'' 2 (length df + 1) (Ref ''A'' (r0 + i + 1)) ''J'')"
    "month_row_cell cm l1 l2 S ex (r0 + i) i 3
        = Formula (F_SUMIF S ''B'' 2 (length df + 1) (Ref ''A'' (r0 + i + 1)) ''K'')"
    "month_row_cell cm l1 l2 S ex (r0 + i) i 4
        = Formula (F_SUMIF S ''B'' 2 (length df + 1) (Ref ''A'' (r0 + i + 1)) ''L'')"
    "month_row_cell cm l1 l2 S ex (r0 + i) i 5
        = Formula (F_SUMIF S ''B'' 2 (length df + 1) (Ref ''A'' (r0 + i + 1)) ''M'')"
    "month_row_cell cm l1 l2 S ex (r0 + i) i 7
        = Formula (F_SUMIF S ''B'' 2 (length df + 1) (Ref ''A'' (r0 + i + 1)) ''N'')"
    "month_row_cell cm l1 l2 S ex (r0 + i) i 6
        = Formula (F_IF (Ref ''B'' (r0 + i + 1)) (Ref ''F'' (r0 + i + 1)) (Ref ''B'' (r0 + i + 1)))"
    "month_row_cell cm l1 l2 S ex (r0 + i) i 8
        = Formula (F_IF (Ref ''B'' (r0 + i + 1)) (Ref ''H'' (r0 + i + 1)) (Ref ''B'' (r0 + i + 1)))"
    "month_row_cell cm l1 l2 S ex (r0 + i) i 0 = Number (real (i + 1))"
    for i
    using L by (simp_all add: month_row_cell_def sumif_def Let_def letters)
  have sums: "recalc (Suc k) wb Karsilastirma (r0 + i, 1) = XNum (group_sum df URETIM (Suc i))"
    "recalc (Suc k) wb Karsilastirma (r0 + i, 2) = XNum (group_sum df Dengesizlik (Suc i))"
    "recalc (Suc k) wb Karsilastirma (r0 + i, 3) = XNum (group_sum df GOP_Geliri (Suc i))"
    "recalc (Suc k) wb Karsilastirma (r0 + i, 4) = XNum (group_sum df Dengesizlik_Tutari (Suc i))"
    "recalc (Suc k) wb Karsilastirma (r0 + i, 5) = XNum (group_sum df Net_Gelir (Suc i))"
    "recalc (Suc k) wb Karsilastirma (r0 + i, 7) = XNum (group_sum df Dengesizlik_Maliyeti (Suc i))"
    if i: "i < 12" for i k
    by (rule sumif_cell [OF i], rule cells, simp add: column_number_letters,
        simp add: detail_headers_def, simp add: detail_headers_def)+
  have ratios: "recalc (Suc (Suc k)) wb Karsilastirma (r0 + i, 6)
        = XNum (unit_metric (group_sum df Net_Gelir (Suc i)) (group_sum df URETIM (Suc i)))"
    "recalc (Suc (Suc k)) wb Karsilastirma (r0 + i, 8)
        = XNum (unit_metric (group_sum df Dengesizlik_Maliyeti (Suc i)) (group_sum df URETIM (Suc i)))"
    if i: "i < 12" for i k
    unfolding unit_metric_def
    by (rule recalc_if [OF _ ref_pos_letters(2) _ ref_pos_letters(2) sums(1) [OF i]],
        simp only: K [OF i] cells, rule ref_pos_letters, rule sums [OF i])+
  have label: "recalc k wb Karsilastirma (r0 + i, 0) = XNum (real (Suc i))" if i: "i < 12" for i k
    using recalc_static [of wb Karsilastirma "(r0 + i, 0)" k]
    by (simp add: K [OF i] cells static_value_def)
  have upt9: "[0..<9] = [0, 1, 2, 3, 4, 5, 6, 7, 8 :: nat]"
    by (simp add: upt_rec)
  show "map (recalc (Suc (Suc n)) wb Karsilastirma) (map (\<lambda>j. (r0 + i, j)) [0..<9])
           = summary_values (summary_month df (Suc i))" if i: "i < 12"
  proof -
    have "map (recalc (Suc (Suc n)) wb Karsilastirma) (map (\<lambda>j. (r0 + i, j)) [0, 1, 2, 3, 4, 5, 6, 7, 8])
        = [XNum (real (Suc i)), XNum (group_sum df URETIM (Suc i)),
           XNum (group_sum df Dengesizlik (Suc i)), XNum (group_sum df GOP_Geliri (Suc i)),
           XNum (group_sum df Dengesizlik_Tutari (Suc i)), XNum (group_sum df Net_Gelir (Suc i)),
           XNum (unit_metric (group_sum df Net_Gelir (Suc i)) (group_sum df URETIM (Suc i))),
           XNum (group_sum df Dengesizlik_Maliyeti (Suc i)),
           XNum (unit_metric (group_sum df Dengesizlik_Maliyeti (Suc i)) (group_sum df URETIM (Suc i)))]"
      by (simp only: list.map label [OF i] sums [OF i] ratios [OF i])
    moreover have "summary_values (summary_month df (Suc i))
        = [XNum (real (Suc i)), XNum (group_sum df URETIM (Suc i)),
           XNum (group_sum df Dengesizlik (Suc i)), XNum (group_sum df GOP_Geliri (Suc i)),
           XNum (group_sum df Dengesizlik_Tutari (Suc i)), XNum (group_sum df Net_Gelir (Suc i)),
           XNum (unit_metric (group_sum df Net_Gelir (Suc i)) (group_sum df URETIM (Suc i))),
           XNum (group_sum df Dengesizlik_Maliyeti (Suc i)),
           XNum (unit_metric (group_sum df Dengesizlik_Maliyeti (Suc i)) (group_sum df URETIM (Suc i)))]"
      by (simp add: summary_values_def summary_month_def Let_def)
    ultimately show ?thesis unfolding upt9 by (simp only:)
  qed
  have total_sum: "recalc (Suc (Suc k)) wb Karsilastirma (r0 + 12, j)
      = XNum (sum_list (map (\<lambda>i. group_sum df col (Suc i)) [0..<12]))"
    if cell: "totals_row_cell t p (r0 + 12) (r0 + 1) (r0 + 12) j = Formula (F_SUM letters (r0 + 1) (r0 + 12))"
      and c: "nat (column_number letters - 1) = j"
      and s: "\<And>i. i < 12 \<Longrightarrow> recalc (Suc k) wb Karsilastirma (r0 + i, j) = XNum (group_sum df col (Suc i))"
    for j k letters col
  proof (rule recalc_sum [OF _ range_cells_block [OF c]])
    show "wb Karsilastirma (r0 + 12, j) = Formula (F_SUM letters (r0 + 1) (r0 + 12))"
      by (simp only: T cell)
    show "map (recalc (Suc k) wb Karsilastirma) (map (\<lambda>i. (r0 + i, j)) [0..<12])
        = map XNum (map (\<lambda>i. group_sum df col (Suc i)) [0..<12])"
      using s by (simp del: upt_Suc)
  qed
  have months: "map f (map (summary_month df) [1..<13]) = map (\<lambda>i. f (summary_month df (Suc i))) [0..<12]"
    for f :: "summary_row \<Rightarrow> real"
  proof -
    have "[1..<13] = map Suc [0..<12]"
      using map_Suc_upt [of 0 12] by simp
    then show ?thesis by (simp only: map_map comp_def)
  qed
  have tcells: "totals_row_cell t p (r0 + 12) (r0 + 1) (r0 + 12) 1 = Formula (F_SUM ''B'' (r0 + 1) (r0 + 12))"
    "totals_row_cell t p (r0 + 12) (r0 + 1) (r0 + 12) 2 = Formula (F_SUM ''C'' (r0 + 1) (r0 + 12))"
    "totals_row_cell t p (r0 + 12) (r0 + 1) (r0 + 12) 3 = Formula (F_SUM ''D'' (r0 + 1) (r0 + 12))"
    "totals_row_cell t p (r0 + 12) (r0 + 1) (r0 + 12) 4 = Formula (F_SUM ''E'' (r0 + 1) (r0 + 12))"
    "totals_row_cell t p (r0 + 12) (r0 + 1) (r0 + 12) 5 = Formula (F_SUM ''F'' (r0 + 1) (r0 + 12))"
    "totals_row_cell t p (r0 + 12) (r0 + 1) (r0 + 12) 7 = Formula (F_SUM ''H'' (r0 + 1) (r0 + 12))"
    "totals_row_cell t p (r0 + 12) (r0 + 1) (r0 + 12) 6
      = Formula (F_IF (Ref ''B'' (r0 + 12 + 1)) (Ref ''F'' (r0 + 12 + 1)) (Ref ''B'' (r0 + 12 + 1)))"
    "totals_row_cell t p (r0 + 12) (r0 + 1) (r0 + 12) 8
      = Formula (F_IF (Ref ''B'' (r0 + 12 + 1)) (Ref ''H'' (r0 + 12 + 1)) (Ref ''B'' (r0 + 12 + 1)))"
    "totals_row_cell t p (r0 + 12) (r0 + 1) (r0 + 12) 0 = Text ''Toplam''"
    by (simp_all add: totals_row_cell_def)
  have tsums: "recalc (Suc (Suc k)) wb Karsilastirma (r0 + 12, 1)
        = XNum (sum_list (map (\<lambda>i. group_sum df URETIM (Suc i)) [0..<12]))"
    "recalc (Suc (Suc k)) wb Karsilastirma (r0 + 12, 2)
        = XNum (sum_list (map (\<lambda>i. group_sum df Dengesizlik (Suc i)) [0..<12]))"
    "recalc (Suc (Suc k)) wb Karsilastirma (r0 + 12, 3)
        = XNum (sum_list (map (\<lambda>i. group_sum df GOP_Geliri (Suc i)) [0..<12]))"
    "recalc (Suc (Suc k)) wb Karsilastirma (r0 + 12, 4)
        = XNum (sum_list (map (\<lambda>i. group_sum df Dengesizlik_Tutari (Suc i)) [0..<12]))"
    "recalc (Suc (Suc k)) wb Karsilastirma (r0 + 12, 5)
        = XNum (sum_list (map (\<lambda>i. group_sum df Net_Gelir (Suc i)) [0..<12]))"
    "recalc (Suc (Suc k)) wb Karsilastirma (r0 + 12, 7)
        = XNum (sum_list (map (\<lambda>i. group_sum df Dengesizlik_Maliyeti (Suc i)) [0..<12]))"
    for k
    by (rule total_sum, rule tcells, simp add: column_number_letters, rule sums, assumption)+
  have tratios: "recalc (Suc (Suc (Suc k))) wb Karsilastirma (r0 + 12, 6)
        = XNum (if sum_list (map (\<lambda>i. group_sum df URETIM (Suc i)) [0..<12]) = 0 then 0
                else sum_list (map (\<lambda>i. group_sum df Net_Gelir (Suc i)) [0..<12])
                  / sum_list (map (\<lambda>i. group_sum df URETIM (Suc i)) [0..<12]))"
    "recalc (Suc (Suc (Suc k))) wb Karsilastirma (r0 + 12, 8)
        = XNum (if sum_list (map (\<lambda>i. group_sum df URETIM (Suc i)) [0..<12]) = 0 then 0
                else sum_list (map (\<lambda>i. group_sum df Dengesizlik_Maliyeti (Suc i)) [0..<12])
                  / sum_list (map (\<lambda>i. group_sum df URETIM (Suc i)) [0..<12]))"
    for k
    by (rule recalc_if [OF _ ref_pos_letters(2) _ ref_pos_letters(2) tsums(1)],
        simp only: T tcells, rule ref_pos_letters, rule tsums)+
  have tlabel: "recalc k wb Karsilastirma (r0 + 12, 0) = XText ''Toplam''" for k
  proof -
    have "wb Karsilastirma (r0 + 12, 0) = Text ''Toplam''"
      by (simp only: T tcells)
    then show ?thesis
      by (subst recalc.simps) simp
  qed
  show "map (recalc (Suc (Suc (Suc n))) wb Karsilastirma) (map (\<lambda>j. (r0 + 12, j)) [0..<9])
           = summary_values (total_row (map (summary_month df) [1..<13]))"
  proof -
    let ?sum = "\<lambda>col. sum_list (map (\<lambda>i. group_sum df col (Suc i)) [0..<12])"
    have sel: "s_Uretim (summary_month df m) = group_sum df URETIM m"
      "s_Dengesizlik (summary_month df m) = group_sum df Dengesizlik m"
      "s_GOP_Geliri (summary_month df m) = group_sum df GOP_Geliri m"
      "s_Dengesizlik_Tutari (summary_month df m) = group_sum df Dengesizlik_Tutari m"
      "s_Toplam_Gelir (summary_month df m) = group_sum df Net_Gelir m"
      "s_Dengesizlik_Maliyeti (summary_month df m) = group_sum df Dengesizlik_Maliyeti m" for m
      by (simp_all add: summary_month_def Let_def)
    have col_sums: "sum_list (map s_Uretim (map (summary_month df) [1..<13])) = ?sum URETIM"
      "sum_list (map s_Dengesizlik (map (summary_month df) [1..<13])) = ?sum Dengesizlik"
      "sum_list (map s_GOP_Geliri (map (summary_month df) [1..<13])) = ?sum GOP_Geliri"
      "sum_list (map s_Dengesizlik_Tutari (map (summary_month df) [1..<13])) = ?sum Dengesizlik_Tutari"
      "sum_list (map s_Toplam_Gelir (map (summary_month df) [1..<13])) = ?sum Net_Gelir"
      "sum_list (map s_Dengesizlik_Maliyeti (map (summary_month df) [1..<13])) = ?sum Dengesizlik_Maliyeti"
      by (simp_all only: months sel)
    have "map (recalc (Suc (Suc (Suc n))) wb Karsilastirma) (map (\<lambda>j. (r0 + 12, j)) [0, 1, 2, 3, 4, 5, 6, 7, 8])
        = [XText ''Toplam'', XNum (?sum URETIM), XNum (?sum Dengesizlik), XNum (?sum GOP_Geliri),
           XNum (?sum Dengesizlik_Tutari), XNum (?sum Net_Gelir),
           XNum (if ?sum URETIM = 0 then 0 else ?sum Net_Gelir / ?sum URETIM),
           XNum (?sum Dengesizlik_Maliyeti),
           XNum (if ?sum URETIM = 0 then 0 else ?sum Dengesizlik_Maliyeti / ?sum URETIM)]"
      by (simp only: list.map tlabel tsums tratios)
    moreover have "summary_values (total_row (map (summary_month df) [1..<13]))
        = [XText ''Toplam'', XNum (?sum URETIM), XNum (?sum Dengesizlik), XNum (?sum GOP_Geliri),
           XNum (?sum Dengesizlik_Tutari), XNum (?sum Net_Gelir),
           XNum (if ?sum URETIM = 0 then 0 else ?sum Net_Gelir / ?sum URETIM),
           XNum (?sum Dengesizlik_Maliyeti),
           XNum (if ?sum URETIM = 0 then 0 else ?sum Dengesizlik_Maliyeti / ?sum URETIM)]"
      by (simp only: summary_values_def total_row_def Let_def summary_row.select_convs col_sums
          row_label.case)
    ultimately show ?thesis unfolding upt9 by (simp only:)
  qed
qed

lemma upt_9: "[0..<9] = [0, 1, 2, 3, 4, 5, 6, 7, 8 :: nat]"
  by (simp add: upt_rec)

lemma month_row_cells:
  fixes cm :: "detail_col \<Rightarrow> string"
  assumes "cm = (\<lambda>name. detail_letters ! index_of name detail_headers)"
  shows "map (month_row_cell cm l1 l2 S ex row i) [0..<9]
    = month_formulas S (if S = Santral_1 then l1 else l2) row i"
  unfolding upt_9
  by (simp add: month_row_cell_def month_formulas_def sumif_def Let_def assms detail_headers_def)

lemma totals_row_cells:
  "map (totals_row_cell t p row first_r last_r) [0..<9] = totals_formulas row first_r last_r"
  unfolding upt_9 by (simp add: totals_row_cell_def totals_formulas_def)

text \<open>
  Claim C3, as the code has it. For two non-empty plant tables the report is written, and
  in each block of the comparison sheet: the first summary column holds the month number
  (the label \<open>Toplam\<close> in the totals row) as a value; the other eight summary columns of
  the twelve month rows hold formulas, a conditional sum over the data rows of the
  plant's detail sheet keyed by the month cell, or a guarded ratio of two such cells; the
  totals row holds sums over the twelve cells above and guarded ratios of its own
  cells. Recalculated, the nine cells of each of the thirteen rows are the nine values
  of the same row of the monthly summary of the plant's table.
\<close>

theorem comparison_sheet_recalculates_to_summary:
  "pp1_df \<noteq> [] \<and> pp2_df \<noteq> [] \<longrightarrow>
     (\<exists>wb. build_report pp1_df pp2_df = Some wb
        \<and> wb Santral_1 = detail_sheet pp1_df \<and> wb Santral_2 = detail_sheet pp2_df
        \<and> (\<forall>i < 12.
              map (\<lambda>j. wb Karsilastirma (3 + i, j)) [0..<9]
                = month_formulas Santral_1 (length pp1_df + 1) (3 + i) i
            \<and> map (\<lambda>j. wb Karsilastirma (21 + i, j)) [0..<9]
                = month_formulas Santral_2 (length pp2_df + 1) (21 + i) i)
        \<and> map (\<lambda>j. wb Karsilastirma (15, j)) [0..<9] = totals_formulas 15 4 15
        \<and> map (\<lambda>j. wb Karsilastirma (33, j)) [0..<9] = totals_formulas 33 22 33
        \<and> map (\<lambda>l. range_cells l 4 15) [''B'', ''C'', ''D'', ''E'', ''F'', ''H'']
            = map (\<lambda>j. map (\<lambda>i. (3 + i, j)) [0..<12]) [1, 2, 3, 4, 5, 7]
        \<and> map (\<lambda>l. range_cells l 22 33) [''B'', ''C'', ''D'', ''E'', ''F'', ''H'']
            = map (\<lambda>j. map (\<lambda>i. (21 + i, j)) [0..<12]) [1, 2, 3, 4, 5, 7]
        \<and> (\<forall>i < 13.
              map (recalc 3 wb Karsilastirma) (map (\<lambda>j. (3 + i, j)) [0..<9])
                = summary_values (build_monthly_summary pp1_df ! i)
            \<and> map (recalc 3 wb Karsilastirma) (map (\<lambda>j. (21 + i, j)) [0..<9])
                = summary_values (build_monthly_summary pp2_df ! i)))"
proof
  assume ne: "pp1_df \<noteq> [] \<and> pp2_df \<noteq> []"
  define cm :: "detail_col \<Rightarrow> string" where
    "cm = (\<lambda>name. detail_letters ! index_of name detail_headers)"
  define l1 where "l1 = Suc (length pp1_df)"
  define l2 where "l2 = Suc (length pp2_df)"
  define cs where "cs = comparison_sheet cm ''M'' ''R'' l1 l2
    (compute_monthly_extras pp1_df) (compute_monthly_extras pp2_df)"
  define wb :: workbook where
    "wb = (\<lambda>name. case name of Santral_1 \<Rightarrow> detail_sheet pp1_df | Santral_2 \<Rightarrow> detail_sheet pp2_df
       | Karsilastirma \<Rightarrow> cs)"
  have report: "build_report pp1_df pp2_df = Some wb"
    unfolding wb_def cs_def cm_def l1_def l2_def using ne
    by (simp add: build_report_def base_headers_def col_letters_computed Let_def)
  have sheets: "wb Santral_1 = detail_sheet pp1_df" "wb Santral_2 = detail_sheet pp2_df"
    "wb Karsilastirma = cs"
    by (simp_all add: wb_def)
  have K1: "wb Karsilastirma (3 + i, col)
      = month_row_cell cm l1 l2 Santral_1 (compute_monthly_extras pp1_df) (3 + i) i col"
    and K2: "wb Karsilastirma (21 + i, col)
      = month_row_cell cm l1 l2 Santral_2 (compute_monthly_extras pp2_df) (21 + i) i col"
    if "i < 12" for i col
    using that by (simp_all add: sheets cs_def comparison_sheet_def Let_def)
  have T1: "wb Karsilastirma (3 + 12, col) = totals_row_cell ''M'' ''R'' (3 + 12) (3 + 1) (3 + 12) col"
    and T2: "wb Karsilastirma (21 + 12, col) = totals_row_cell ''M'' ''R'' (21 + 12) (21 + 1) (21 + 12) col"
    for col
    by (simp_all add: sheets cs_def comparison_sheet_def Let_def)
  have L: "(if Santral_1 = Santral_1 then l1 else l2) = length pp1_df + 1"
    "(if Santral_2 = Santral_1 then l1 else l2) = length pp2_df + 1"
    by (simp_all add: l1_def l2_def)
  have b1: "map (recalc (Suc (Suc n)) wb Karsilastirma) (map (\<lambda>j. (3 + i, j)) [0..<9])
           = summary_values (summary_month pp1_df (Suc i))"
    and b2: "map (recalc (Suc (Suc n)) wb Karsilastirma) (map (\<lambda>j. (21 + i, j)) [0..<9])
           = summary_values (summary_month pp2_df (Suc i))"
    if "i < 12" for i n
    by (rule block_recalc(1) [OF cm_def K1 T1 sheets(1) L(1)] block_recalc(1) [OF cm_def K2 T2 sheets(2) L(2)];
        (assumption | rule that))+
  have t1: "map (recalc (Suc (Suc (Suc n))) wb Karsilastirma) (map (\<lambda>j. (3 + 12, j)) [0..<9])
           = summary_values (total_row (map (summary_month pp1_df) [1..<13]))"
    and t2: "map (recalc (Suc (Suc (Suc n))) wb Karsilastirma) (map (\<lambda>j. (21 + 12, j)) [0..<9])
           = summary_values (total_row (map (summary_month pp2_df) [1..<13]))"
    for n
    by (rule block_recalc(2) [OF cm_def K1 T1 sheets(1) L(1)] block_recalc(2) [OF cm_def K2 T2 sheets(2) L(2)];
        assumption)+
  have months: "map (\<lambda>j. wb Karsilastirma (3 + i, j)) [0..<9]
                = month_formulas Santral_1 (length pp1_df + 1) (3 + i) i
            \<and> map (\<lambda>j. wb Karsilastirma (21 + i, j)) [0..<9]
                = month_formulas Santral_2 (length pp2_df + 1) (21 + i) i" if i: "i < 12" for i
    using month_row_cells [OF cm_def, of l1 l2 Santral_1 _ "3 + i" i]
      month_row_cells [OF cm_def, of l1 l2 Santral_2 _ "21 + i" i]
    by (simp only: K1 [OF i] K2 [OF i] L)
  have totals: "map (\<lambda>j. wb Karsilastirma (15, j)) [0..<9] = totals_formulas 15 4 15"
    "map (\<lambda>j. wb Karsilastirma (33, j)) [0..<9] = totals_formulas 33 22 33"
    using totals_row_cells [of "''M''" "''R''" 15 4 15] totals_row_cells [of "''M''" "''R''" 33 22 33]
      T1 T2 by simp_all
  have ranges: "map (\<lambda>l. range_cells l 4 15) [''B'', ''C'', ''D'', ''E'', ''F'', ''H'']
            = map (\<lambda>j. map (\<lambda>i. (3 + i, j)) [0..<12]) [1, 2, 3, 4, 5, 7]"
    "map (\<lambda>l. range_cells l 22 33) [''B'', ''C'', ''D'', ''E'', ''F'', ''H'']
            = map (\<lambda>j. map (\<lambda>i. (21 + i, j)) [0..<12]) [1, 2, 3, 4, 5, 7]"
    using range_cells_block [of _ _ 3] range_cells_block [of _ _ 21]
    by (simp_all add: column_number_def del: upt_Suc)
  have recalculated: "map (recalc 3 wb Karsilastirma) (map (\<lambda>j. (3 + i, j)) [0..<9])
                = summary_values (build_monthly_summary pp1_df ! i)
            \<and> map (recalc 3 wb Karsilastirma) (map (\<lambda>j. (21 + i, j)) [0..<9])
                = summary_values (build_monthly_summary pp2_df ! i)" if i: "i < 13" for i
  proof (cases "i < 12")
    case True
    have three: "(3 :: nat) = Suc (Suc (Suc 0))" by simp
    from b1 [OF True, of "Suc 0"] b2 [OF True, of "Suc 0"] show ?thesis
      by (simp only: three summary_months_nth [OF True])
  next
    case False
    with i have i12: "i = 12" by simp
    have three: "(3 :: nat) = Suc (Suc (Suc 0))" by simp
    have "(3 :: nat) + 12 = 15" "(21 :: nat) + 12 = 33" by simp_all
    with t1 [of 0] t2 [of 0] show ?thesis
      unfolding i12 by (simp only: three summary_total_nth)
  qed
  from report sheets(1,2) months totals ranges recalculated
  show "\<exists>wb. build_report pp1_df pp2_df = Some wb
        \<and> wb Santral_1 = detail_sheet pp1_df \<and> wb Santral_2 = detail_sheet pp2_df
        \<and> (\<forall>i < 12.
              map (\<lambda>j. wb Karsilastirma (3 + i, j)) [0..<9]
                = month_formulas Santral_1 (length pp1_df + 1) (3 + i) i
            \<and> map (\<lambda>j. wb Karsilastirma (21 + i, j)) [0..<9]
                = month_formulas Santral_2 (length pp2_df + 1) (21 + i) i)
        \<and> map (\<lambda>j. wb Karsilastirma (15, j)) [0..<9] = totals_formulas 15 4 15
        \<and> map (\<lambda>j. wb Karsilastirma (33, j)) [0..<9] = totals_formulas 33 22 33
        \<and> map (\<lambda>l. range_cells l 4 15) [''B'', ''C'', ''D'', ''E'', ''F'', ''H'']
            = map (\<lambda>j. map (\<lambda>i. (3 + i, j)) [0..<12]) [1, 2, 3, 4, 5, 7]
        \<and> map (\<lambda>l. range_cells l 22 33) [''B'', ''C'', ''D'', ''E'', ''F'', ''H'']
            = map (\<lambda>j. map (\<lambda>i. (21 + i, j)) [0..<12]) [1, 2, 3, 4, 5, 7]
        \<and> (\<forall>i < 13.
              map (recalc 3 wb Karsilastirma) (map (\<lambda>j. (3 + i, j)) [0..<9])
                = summary_values (build_monthly_summary pp1_df ! i)
            \<and> map (recalc 3 wb Karsilastirma) (map (\<lambda>j. (21 + i, j)) [0..<9])
                = summary_values (build_monthly_summary pp2_df ! i))"
    by (intro exI [of _ wb] conjI allI impI) blast+
qed

text \<open>
  The theorem on the two-hour table as plant 1 and the three hours of March as plant 2:
  the row of March in the second block (row 23) and the totals row of the first block
  (row 15) recalculate to the numbers of the monthly summaries.
\<close>

theorem comparison_sheet_recalculates_to_summary_witness:
  "\<exists>wb. build_report two_hours march_hours = Some wb
     \<and> map (recalc 3 wb Karsilastirma) (map (\<lambda>j. (23, j)) [0..<9])
         = [XNum 3, XNum 29, XNum (- 1), XNum 0, XNum 0, XNum 12000, XNum (12000 / 29), XNum 90,
            XNum (90 / 29)]
     \<and> map (recalc 3 wb Karsilastirma) (map (\<lambda>j. (15, j)) [0..<9])
         = [XText ''Toplam'', XNum 40, XNum 0, XNum 700, XNum 0, XNum 700, XNum 17.5, XNum 0, XNum 0]"
proof -
  have ne: "two_hours \<noteq> [] \<and> march_hours \<noteq> []"
    by (simp add: two_hours_def march_hours_def)
  with comparison_sheet_recalculates_to_summary [of two_hours march_hours]
  obtain wb where wb: "build_report two_hours march_hours = Some wb"
    and rows: "\<forall>i < 13.
        map (recalc 3 wb Karsilastirma) (map (\<lambda>j. (3 + i, j)) [0..<9])
          = summary_values (build_monthly_summary two_hours ! i)
      \<and> map (recalc 3 wb Karsilastirma) (map (\<lambda>j. (21 + i, j)) [0..<9])
          = summary_values (build_monthly_summary march_hours ! i)"
    by blast
  from rows [rule_format, of 2]
  have march: "map (recalc 3 wb Karsilastirma) (map (\<lambda>j. (23, j)) [0..<9])
      = summary_values (build_monthly_summary march_hours ! 2)"
    by simp
  from rows [rule_format, of 12]
  have total: "map (recalc 3 wb Karsilastirma) (map (\<lambda>j. (15, j)) [0..<9])
      = summary_values (build_monthly_summary two_hours ! 12)"
    by simp
  have m: "summary_values (build_monthly_summary march_hours ! 2)
      = [XNum 3, XNum 29, XNum (- 1), XNum 0, XNum 0, XNum 12000, XNum (12000 / 29), XNum 90,
         XNum (90 / 29)]"
    by (simp add: summary_months_nth summary_values_def summary_month_def Let_def group_sum_def
        month_rows_def march_hours_def nansum_def known_def unit_metric_def)
  have upt: "[1..<13] = [1, 2, 3, 4, 5, 6, 7, 8, 9, 10, 11, 12 :: nat]"
    by (simp add: upt_rec)
  have t: "summary_values (build_monthly_summary two_hours ! 12)
      = [XText ''Toplam'', XNum 40, XNum 0, XNum 700, XNum 0, XNum 700, XNum 17.5, XNum 0, XNum 0]"
    unfolding summary_total_nth upt
    by (simp add: summary_values_def total_row_def summary_month_def Let_def group_sum_def
        month_rows_def two_hours_def nansum_def known_def unit_metric_def)
  from wb march total m t show ?thesis by simp
qed

text \<open>
  Claim C3 as stated fails for the first of the nine summary columns: in the report of
  the same two tables the cells of the column \<open>Ay\<close> hold the month number, or the label
  of the totals row, as a value and no formula.
\<close>

theorem month_column_is_not_a_formula:
  "\<exists>wb. build_report two_hours march_hours = Some wb
     \<and> wb Karsilastirma (3, 0) = Number 1 \<and> wb Karsilastirma (14, 0) = Number 12
     \<and> wb Karsilastirma (15, 0) = Text ''Toplam''
     \<and> wb Karsilastirma (21, 0) = Number 1 \<and> wb Karsilastirma (33, 0) = Text ''Toplam''"
proof -
  have ne: "two_hours \<noteq> []" "march_hours \<noteq> []"
    by (simp_all add: two_hours_def march_hours_def)
  show ?thesis
    using ne
    by (simp add: build_report_def base_headers_def col_letters_computed Let_def
        comparison_sheet_def month_row_cell_def totals_row_cell_def)
qed

end
